(* ===== verification/GoPrelude.thy ===== *)
theory GoPrelude
  imports Main "HOL-Library.Word" "HOL-Library.Monad_Syntax" "HOL-Library.Multiset"
begin

text \<open>
  Shared vocabulary of the development: the machine integers of the Go code, slice accesses
  that panic when they are out of range, and the generic facts about lists, options and words
  that the components use. A Go run-time panic is the value \<open>None\<close> of an option; a returned
  Go error is the left side of a sum. The gateway is built for 64-bit targets, so \<open>uint\<close>
  is a 64-bit word.
\<close>

unbundle bit_operations_syntax

named_theorems slice_simps \<open>unfolding of slice accesses\<close>

type_synonym byte = "8 word"
type_synonym u16 = "16 word"
type_synonym u32 = "32 word"
type_synonym u64 = "64 word"
type_synonym uint = "64 word"

section \<open>Slices\<close>

text \<open>\<open>xs[i]\<close> for a non-negative index: out of range is a panic.\<close>

definition index_at :: "'a list \<Rightarrow> nat \<Rightarrow> 'a option" where
  "index_at xs i = (if i < length xs then Some (xs ! i) else None)"

text \<open>\<open>xs[lo:]\<close>.\<close>

definition slice_from :: "'a list \<Rightarrow> nat \<Rightarrow> 'a list option" where
  "slice_from xs lo = (if lo \<le> length xs then Some (drop lo xs) else None)"

text \<open>\<open>xs[lo:hi]\<close>, for a slice whose capacity is its length.\<close>

definition slice_range :: "'a list \<Rightarrow> nat \<Rightarrow> nat \<Rightarrow> 'a list option" where
  "slice_range xs lo hi =
     (if lo \<le> hi \<and> hi \<le> length xs then Some (take (hi - lo) (drop lo xs)) else None)"

text \<open>The result of an expression that indexes \<open>xs\<close> at every position below \<open>n\<close>.\<close>

definition need :: "nat \<Rightarrow> 'b list \<Rightarrow> 'a \<Rightarrow> 'a option" where
  "need n xs r = (if n \<le> length xs then Some r else None)"

lemma need_Some [slice_simps]: "n \<le> length xs \<Longrightarrow> need n xs r = Some r"
  by (simp add: need_def)

lemma need_None [slice_simps]: "length xs < n \<Longrightarrow> need n xs r = None"
  by (simp add: need_def)

lemma need_eq_Some_iff: "need n xs r = Some v \<longleftrightarrow> n \<le> length xs \<and> r = v"
  by (simp add: need_def)

lemma index_at_Some [slice_simps]: "i < length xs \<Longrightarrow> index_at xs i = Some (xs ! i)"
  by (simp add: index_at_def)

lemma index_at_eq_Some_iff: "index_at xs i = Some v \<longleftrightarrow> i < length xs \<and> xs ! i = v"
  by (simp add: index_at_def)

lemma index_at_eq_None_iff: "index_at xs i = None \<longleftrightarrow> length xs \<le> i"
  by (simp add: index_at_def)

lemma slice_from_Some [slice_simps]: "lo \<le> length xs \<Longrightarrow> slice_from xs lo = Some (drop lo xs)"
  by (simp add: slice_from_def)

lemma slice_from_eq_Some_iff: "slice_from xs lo = Some ys \<longleftrightarrow> lo \<le> length xs \<and> drop lo xs = ys"
  by (simp add: slice_from_def)

lemma slice_range_Some [slice_simps]:
  "lo \<le> hi \<Longrightarrow> hi \<le> length xs \<Longrightarrow> slice_range xs lo hi = Some (take (hi - lo) (drop lo xs))"
  by (simp add: slice_range_def)

lemma slice_range_eq_Some_iff:
  "slice_range xs lo hi = Some ys \<longleftrightarrow> lo \<le> hi \<and> hi \<le> length xs \<and> take (hi - lo) (drop lo xs) = ys"
  by (auto simp: slice_range_def)

text \<open>A write through the slice \<open>buf[lo:]\<close>, which shares the array of \<open>buf\<close>.\<close>

definition write_at :: "('a list \<Rightarrow> 'v \<Rightarrow> 'a list option) \<Rightarrow> nat \<Rightarrow> 'a list \<Rightarrow> 'v \<Rightarrow> 'a list option" where
  "write_at w lo buf v =
     do { s \<leftarrow> slice_from buf lo;
          s' \<leftarrow> w s v;
          Some (take lo buf @ s') }"

text \<open>\<open>make([]byte, n)\<close> for a computed length: a negative one is a panic.\<close>

definition make_bytes :: "uint \<Rightarrow> byte list option" where
  "make_bytes n = (if 0 \<le> sint n then Some (replicate (unat n) 0) else None)"

lemma write_at_append:
  "lo = length xs \<Longrightarrow> write_at w lo (xs @ ys) v = map_option ((@) xs) (w ys v)"
  by (cases "w ys v") (simp_all add: write_at_def slice_from_def)

lemma write_at_Some: "lo \<le> length xs \<Longrightarrow> w (drop lo xs) v = Some ys \<Longrightarrow> write_at w lo xs v = Some (take lo xs @ ys)"
  by (simp add: write_at_def slice_from_def)

lemma length_make_bytes: "make_bytes n = Some xs \<Longrightarrow> length xs = unat n"
  by (auto simp: make_bytes_def split: if_splits)

text \<open>A list of known length, or known minimal length, written out.\<close>

lemma length_ge_2_conv: "2 \<le> length xs \<longleftrightarrow> (\<exists>a b r. xs = a # b # r)"
  by (auto simp: numeral_2_eq_2 Suc_le_length_iff)

lemma length_ge_4_conv: "4 \<le> length xs \<longleftrightarrow> (\<exists>a b c d r. xs = a # b # c # d # r)"
  by (auto simp: eval_nat_numeral Suc_le_length_iff)

lemma length_ge_8_conv:
  "8 \<le> length xs \<longleftrightarrow> (\<exists>a b c d e f g h r. xs = a # b # c # d # e # f # g # h # r)"
  by (auto simp: eval_nat_numeral Suc_le_length_iff)

lemma length_eq_2_conv: "length xs = 2 \<longleftrightarrow> (\<exists>a b. xs = [a, b])"
  by (auto simp: numeral_2_eq_2 length_Suc_conv)

lemma length_eq_4_conv: "length xs = 4 \<longleftrightarrow> (\<exists>a b c d. xs = [a, b, c, d])"
  by (auto simp: eval_nat_numeral length_Suc_conv)

lemma length_eq_8_conv:
  "length xs = 8 \<longleftrightarrow> (\<exists>a b c d e f g h. xs = [a, b, c, d, e, f, g, h])"
  by (auto simp: eval_nat_numeral length_Suc_conv)

lemmas long_convs = length_ge_2_conv length_ge_4_conv length_ge_8_conv

section \<open>Step relations\<close>

text \<open>A step relation with an invariant that holds as long as a bound does, such as a counter that has
  not wrapped around; the bound can only be lost, never regained.\<close>

locale bounded_invariant =
  fixes step :: "'s \<Rightarrow> 's \<Rightarrow> bool"
    and bound :: "'s \<Rightarrow> bool"
    and inv :: "'s \<Rightarrow> bool"
  assumes bound_before: "step s s' \<Longrightarrow> bound s' \<Longrightarrow> bound s"
    and inv_step: "inv s \<Longrightarrow> step s s' \<Longrightarrow> bound s' \<Longrightarrow> inv s'"
begin

lemma inv_reachable:
  assumes "step\<^sup>*\<^sup>* s s'" "inv s" "bound s'"
  shows "inv s'"
  using assms
proof (induction rule: rtranclp_induct)
  case (step y z)
  then show ?case using bound_before inv_step by blast
qed

end

end
