(* ===== verification/GoStrings.thy ===== *)
theory GoStrings
  imports GoPrelude
begin

text \<open>
  The functions of \<^verbatim>\<open>strings\<close> and \<^verbatim>\<open>strconv\<close> that the program uses, on strings of bytes: prefixes, the
  position of a character, splitting, and decimal numbers in both directions. \<open>Atoi\<close> is the value that
  \<^verbatim>\<open>strconv.Atoi\<close> returns, whether or not it also returns an error.
\<close>

section \<open>Decimal numbers\<close>

fun show_nat :: "nat \<Rightarrow> string" where
  "show_nat n = (if n < 10 then [char_of (48 + n)] else show_nat (n div 10) @ [char_of (48 + n mod 10)])"

declare show_nat.simps [simp del]

definition show_int :: "int \<Rightarrow> string" where
  "show_int i = (if i < 0 then ''-'' @ show_nat (nat (- i)) else show_nat (nat i))"

definition is_digit :: "char \<Rightarrow> bool" where
  "is_digit c \<longleftrightarrow> 48 \<le> (of_char c :: nat) \<and> (of_char c :: nat) \<le> 57"

definition digit_value :: "char \<Rightarrow> nat" where
  "digit_value c = of_char c - 48"

text \<open>The loop of \<^verbatim>\<open>ParseUint\<close> stops at the first character that is no digit or that takes the number out
  of 64 bits.\<close>

datatype parsed = Digits nat | TooLarge | BadSyntax

fun parse_digits :: "nat \<Rightarrow> string \<Rightarrow> parsed" where
  "parse_digits n [] = Digits n"
| "parse_digits n (c # s) =
     (if \<not> is_digit c then BadSyntax
      else let n' = 10 * n + digit_value c in if n' < 2 ^ 64 then parse_digits n' s else TooLarge)"

definition Atoi_unsigned :: "bool \<Rightarrow> string \<Rightarrow> int" where
  "Atoi_unsigned neg s =
     (case (if s = [] then BadSyntax else parse_digits 0 s) of
        BadSyntax \<Rightarrow> 0
      | TooLarge \<Rightarrow> if neg then - (2 ^ 63) else 2 ^ 63 - 1
      | Digits n \<Rightarrow> if neg then - min (int n) (2 ^ 63) else min (int n) (2 ^ 63 - 1))"

definition Atoi :: "string \<Rightarrow> int" where
  "Atoi s =
     (case s of
        c # r \<Rightarrow> if c = CHR ''-'' then Atoi_unsigned True r
                else if c = CHR ''+'' then Atoi_unsigned False r
                else Atoi_unsigned False s
      | [] \<Rightarrow> 0)"

section \<open>Searching\<close>

definition has_prefix :: "string \<Rightarrow> string \<Rightarrow> bool" where
  "has_prefix s p \<longleftrightarrow> take (length p) s = p"

text \<open>\<^verbatim>\<open>strings.Index\<close> and \<^verbatim>\<open>strings.LastIndex\<close> for one character; \<open>None\<close> is -1.\<close>

fun str_index :: "string \<Rightarrow> char \<Rightarrow> nat option" where
  "str_index [] c = None"
| "str_index (d # s) c = (if d = c then Some 0 else map_option Suc (str_index s c))"

fun str_last_index :: "string \<Rightarrow> char \<Rightarrow> nat option" where
  "str_last_index [] c = None"
| "str_last_index (d # s) c =
     (case str_last_index s c of Some i \<Rightarrow> Some (Suc i) | None \<Rightarrow> if d = c then Some 0 else None)"

text \<open>\<^verbatim>\<open>strings.Contains\<close> and \<^verbatim>\<open>strings.Split\<close> at one character.\<close>

fun str_contains :: "string \<Rightarrow> string \<Rightarrow> bool" where
  "str_contains [] p = (p = [])"
| "str_contains (c # s) p = (has_prefix (c # s) p \<or> str_contains s p)"

fun str_split :: "char \<Rightarrow> string \<Rightarrow> string list" where
  "str_split c [] = [[]]"
| "str_split c (d # s) =
     (if d = c then [] # str_split c s
      else case str_split c s of w # ws \<Rightarrow> (d # w) # ws | [] \<Rightarrow> [[d]])"

section \<open>Facts\<close>

lemma has_prefix_append [simp]: "has_prefix (p @ s) p"
  by (simp add: has_prefix_def)

lemma has_prefix_Cons [simp]: "has_prefix (c # s) (d # p) \<longleftrightarrow> c = d \<and> has_prefix s p"
  by (auto simp: has_prefix_def)

lemma has_prefix_Nil [simp]: "has_prefix s []" "has_prefix [] (d # p) \<longleftrightarrow> False"
  by (simp_all add: has_prefix_def)

lemma str_index_None: "str_index s c = None \<longleftrightarrow> c \<notin> set s"
  by (induction s) auto

lemma str_index_append: "c \<notin> set s \<Longrightarrow> str_index (s @ c # r) c = Some (length s)"
  by (induction s) auto

lemma str_last_index_None: "str_last_index s c = None \<longleftrightarrow> c \<notin> set s"
  by (induction s) (auto split: option.splits)

lemma str_last_index_append: "c \<notin> set r \<Longrightarrow> str_last_index (s @ c # r) c = Some (length s)"
  by (induction s) (auto simp: str_last_index_None split: option.splits)

lemma str_split_nonempty: "str_split c s \<noteq> []"
  by (induction s) (auto split: list.splits)

lemma str_split_append: "c \<notin> set s \<Longrightarrow> str_split c (s @ c # r) = s # str_split c r"
  by (induction s) auto

lemma str_split_none: "c \<notin> set s \<Longrightarrow> str_split c s = [s]"
  by (induction s) auto

lemma is_digit_char_of: "(d :: nat) < 10 \<Longrightarrow> is_digit (char_of (48 + d))"
  by (simp add: is_digit_def)

lemma digit_value_char_of: "(d :: nat) < 10 \<Longrightarrow> digit_value (char_of (48 + d)) = d"
  by (simp add: digit_value_def)

lemma show_nat_digits: "c \<in> set (show_nat n) \<Longrightarrow> is_digit c"
proof (induction n rule: show_nat.induct)
  case (1 n)
  then show ?case
    by (subst (asm) (2) show_nat.simps) (auto simp: is_digit_char_of split: if_splits)
qed

lemma show_nat_nonempty [simp]: "show_nat n \<noteq> []"
  by (subst show_nat.simps) simp

lemma parse_digits_append:
  "parse_digits n (s @ t) = (case parse_digits n s of Digits m \<Rightarrow> parse_digits m t | r \<Rightarrow> r)"
  by (induction n s rule: parse_digits.induct) (auto simp: Let_def)

lemma parse_digits_show_nat: "n < 2 ^ 64 \<Longrightarrow> parse_digits 0 (show_nat n) = Digits n"
proof (induction n rule: show_nat.induct)
  case (1 n)
  show ?case
  proof (cases "n < 10")
    case True
    then show ?thesis
      by (subst show_nat.simps) (simp add: is_digit_char_of digit_value_char_of)
  next
    case False
    with 1 have "parse_digits 0 (show_nat (n div 10)) = Digits (n div 10)" by simp
    with False 1(2) show ?thesis
      by (subst show_nat.simps) (simp add: parse_digits_append is_digit_char_of digit_value_char_of Let_def)
  qed
qed

lemma show_nat_not_sign: "hd (show_nat n) \<noteq> CHR ''-''" "hd (show_nat n) \<noteq> CHR ''+''"
proof -
  have "is_digit (hd (show_nat n))" by (intro show_nat_digits [of _ n] hd_in_set) simp
  then show "hd (show_nat n) \<noteq> CHR ''-''" "hd (show_nat n) \<noteq> CHR ''+''" by (auto simp: is_digit_def)
qed

lemma Atoi_show_nat: "n < 2 ^ 63 \<Longrightarrow> Atoi (show_nat n) = int n"
  using show_nat_not_sign [of n] parse_digits_show_nat [of n]
  by (cases "show_nat n") (auto simp: Atoi_def Atoi_unsigned_def)

lemma show_nat_inj: "show_nat m = show_nat n \<Longrightarrow> m = n"
proof (induction m arbitrary: n rule: show_nat.induct)
  case (1 m)
  have last: "last (show_nat k) = char_of (48 + k mod 10)" and
    front: "butlast (show_nat k) = (if k < 10 then [] else show_nat (k div 10))" for k
    by (subst show_nat.simps; simp)+
  have "m mod 10 = n mod 10"
    using 1(2) last [of m] last [of n] digit_value_char_of [of "m mod 10"] digit_value_char_of [of "n mod 10"]
    by simp
  moreover have "m div 10 = n div 10"
  proof (cases "m < 10")
    case True
    then have "butlast (show_nat n) = []" using 1(2) front [of m] by simp
    then have "n < 10" using front [of n] by (auto split: if_splits)
    with True show ?thesis by simp
  next
    case False
    then have "butlast (show_nat n) = show_nat (m div 10)" using 1(2) front [of m] by simp
    then have "show_nat (m div 10) = show_nat (n div 10)" using front [of n] by (metis show_nat_nonempty)
    with False 1(1) show ?thesis by simp
  qed
  ultimately show ?case by (metis div_mod_decomp)
qed

end
