(* ===== verification/DeviceUpdate.thy ===== *)
theory DeviceUpdate
  imports GoStrings GoPrelude
begin

text \<open>
  The parts of the device managers that do not depend on the protocol: the comparison of two sets of
  keys in \<^verbatim>\<open>pkg/utils/differenceutil/utils.go\<close>, and the update of the variables of a device, which
  \<^verbatim>\<open>manager.go\<close> of all three protocols writes out in the same way. The variables of a device are objects
  that its list and its map both point to, so the update works on a store of objects.
\<close>

section \<open>Differences\<close>

text \<open>\<open>m[k] |= b\<close>, for every key of a list.\<close>

definition mark_key :: "byte \<Rightarrow> (string \<Rightarrow> byte option) \<Rightarrow> string \<Rightarrow> (string \<Rightarrow> byte option)" where
  "mark_key b m k = m(k \<mapsto> (case m k of Some v \<Rightarrow> v | None \<Rightarrow> 0) OR b)"

definition mark_keys :: "string list \<Rightarrow> string list \<Rightarrow> (string \<Rightarrow> byte option)" where
  "mark_keys src des = foldl (mark_key (push_bit 1 1)) (foldl (mark_key (push_bit 0 1)) (\<lambda>_. None) src) des"

text \<open>The loop over the map, whose iteration order is \<open>keys\<close>.\<close>

definition split_key ::
  "(string \<Rightarrow> byte option) \<Rightarrow> string list \<times> string list \<times> string list \<Rightarrow> string \<Rightarrow>
   string list \<times> string list \<times> string list" where
  "split_key m = (\<lambda>(onlySrc, intersection, onlyDes) k.
     let v = (case m k of Some v \<Rightarrow> v | None \<Rightarrow> 0);
         a = v AND push_bit 0 1 \<noteq> 0;
         b = v AND push_bit 1 1 \<noteq> 0
     in if a \<and> b then (onlySrc, intersection @ [k], onlyDes)
        else if a \<and> \<not> b then (onlySrc @ [k], intersection, onlyDes)
        else if \<not> a \<and> b then (onlySrc, intersection, onlyDes @ [k])
        else (onlySrc, intersection, onlyDes))"

definition split_keys ::
  "(string list \<Rightarrow> string list) \<Rightarrow> string list \<Rightarrow> string list \<Rightarrow> string list \<times> string list \<times> string list" where
  "split_keys order src des =
     foldl (split_key (mark_keys src des)) ([], [], []) (order (remdups (src @ des)))"

definition DifferenceAndIntersectionStrings ::
  "(string list \<Rightarrow> string list) \<Rightarrow> string list \<Rightarrow> string list \<Rightarrow> string list \<times> string list \<times> string list" where
  "DifferenceAndIntersectionStrings order src des = split_keys order src des"

definition DifferenceAndIntersectionSameTypeObjects ::
  "(string list \<Rightarrow> string list) \<Rightarrow> 'a list \<Rightarrow> 'a list \<Rightarrow> ('a \<Rightarrow> string) \<Rightarrow>
   string list \<times> string list \<times> string list" where
  "DifferenceAndIntersectionSameTypeObjects order src des get = split_keys order (map get src) (map get des)"

definition DifferenceAndIntersectionObjects ::
  "(string list \<Rightarrow> string list) \<Rightarrow> 'a list \<Rightarrow> 'b list \<Rightarrow> ('a \<Rightarrow> string) \<Rightarrow> ('b \<Rightarrow> string) \<Rightarrow>
   string list \<times> string list \<times> string list" where
  "DifferenceAndIntersectionObjects order src des getSrcKey getDesKey =
     split_keys order (map getSrcKey src) (map getDesKey des)"

lemma mark_key_fold:
  "foldl (mark_key b) m ks k = (if k \<in> set ks then Some ((case m k of Some v \<Rightarrow> v | None \<Rightarrow> 0) OR b) else m k)"
  by (induction ks arbitrary: m) (auto simp: mark_key_def or.assoc split: option.splits)

lemma mark_keys_bits:
  "mark_keys src des k =
     (if k \<in> set src then Some (if k \<in> set des then 3 else 1) else if k \<in> set des then Some 2 else None)"
  by (simp add: mark_keys_def mark_key_fold)

lemma split_key_fold:
  "foldl (split_key (mark_keys src des)) (xs, ys, zs) keys =
     (xs @ filter (\<lambda>k. k \<in> set src \<and> k \<notin> set des) keys,
      ys @ filter (\<lambda>k. k \<in> set src \<and> k \<in> set des) keys,
      zs @ filter (\<lambda>k. k \<notin> set src \<and> k \<in> set des) keys)"
  by (induction keys arbitrary: xs ys zs) (simp_all add: split_key_def mark_keys_bits)

lemma mset_filter_keys:
  assumes "mset (order keys) = mset (keys :: string list)" "distinct keys"
  shows "mset (filter P (order keys)) = mset_set {k \<in> set keys. P k}"
proof -
  have "distinct (order keys)" "set (order keys) = set keys"
    using assms by (metis mset_eq_imp_distinct_iff) (metis assms(1) mset_eq_setD)
  then show ?thesis by (simp add: mset_set_set [symmetric] flip: set_filter)
qed

lemma split_keys_sets:
  assumes "\<And>keys. mset (order keys) = mset keys"
  shows "\<exists>xs ys zs. split_keys order src des = (xs, ys, zs) \<and> mset xs = mset_set (set src - set des) \<and>
     mset ys = mset_set (set src \<inter> set des) \<and> mset zs = mset_set (set des - set src)"
proof -
  let ?f = "\<lambda>P. filter P (order (remdups (src @ des)))"
  have f: "mset (?f P) = mset_set K" if "K = {k \<in> set src \<union> set des. P k}" for P K
    using mset_filter_keys [of order "remdups (src @ des)" P] assms that by simp
  have "split_keys order src des = (?f (\<lambda>k. k \<in> set src \<and> k \<notin> set des), ?f (\<lambda>k. k \<in> set src \<and> k \<in> set des),
      ?f (\<lambda>k. k \<notin> set src \<and> k \<in> set des))"
    by (simp add: split_keys_def split_key_fold)
  then show ?thesis by (intro exI conjI) (assumption | rule f | blast)+
qed

text \<open>The comparison returns every key once, in the part of the three it belongs to, whatever the order the
  map is iterated in.\<close>

theorem difference_partitions_keys:
  assumes "\<And>keys. mset (order keys) = mset keys"
  shows "\<exists>onlySrc intersection onlyDes.
     DifferenceAndIntersectionObjects order src des getSrcKey getDesKey = (onlySrc, intersection, onlyDes) \<and>
     mset onlySrc = mset_set (getSrcKey ` set src - getDesKey ` set des) \<and>
     mset intersection = mset_set (getSrcKey ` set src \<inter> getDesKey ` set des) \<and>
     mset onlyDes = mset_set (getDesKey ` set des - getSrcKey ` set src)"
  using split_keys_sets [of order "map getSrcKey src" "map getDesKey des"] assms
  by (simp add: DifferenceAndIntersectionObjects_def)

lemma difference_partitions_keys_witness:
  "\<exists>onlySrc intersection onlyDes.
     DifferenceAndIntersectionObjects rev [''a'', ''b''] [''b'', ''c''] id id = (onlySrc, intersection, onlyDes) \<and>
     mset onlySrc = {#''a''#} \<and> mset intersection = {#''b''#} \<and> mset onlyDes = {#''c''#}"
proof -
  have "{''a'', ''b''} - {''b'', ''c''} = {''a''}" "{''a'', ''b''} \<inter> {''b'', ''c''} = {''b''}"
    "{''b'', ''c''} - {''a'', ''b''} = {''c''}" by auto
  then show ?thesis
    using difference_partitions_keys [of rev "[''a'', ''b'']" "[''b'', ''c'']" id id] by (simp add: id_def)
qed

section \<open>The variables of a device as objects\<close>

text \<open>\<^verbatim>\<open>strings.TrimSpace\<close>, for the white space of ASCII.\<close>

definition is_space :: "char \<Rightarrow> bool" where
  "is_space c \<longleftrightarrow> (of_char c :: nat) \<in> {9, 10, 11, 12, 13, 32}"

definition TrimSpace :: "string \<Rightarrow> string" where
  "TrimSpace s = rev (dropWhile is_space (rev (dropWhile is_space s)))"

text \<open>The variable objects, the list of the device and its map, both by the number of the object.\<close>

record 'v variable_store =
  vs_objects :: "'v list"
  vs_Variables :: "nat list"
  vs_VariablesMap :: "string \<Rightarrow> nat option"

definition stored_variables :: "'v variable_store \<Rightarrow> 'v list" where
  "stored_variables s = map ((!) (vs_objects s)) (vs_Variables s)"

definition stored_map :: "'v variable_store \<Rightarrow> string \<Rightarrow> 'v option" where
  "stored_map s k = map_option ((!) (vs_objects s)) (vs_VariablesMap s k)"

text \<open>\<open>DeepCopyObject\<close>: a fresh object for every variable, in the list and in the map.\<close>

definition copy_variables :: "('v \<Rightarrow> string) \<Rightarrow> 'v list \<Rightarrow> 'v variable_store" where
  "copy_variables name vs =
     \<lparr>vs_objects = vs, vs_Variables = [0..<length vs],
      vs_VariablesMap = foldl (\<lambda>m i. m(name (vs ! i) \<mapsto> i)) (\<lambda>_. None) [0..<length vs]\<rparr>"

text \<open>The loop that keeps the variables whose names stay, and takes the others out of the map.\<close>

definition prune_variables :: "('v \<Rightarrow> string) \<Rightarrow> string set \<Rightarrow> 'v variable_store \<Rightarrow> 'v variable_store" where
  "prune_variables name delCharSet s =
     s\<lparr>vs_Variables := filter (\<lambda>c. name (vs_objects s ! c) \<notin> delCharSet) (vs_Variables s),
       vs_VariablesMap := foldl (\<lambda>m c. if name (vs_objects s ! c) \<in> delCharSet then m(name (vs_objects s ! c) := None) else m)
         (vs_VariablesMap s) (vs_Variables s)\<rparr>"

definition upsert_variable ::
  "('v \<Rightarrow> string) \<Rightarrow> ('n \<Rightarrow> string) \<Rightarrow> ('v \<Rightarrow> 'n \<Rightarrow> 'v) \<Rightarrow> ('n \<Rightarrow> 'v) \<Rightarrow> 'v variable_store \<Rightarrow> 'n \<Rightarrow> 'v variable_store" where
  "upsert_variable name new_name assign fresh s ndv =
     (case vs_VariablesMap s (TrimSpace (new_name ndv)) of
        Some v \<Rightarrow> s\<lparr>vs_objects := (vs_objects s)[v := assign (vs_objects s ! v) ndv]\<rparr>
      | None \<Rightarrow>
          let v = length (vs_objects s)
          in s\<lparr>vs_objects := vs_objects s @ [fresh ndv], vs_Variables := vs_Variables s @ [v],
               vs_VariablesMap := (vs_VariablesMap s)(name (fresh ndv) \<mapsto> v)\<rparr>)"

definition update_variables ::
  "(string list \<Rightarrow> string list) \<Rightarrow> ('v \<Rightarrow> string) \<Rightarrow> ('n \<Rightarrow> string) \<Rightarrow> ('v \<Rightarrow> 'n \<Rightarrow> 'v) \<Rightarrow> ('n \<Rightarrow> 'v) \<Rightarrow>
   'v list \<Rightarrow> 'n list \<Rightarrow> 'v variable_store" where
  "update_variables order name new_name assign fresh old new =
     (let (delChars, _, _) = DifferenceAndIntersectionObjects order old new name new_name
      in foldl (upsert_variable name new_name assign fresh)
           (prune_variables name (set delChars) (copy_variables name old)) new)"

section \<open>What an update does\<close>

definition store_ok :: "('v \<Rightarrow> string) \<Rightarrow> 'v variable_store \<Rightarrow> bool" where
  "store_ok name s \<longleftrightarrow>
     (\<forall>p \<in> set (vs_Variables s). p < length (vs_objects s)) \<and> distinct (vs_Variables s) \<and>
     distinct (map name (stored_variables s)) \<and>
     (\<forall>k p. vs_VariablesMap s k = Some p \<longleftrightarrow> p \<in> set (vs_Variables s) \<and> name (vs_objects s ! p) = k)"

lemma map_fold_upd:
  "distinct (map f ps) \<Longrightarrow> foldl (\<lambda>m i. m(f i \<mapsto> i)) m ps k = Some p \<longleftrightarrow>
     p \<in> set ps \<and> f p = k \<or> k \<notin> f ` set ps \<and> m k = Some p"
  by (induction ps arbitrary: m) (auto simp: fun_upd_def image_iff split: if_splits)

lemma map_fold_delete:
  "foldl (\<lambda>m c. if P c then m(f c := None) else m) m ps k = (if \<exists>c \<in> set ps. P c \<and> f c = k then None else m k)"
  by (induction ps arbitrary: m) auto

lemma copy_variables_ok:
  assumes "distinct (map name vs)"
  shows "store_ok name (copy_variables name vs)" "stored_variables (copy_variables name vs) = vs"
proof -
  have vars: "stored_variables (copy_variables name vs) = vs"
    by (simp add: stored_variables_def copy_variables_def map_nth)
  moreover have "map (\<lambda>i. name (vs ! i)) [0..<length vs] = map name vs"
    by (simp add: map_nth flip: map_map [of name "(!) vs", unfolded comp_def])
  ultimately show "store_ok name (copy_variables name vs)"
    using assms map_fold_upd [of "\<lambda>i. name (vs ! i)" "[0..<length vs]" "\<lambda>_. None"]
    by (auto simp: store_ok_def copy_variables_def)
  show "stored_variables (copy_variables name vs) = vs" by (rule vars)
qed

lemma prune_variables_ok:
  assumes "store_ok name s"
  shows "store_ok name (prune_variables name del s)"
    "stored_variables (prune_variables name del s) = filter (\<lambda>v. name v \<notin> del) (stored_variables s)"
proof -
  show vars: "stored_variables (prune_variables name del s) = filter (\<lambda>v. name v \<notin> del) (stored_variables s)"
    by (simp add: stored_variables_def prune_variables_def filter_map comp_def)
  have "distinct (map name (stored_variables (prune_variables name del s)))"
    using assms unfolding vars by (simp add: store_ok_def distinct_map_filter)
  then show "store_ok name (prune_variables name del s)"
    using assms by (auto simp: store_ok_def prune_variables_def map_fold_delete)
qed

locale variable_update =
  fixes name :: "'v \<Rightarrow> string"
    and new_name :: "'n \<Rightarrow> string"
    and assign :: "'v \<Rightarrow> 'n \<Rightarrow> 'v"
    and fresh :: "'n \<Rightarrow> 'v"
  assumes name_assign: "name (assign v n) = new_name n"
    and name_fresh: "name (fresh n) = new_name n"
begin

lemma names_assigned:
  "map name (map (\<lambda>w. if name w = new_name n then assign w n else w) vs) = map name vs"
  by (auto simp: name_assign)

lemma upsert_existing:
  assumes ok: "store_ok name s" and trimmed: "TrimSpace (new_name n) = new_name n"
    and v: "v \<in> set (stored_variables s)" "name v = new_name n"
  shows "store_ok name (upsert_variable name new_name assign fresh s n)"
    "stored_variables (upsert_variable name new_name assign fresh s n) =
     map (\<lambda>w. if name w = new_name n then assign w n else w) (stored_variables s)"
proof -
  obtain p where p: "p \<in> set (vs_Variables s)" "name (vs_objects s ! p) = new_name n"
    using v by (auto simp: stored_variables_def)
  then have m: "vs_VariablesMap s (new_name n) = Some p" using ok unfolding store_ok_def by blast
  have len: "\<forall>q \<in> set (vs_Variables s). q < length (vs_objects s)" using ok by (simp add: store_ok_def)
  have only: "q = p" if "q \<in> set (vs_Variables s)" "name (vs_objects s ! q) = new_name n" for q
  proof -
    have "vs_VariablesMap s (new_name n) = Some q" using ok that unfolding store_ok_def by blast
    with m show ?thesis by simp
  qed
  let ?s = "upsert_variable name new_name assign fresh s n"
  have s: "?s = s\<lparr>vs_objects := (vs_objects s)[p := assign (vs_objects s ! p) n]\<rparr>"
    by (simp add: upsert_variable_def trimmed m)
  have at: "vs_objects ?s ! q = (if name (vs_objects s ! q) = new_name n then assign (vs_objects s ! q) n else vs_objects s ! q)"
    if q: "q \<in> set (vs_Variables s)" for q
  proof (cases "q = p")
    case True
    then show ?thesis using len p q by (simp add: s)
  next
    case False
    then have "name (vs_objects s ! q) \<noteq> new_name n" using only [OF q] by blast
    with False show ?thesis by (simp add: s)
  qed
  show vars: "stored_variables ?s = map (\<lambda>w. if name w = new_name n then assign w n else w) (stored_variables s)"
    using at by (simp add: stored_variables_def s)
  have names: "map name (stored_variables ?s) = map name (stored_variables s)"
    unfolding vars by (rule names_assigned)
  have "name (vs_objects ?s ! q) = name (vs_objects s ! q)" if "q \<in> set (vs_Variables s)" for q
    unfolding at [OF that] by (simp add: name_assign)
  moreover have "vs_Variables ?s = vs_Variables s" "vs_VariablesMap ?s = vs_VariablesMap s"
    "length (vs_objects ?s) = length (vs_objects s)" by (simp_all add: s)
  ultimately show "store_ok name ?s"
    using ok names unfolding store_ok_def by (metis (no_types, lifting))
qed

lemma upsert_fresh:
  assumes ok: "store_ok name s" and trimmed: "TrimSpace (new_name n) = new_name n"
    and new: "new_name n \<notin> name ` set (stored_variables s)"
  shows "store_ok name (upsert_variable name new_name assign fresh s n)"
    "stored_variables (upsert_variable name new_name assign fresh s n) = stored_variables s @ [fresh n]"
proof -
  let ?s = "upsert_variable name new_name assign fresh s n"
  have m: "vs_VariablesMap s (new_name n) = None"
  proof (rule ccontr)
    assume "vs_VariablesMap s (new_name n) \<noteq> None"
    then obtain p where "vs_VariablesMap s (new_name n) = Some p" by blast
    then have "p \<in> set (vs_Variables s)" "name (vs_objects s ! p) = new_name n" using ok by (auto simp: store_ok_def)
    moreover from this(1) have "vs_objects s ! p \<in> set (stored_variables s)" by (simp add: stored_variables_def)
    ultimately show False using new by (metis imageI)
  qed
  have len: "\<forall>q \<in> set (vs_Variables s). q < length (vs_objects s)" using ok by (simp add: store_ok_def)
  have s: "?s = s\<lparr>vs_objects := vs_objects s @ [fresh n], vs_Variables := vs_Variables s @ [length (vs_objects s)],
      vs_VariablesMap := (vs_VariablesMap s)(new_name n \<mapsto> length (vs_objects s))\<rparr>"
    by (simp add: upsert_variable_def trimmed m Let_def name_fresh)
  show vars: "stored_variables ?s = stored_variables s @ [fresh n]"
    using len by (auto simp: s stored_variables_def nth_append)
  have "distinct (map name (stored_variables ?s))"
    using ok new unfolding vars by (auto simp: store_ok_def name_fresh)
  moreover have "name (vs_objects ?s ! q) = name (vs_objects s ! q)" if "q \<in> set (vs_Variables s)" for q
    using that len by (auto simp: s nth_append)
  moreover have "name (vs_objects s ! q) \<noteq> new_name n" if "q \<in> set (vs_Variables s)" for q
  proof -
    have "vs_objects s ! q \<in> set (stored_variables s)" using that by (simp add: stored_variables_def)
    then show ?thesis using new by (metis imageI)
  qed
  ultimately show "store_ok name ?s"
    using ok len unfolding store_ok_def by (auto simp: s name_fresh nth_append)
qed

text \<open>The variables after the insertion of \<open>new\<close> into \<open>vs\<close>: those that are there already keep their place.\<close>

definition upserted :: "'v list \<Rightarrow> 'n list \<Rightarrow> 'v list" where
  "upserted vs new =
     map (\<lambda>v. case find (\<lambda>n. new_name n = name v) new of Some n \<Rightarrow> assign v n | None \<Rightarrow> v) vs @
     map fresh (filter (\<lambda>n. new_name n \<notin> name ` set vs) new)"

lemma upserts_ok:
  assumes "store_ok name s" "\<forall>n \<in> set new. TrimSpace (new_name n) = new_name n" "distinct (map new_name new)"
  shows "store_ok name (foldl (upsert_variable name new_name assign fresh) s new) \<and>
    stored_variables (foldl (upsert_variable name new_name assign fresh) s new) = upserted (stored_variables s) new"
  using assms
proof (induction new arbitrary: s)
  case (Cons n new)
  let ?s = "upsert_variable name new_name assign fresh s n"
  have "find (\<lambda>m. new_name m = new_name n) new = None"
    using Cons.prems(3) by (simp add: find_None_iff) (metis imageI)
  note rest = this
  show ?case
  proof (cases "new_name n \<in> name ` set (stored_variables s)")
    case True
    then obtain v where "v \<in> set (stored_variables s)" "name v = new_name n" by auto
    from upsert_existing [OF Cons.prems(1) _ this] Cons.prems(2)
    have s: "store_ok name ?s"
      "stored_variables ?s = map (\<lambda>w. if name w = new_name n then assign w n else w) (stored_variables s)" by auto
    have names: "name ` set (stored_variables ?s) = name ` set (stored_variables s)"
      using arg_cong [OF names_assigned, of set n "stored_variables s"] unfolding s(2) set_map .
    have "upserted (stored_variables ?s) new = upserted (stored_variables s) (n # new)"
      unfolding upserted_def names using True rest by (simp add: s(2) comp_def name_assign)
    with Cons.IH [OF s(1)] Cons.prems(2,3) show ?thesis by simp
  next
    case False
    from upsert_fresh [OF Cons.prems(1) _ this] Cons.prems(2)
    have s: "store_ok name ?s" "stored_variables ?s = stored_variables s @ [fresh n]" by auto
    have "filter (\<lambda>m. new_name m \<noteq> new_name n \<and> P m) new = filter P new" for P
      using Cons.prems(3) by (intro filter_cong refl) (auto simp: image_iff)
    moreover have "map (\<lambda>v. case find (\<lambda>m. new_name m = name v) (n # new) of Some m \<Rightarrow> assign v m | None \<Rightarrow> v) (stored_variables s) =
        map (\<lambda>v. case find (\<lambda>m. new_name m = name v) new of Some m \<Rightarrow> assign v m | None \<Rightarrow> v) (stored_variables s)"
      using False by (intro map_cong) auto
    ultimately have "upserted (stored_variables ?s) new = upserted (stored_variables s) (n # new)"
      unfolding upserted_def s(2) using False rest by (simp add: name_fresh)
    with Cons.IH [OF s(1)] Cons.prems(2,3) show ?thesis by simp
  qed
qed (simp add: upserted_def)

lemma update_variables_result:
  assumes order: "\<And>keys. mset (order keys) = mset keys"
    and old: "distinct (map name old)" and new: "distinct (map new_name new)"
    and trimmed: "\<forall>n \<in> set new. TrimSpace (new_name n) = new_name n"
  shows "store_ok name (update_variables order name new_name assign fresh old new)"
    "stored_variables (update_variables order name new_name assign fresh old new) =
     upserted (filter (\<lambda>v. name v \<in> new_name ` set new) old) new"
proof -
  obtain xs ys zs where d: "DifferenceAndIntersectionObjects order old new name new_name = (xs, ys, zs)"
    "mset xs = mset_set (name ` set old - new_name ` set new)"
    using split_keys_sets [of order "map name old" "map new_name new"] order
    by (auto simp: DifferenceAndIntersectionObjects_def)
  have xs: "set xs = name ` set old - new_name ` set new"
    using arg_cong [OF d(2), of set_mset] by simp
  have "filter (\<lambda>v. name v \<notin> set xs) old = filter (\<lambda>v. name v \<in> new_name ` set new) old"
    by (intro filter_cong) (auto simp: xs)
  then have "store_ok name (prune_variables name (set xs) (copy_variables name old))"
    "stored_variables (prune_variables name (set xs) (copy_variables name old)) =
     filter (\<lambda>v. name v \<in> new_name ` set new) old"
    using prune_variables_ok [OF copy_variables_ok(1) [OF old], of "set xs"] copy_variables_ok(2) [OF old] by simp_all
  with upserts_ok [OF this(1) trimmed new]
  show "store_ok name (update_variables order name new_name assign fresh old new)"
    "stored_variables (update_variables order name new_name assign fresh old new) =
     upserted (filter (\<lambda>v. name v \<in> new_name ` set new) old) new"
    by (simp_all add: update_variables_def d(1))
qed

lemma set_upserted:
  assumes "distinct (map name vs)" "distinct (map new_name new)" "name ` set vs \<subseteq> new_name ` set new"
  shows "set (upserted vs new) =
    {assign v n | v n. v \<in> set vs \<and> n \<in> set new \<and> new_name n = name v} \<union>
    {fresh n | n. n \<in> set new \<and> new_name n \<notin> name ` set vs}"
proof -
  have "(case find (\<lambda>n. new_name n = name v) new of Some n \<Rightarrow> assign v n | None \<Rightarrow> v) = assign v m"
    if "v \<in> set vs" "m \<in> set new" "new_name m = name v" for v m
  proof (cases "find (\<lambda>n. new_name n = name v) new")
    case None
    then show ?thesis using that by (auto simp: find_None_iff)
  next
    case (Some n)
    then have "n \<in> set new" "new_name n = name v" by (auto simp: find_Some_iff)
    then have "n = m" using that assms(2) by (auto simp: distinct_map inj_on_def)
    with Some show ?thesis by simp
  qed
  note found = this
  have "(\<lambda>v. case find (\<lambda>n. new_name n = name v) new of Some n \<Rightarrow> assign v n | None \<Rightarrow> v) ` set vs =
      {assign v n | v n. v \<in> set vs \<and> n \<in> set new \<and> new_name n = name v}"
  proof (intro set_eqI iffI)
    fix w assume "w \<in> (\<lambda>v. case find (\<lambda>n. new_name n = name v) new of Some n \<Rightarrow> assign v n | None \<Rightarrow> v) ` set vs"
    then obtain v where v: "v \<in> set vs" "w = (case find (\<lambda>n. new_name n = name v) new of Some n \<Rightarrow> assign v n | None \<Rightarrow> v)"
      by auto
    obtain m where "m \<in> set new" "new_name m = name v" using assms(3) v(1) by force
    with found [OF v(1) this] v show "w \<in> {assign v n | v n. v \<in> set vs \<and> n \<in> set new \<and> new_name n = name v}" by auto
  next
    fix w assume "w \<in> {assign v n | v n. v \<in> set vs \<and> n \<in> set new \<and> new_name n = name v}"
    then obtain v n where "v \<in> set vs" "n \<in> set new" "new_name n = name v" "w = assign v n" by auto
    then show "w \<in> (\<lambda>v. case find (\<lambda>n. new_name n = name v) new of Some n \<Rightarrow> assign v n | None \<Rightarrow> v) ` set vs"
      using found [of v n] by force
  qed
  then show ?thesis by (auto simp: upserted_def)
qed

lemma stored_map_ok:
  "store_ok name s \<Longrightarrow> stored_map s k = Some v \<longleftrightarrow> v \<in> set (stored_variables s) \<and> name v = k"
  unfolding stored_map_def stored_variables_def store_ok_def by (auto; metis)

end

context variable_update begin

lemma names_upserted:
  "map name (upserted vs new) = map name vs @ map new_name (filter (\<lambda>n. new_name n \<notin> name ` set vs) new)"
proof -
  have "name (case find (\<lambda>n. new_name n = name v) new of Some n \<Rightarrow> assign v n | None \<Rightarrow> v) = name v" for v
  proof (cases "find (\<lambda>n. new_name n = name v) new")
    case (Some n)
    then have "new_name n = name v" by (auto simp: find_Some_iff)
    with Some show ?thesis by (simp add: name_assign)
  qed simp
  then show ?thesis by (simp add: upserted_def comp_def name_fresh)
qed

lemma upserted_matches:
  assumes old: "distinct (map name old)" and new: "distinct (map new_name new)"
  shows "mset (upserted (filter (\<lambda>v. name v \<in> new_name ` set new) old) new) =
    mset (map (\<lambda>n. case find (\<lambda>v. name v = new_name n) old of Some v \<Rightarrow> assign v n | None \<Rightarrow> fresh n) new)"
proof -
  let ?vs = "filter (\<lambda>v. name v \<in> new_name ` set new) old"
  let ?g = "\<lambda>n. case find (\<lambda>v. name v = new_name n) old of Some v \<Rightarrow> assign v n | None \<Rightarrow> fresh n"
  have names_g: "map name (map ?g new) = map new_name new"
    by (auto simp: name_assign name_fresh split: option.splits)
  have vs: "distinct (map name ?vs)" using old by (rule distinct_map_filter)
  have found: "?g n = assign v n" if "v \<in> set old" "name v = new_name n" for v n
  proof (cases "find (\<lambda>v. name v = new_name n) old")
    case None
    then show ?thesis using that by (auto simp: find_None_iff)
  next
    case (Some w)
    then have "w \<in> set old" "name w = new_name n" by (auto simp: find_Some_iff)
    then have "w = v" using that old by (auto simp: distinct_map inj_on_def)
    with Some show ?thesis by simp
  qed
  have missing: "?g n = fresh n" if "new_name n \<notin> name ` set old" for n
  proof -
    have "find (\<lambda>v. name v = new_name n) old = None" using that by (simp add: find_None_iff) (metis imageI)
    then show ?thesis by simp
  qed
  have in_vs: "new_name n \<in> name ` set ?vs \<longleftrightarrow> new_name n \<in> name ` set old" if "n \<in> set new" for n
  proof
    assume "new_name n \<in> name ` set old"
    then obtain v where "v \<in> set old" "new_name n = name v" by auto
    then have "v \<in> set ?vs" using that by force
    with \<open>new_name n = name v\<close> show "new_name n \<in> name ` set ?vs" by simp
  qed auto
  have "set (upserted ?vs new) = set (map ?g new)"
  proof (subst set_upserted [OF vs new], force, intro set_eqI iffI)
    fix w assume "w \<in> {assign v n | v n. v \<in> set ?vs \<and> n \<in> set new \<and> new_name n = name v} \<union>
        {fresh n | n. n \<in> set new \<and> new_name n \<notin> name ` set ?vs}"
    then consider v n where "v \<in> set old" "n \<in> set new" "new_name n = name v" "w = assign v n"
      | n where "n \<in> set new" "new_name n \<notin> name ` set ?vs" "w = fresh n" unfolding set_filter by blast
    then show "w \<in> set (map ?g new)"
    proof cases
      case 1
      then have "?g n = w" using found [of v n] by simp
      then show ?thesis using 1(2) by auto
    next
      case 2
      then have "?g n = w" using missing [of n] in_vs [of n] by simp
      then show ?thesis using 2(1) by auto
    qed
  next
    fix w assume "w \<in> set (map ?g new)"
    then obtain n where n: "n \<in> set new" "w = ?g n" by auto
    show "w \<in> {assign v n | v n. v \<in> set ?vs \<and> n \<in> set new \<and> new_name n = name v} \<union>
        {fresh n | n. n \<in> set new \<and> new_name n \<notin> name ` set ?vs}"
    proof (cases "new_name n \<in> name ` set old")
      case True
      then obtain v where v: "v \<in> set old" "new_name n = name v" by auto
      then have "v \<in> set ?vs" using n(1) by force
      then show ?thesis using found [OF v(1) v(2) [symmetric]] v n by blast
    next
      case False
      then show ?thesis using missing [OF False] in_vs [OF n(1)] n by blast
    qed
  qed
  moreover have "distinct (map name (map ?g new))" unfolding names_g by (rule new)
  then have "distinct (map ?g new)" unfolding distinct_map [of name] by (rule conjunct1)
  moreover have "distinct (upserted ?vs new)"
  proof -
    have "distinct (map name ?vs @ map new_name (filter (\<lambda>n. new_name n \<notin> name ` set ?vs) new))"
    proof -
      define ks where "ks = name ` set ?vs"
      have "distinct (map new_name (filter (\<lambda>n. new_name n \<notin> ks) new))" using new by (rule distinct_map_filter)
      moreover have "ks \<inter> new_name ` set (filter (\<lambda>n. new_name n \<notin> ks) new) = {}" by auto
      ultimately show ?thesis using vs unfolding distinct_append set_map ks_def [symmetric] by blast
    qed
    then show ?thesis unfolding names_upserted [symmetric] using distinct_map by blast
  qed
  ultimately show ?thesis using set_eq_iff_mset_eq_distinct by blast
qed
end

text \<open>An update that keeps the value of a variable and takes everything else from the request.\<close>

locale valued_update = variable_update name new_name assign fresh
  for name :: "'v \<Rightarrow> string" and new_name :: "'n \<Rightarrow> string" and assign :: "'v \<Rightarrow> 'n \<Rightarrow> 'v" and fresh :: "'n \<Rightarrow> 'v" +
  fixes val :: "'v \<Rightarrow> 'x" and set_val :: "'x \<Rightarrow> 'v \<Rightarrow> 'v"
  assumes assign_fresh: "assign v n = set_val (val v) (fresh n)"
begin

lemma update_matches:
  assumes "\<And>keys. mset (order keys) = mset keys" "distinct (map name old)" "distinct (map new_name new)"
    and "\<forall>n \<in> set new. TrimSpace (new_name n) = new_name n"
  shows "mset (stored_variables (update_variables order name new_name assign fresh old new)) =
    mset (map (\<lambda>v. case find (\<lambda>w. name w = name v) old of Some w \<Rightarrow> set_val (val w) v | None \<Rightarrow> v) (map fresh new))"
proof -
  have "(case find (\<lambda>v. name v = new_name n) old of Some v \<Rightarrow> assign v n | None \<Rightarrow> fresh n) =
      (case find (\<lambda>w. name w = name (fresh n)) old of Some w \<Rightarrow> set_val (val w) (fresh n) | None \<Rightarrow> fresh n)" for n
    by (simp add: assign_fresh name_fresh split: option.split)
  then show ?thesis
    using upserted_matches [OF assms(2,3)] update_variables_result(2) [OF assms] by (simp add: comp_def)
qed

lemma update_indexed:
  assumes "\<And>keys. mset (order keys) = mset keys" "distinct (map name old)" "distinct (map new_name new)"
    and "\<forall>n \<in> set new. TrimSpace (new_name n) = new_name n"
  shows "stored_map (update_variables order name new_name assign fresh old new) k = Some v \<longleftrightarrow>
    v \<in> set (stored_variables (update_variables order name new_name assign fresh old new)) \<and> name v = k"
  using stored_map_ok [OF update_variables_result(1) [OF assms]] .

end

end
