(* ===== verification/Constants.thy ===== *)
theory Constants
  imports GoPrelude
begin

text \<open>
  Model of \<^verbatim>\<open>pkg/runtime/constant\<close>: the enumerations of the device configuration (data types,
  memory layouts, access modes, stop bits, parity), the two lookup tables of each, and the
  JSON marshalling built on them. A JSON document is the value it denotes (\<open>json\<close>); what
  \<^verbatim>\<open>encoding/json\<close> does with a Go string is modelled by \<open>json_string\<close> and \<open>unmarshal_string\<close>.
\<close>

datatype json = JNull | JBool bool | JNumber int | JString string
  | JArray "json list" | JObject "(string \<times> json) list"

datatype enum_error = UnknownEnum int | UnknownName string | NotAString

definition json_string :: "string \<Rightarrow> json" where
  "json_string s = JString s"

text \<open>\<open>json.Unmarshal\<close> into a string: \<open>null\<close> leaves the empty string.\<close>

fun unmarshal_string :: "json \<Rightarrow> enum_error + string" where
  "unmarshal_string (JString s) = Inr s"
| "unmarshal_string JNull = Inr []"
| "unmarshal_string _ = Inl NotAString"

section \<open>AccessMode\<close>

datatype AccessMode = AccessModeReadOnly | AccessModeReadWrite

definition ReadWritePropertyToString :: "AccessMode \<Rightarrow> string option" where
  "ReadWritePropertyToString =
    [AccessModeReadOnly \<mapsto> ''r'',
     AccessModeReadWrite \<mapsto> ''rw'']"

definition StringToReadWriteProperty :: "string \<Rightarrow> AccessMode option" where
  "StringToReadWriteProperty =
    [''r'' \<mapsto> AccessModeReadOnly,
     ''rw'' \<mapsto> AccessModeReadWrite]"

definition AccessMode_code :: "AccessMode \<Rightarrow> int" where
  "AccessMode_code dt = (case dt of AccessModeReadOnly \<Rightarrow> 0 | AccessModeReadWrite \<Rightarrow> 1)"

definition AccessMode_MarshalJSON :: "AccessMode \<Rightarrow> enum_error + json" where
  "AccessMode_MarshalJSON dt =
     (case ReadWritePropertyToString dt of
        Some s \<Rightarrow> Inr (json_string s)
      | None \<Rightarrow> Inl (UnknownEnum (AccessMode_code dt)))"

definition AccessMode_UnmarshalJSON :: "json \<Rightarrow> enum_error + AccessMode" where
  "AccessMode_UnmarshalJSON bytes =
     (case unmarshal_string bytes of
        Inl err \<Rightarrow> Inl err
      | Inr s \<Rightarrow>
          (case StringToReadWriteProperty s of
             None \<Rightarrow> Inl (UnknownName s)
           | Some v \<Rightarrow> Inr v))"

section \<open>DataType\<close>

datatype DataType = BOOL | INT16 | FLOAT32 | FLOAT64 | INT32 | INT64 | UINT16 | NUMBER | STRING

definition DataType_code :: "DataType \<Rightarrow> int" where
  "DataType_code dt =
     (case dt of BOOL \<Rightarrow> 0 | INT16 \<Rightarrow> 1 | FLOAT32 \<Rightarrow> 2 | FLOAT64 \<Rightarrow> 3 | INT32 \<Rightarrow> 4
      | INT64 \<Rightarrow> 5 | UINT16 \<Rightarrow> 6 | NUMBER \<Rightarrow> 7 | STRING \<Rightarrow> 8)"

definition DataTypeToString :: "DataType \<Rightarrow> string option" where
  "DataTypeToString =
    [BOOL \<mapsto> ''bool'',
     INT16 \<mapsto> ''int16'',
     FLOAT32 \<mapsto> ''float32'',
     FLOAT64 \<mapsto> ''float64'',
     INT32 \<mapsto> ''int32'',
     INT64 \<mapsto> ''int64'',
     UINT16 \<mapsto> ''uint16'',
     NUMBER \<mapsto> ''number'',
     STRING \<mapsto> ''string'']"

definition StringToDataType :: "string \<Rightarrow> DataType option" where
  "StringToDataType =
    [''bool'' \<mapsto> BOOL,
     ''int16'' \<mapsto> INT16,
     ''float32'' \<mapsto> FLOAT32,
     ''float64'' \<mapsto> FLOAT64,
     ''int32'' \<mapsto> INT32,
     ''int64'' \<mapsto> INT64,
     ''uint16'' \<mapsto> UINT16,
     ''number'' \<mapsto> NUMBER,
     ''string'' \<mapsto> STRING]"

text \<open>\<open>StringToDataType[s]\<close> used as an expression gives the zero value for a missing key.\<close>

definition StringToDataType_or_zero :: "string \<Rightarrow> DataType" where
  "StringToDataType_or_zero s = (case StringToDataType s of Some v \<Rightarrow> v | None \<Rightarrow> BOOL)"

text \<open>The registers a value occupies; every data type has an entry.\<close>

fun DataTypeWord :: "DataType \<Rightarrow> uint" where
  "DataTypeWord BOOL = 1"
| "DataTypeWord INT16 = 1"
| "DataTypeWord FLOAT32 = 2"
| "DataTypeWord FLOAT64 = 4"
| "DataTypeWord INT32 = 2"
| "DataTypeWord INT64 = 4"
| "DataTypeWord UINT16 = 1"
| "DataTypeWord NUMBER = 1"
| "DataTypeWord STRING = 1"

definition DataType_MarshalJSON :: "DataType \<Rightarrow> enum_error + json" where
  "DataType_MarshalJSON dt =
     (case DataTypeToString dt of
        Some s \<Rightarrow> Inr (json_string s)
      | None \<Rightarrow> Inl (UnknownEnum (DataType_code dt)))"

definition DataType_UnmarshalJSON :: "json \<Rightarrow> enum_error + DataType" where
  "DataType_UnmarshalJSON bytes =
     (case unmarshal_string bytes of
        Inl err \<Rightarrow> Inl err
      | Inr s \<Rightarrow>
          (case StringToDataType s of
             None \<Rightarrow> Inl (UnknownName s)
           | Some v \<Rightarrow> Inr v))"

section \<open>MemoryLayout\<close>

datatype MemoryLayout = DCBA | CDAB | BADC | ABCD

definition MemoryLayout_code :: "MemoryLayout \<Rightarrow> int" where
  "MemoryLayout_code ml = (case ml of DCBA \<Rightarrow> 0 | CDAB \<Rightarrow> 1 | BADC \<Rightarrow> 2 | ABCD \<Rightarrow> 3)"

definition MemoryLayoutToString :: "MemoryLayout \<Rightarrow> string option" where
  "MemoryLayoutToString =
    [DCBA \<mapsto> ''DCBA'',
     CDAB \<mapsto> ''CDAB'',
     BADC \<mapsto> ''BADC'',
     ABCD \<mapsto> ''ABCD'']"

definition StringToMemoryLayout :: "string \<Rightarrow> MemoryLayout option" where
  "StringToMemoryLayout =
    [''DCBA'' \<mapsto> DCBA,
     ''CDAB'' \<mapsto> CDAB,
     ''BADC'' \<mapsto> BADC,
     ''ABCD'' \<mapsto> ABCD]"

definition StringToMemoryLayout_or_zero :: "string \<Rightarrow> MemoryLayout" where
  "StringToMemoryLayout_or_zero s = (case StringToMemoryLayout s of Some v \<Rightarrow> v | None \<Rightarrow> DCBA)"

definition MemoryLayout_MarshalJSON :: "MemoryLayout \<Rightarrow> enum_error + json" where
  "MemoryLayout_MarshalJSON ml =
     (case MemoryLayoutToString ml of
        Some s \<Rightarrow> Inr (json_string s)
      | None \<Rightarrow> Inl (UnknownEnum (MemoryLayout_code ml)))"

definition MemoryLayout_UnmarshalJSON :: "json \<Rightarrow> enum_error + MemoryLayout" where
  "MemoryLayout_UnmarshalJSON bytes =
     (case unmarshal_string bytes of
        Inl err \<Rightarrow> Inl err
      | Inr s \<Rightarrow>
          (case StringToMemoryLayout s of
             None \<Rightarrow> Inl (UnknownName s)
           | Some v \<Rightarrow> Inr v))"

section \<open>Serial line options\<close>

datatype StopBits = OneStopBit | OnePointFiveStopBits | TwoStopBits

definition StopBitsToString :: "StopBits \<Rightarrow> string option" where
  "StopBitsToString =
    [OneStopBit \<mapsto> ''1'',
     OnePointFiveStopBits \<mapsto> ''1.5'',
     TwoStopBits \<mapsto> ''2'']"

definition StringToStopBits :: "string \<Rightarrow> StopBits option" where
  "StringToStopBits =
    [''1'' \<mapsto> OneStopBit,
     ''1.5'' \<mapsto> OnePointFiveStopBits,
     ''2'' \<mapsto> TwoStopBits]"

definition StringToStopBits_or_zero :: "string \<Rightarrow> StopBits" where
  "StringToStopBits_or_zero s = (case StringToStopBits s of Some v \<Rightarrow> v | None \<Rightarrow> OneStopBit)"

datatype Parity = NoParity | OddParity | EvenParity | MarkParity | SpaceParity

definition ParityToString :: "Parity \<Rightarrow> string option" where
  "ParityToString =
    [NoParity \<mapsto> ''noParity'',
     OddParity \<mapsto> ''oddParity'',
     EvenParity \<mapsto> ''evenParity'',
     MarkParity \<mapsto> ''markParity'',
     SpaceParity \<mapsto> ''spaceParity'']"

definition StringToParity :: "string \<Rightarrow> Parity option" where
  "StringToParity =
    [''noParity'' \<mapsto> NoParity,
     ''oddParity'' \<mapsto> OddParity,
     ''evenParity'' \<mapsto> EvenParity,
     ''markParity'' \<mapsto> MarkParity,
     ''spaceParity'' \<mapsto> SpaceParity]"

definition StringToParity_or_zero :: "string \<Rightarrow> Parity" where
  "StringToParity_or_zero s = (case StringToParity s of Some v \<Rightarrow> v | None \<Rightarrow> NoParity)"

section \<open>A pair of lookup tables that are inverse to each other\<close>

locale enum_names =
  fixes to_str :: "'e \<Rightarrow> string option"
    and of_str :: "string \<Rightarrow> 'e option"
  assumes total: "\<exists>s. to_str v = Some s"
    and inverse: "of_str s = Some v \<longleftrightarrow> to_str v = Some s"
begin

lemma name_of: "to_str v = Some s \<Longrightarrow> of_str s = Some v"
  by (simp add: inverse)

lemma names_distinct: "to_str v = to_str w \<Longrightarrow> v = w"
  using total [of v] by (metis inverse option.inject)

lemma has_name: "to_str v \<noteq> None"
  using total [of v] by auto

lemma marshalled:
  "(case to_str v of Some s \<Rightarrow> Inr (json_string s) | None \<Rightarrow> e) = Inr j \<longleftrightarrow>
   (\<exists>s. j = JString s \<and> of_str s = Some v)"
  using total [of v] by (auto simp: json_string_def inverse)

lemma unmarshalled:
  "(case unmarshal_string j of
      Inl err \<Rightarrow> Inl err
    | Inr s \<Rightarrow> (case of_str s of None \<Rightarrow> Inl (UnknownName s) | Some v \<Rightarrow> Inr v)) = Inr v \<longleftrightarrow>
   (\<exists>s. unmarshal_string j = Inr s \<and> of_str s = Some v)"
  by (auto split: sum.splits option.splits)

lemma json_roundtrip:
  assumes "of_str [] = None"
  shows "(case to_str v of Some s \<Rightarrow> Inr (json_string s) | None \<Rightarrow> Inl e) = Inr j \<longleftrightarrow>
    (case unmarshal_string j of
      Inl err \<Rightarrow> Inl err
    | Inr s \<Rightarrow> (case of_str s of None \<Rightarrow> Inl (UnknownName s) | Some v \<Rightarrow> Inr v)) = Inr v"
  unfolding marshalled unmarshalled using assms by (cases j) auto

end

text \<open>A step of the lookup in an explicit table.\<close>

lemma fun_upd_eq_Some_iff:
  "(m(k \<mapsto> v)) x = Some w \<longleftrightarrow> (x = k \<and> v = w) \<or> (x \<noteq> k \<and> m x = Some w)"
  by auto

interpretation access_names: enum_names ReadWritePropertyToString StringToReadWriteProperty
proof
  show "\<exists>s. ReadWritePropertyToString v = Some s" for v
    by (cases v) (simp_all add: ReadWritePropertyToString_def)
  show "StringToReadWriteProperty s = Some v \<longleftrightarrow> ReadWritePropertyToString v = Some s" for s v
    by (cases v)
       (auto simp: StringToReadWriteProperty_def ReadWritePropertyToString_def fun_upd_eq_Some_iff)
qed

interpretation datatype_names: enum_names DataTypeToString StringToDataType
proof
  show "\<exists>s. DataTypeToString v = Some s" for v
    by (cases v) (simp_all add: DataTypeToString_def)
  show "StringToDataType s = Some v \<longleftrightarrow> DataTypeToString v = Some s" for s v
    by (cases v) (auto simp: StringToDataType_def DataTypeToString_def fun_upd_eq_Some_iff)
qed

interpretation layout_names: enum_names MemoryLayoutToString StringToMemoryLayout
proof
  show "\<exists>s. MemoryLayoutToString v = Some s" for v
    by (cases v) (simp_all add: MemoryLayoutToString_def)
  show "StringToMemoryLayout s = Some v \<longleftrightarrow> MemoryLayoutToString v = Some s" for s v
    by (cases v) (auto simp: StringToMemoryLayout_def MemoryLayoutToString_def fun_upd_eq_Some_iff)
qed

interpretation stopbits_names: enum_names StopBitsToString StringToStopBits
proof
  show "\<exists>s. StopBitsToString v = Some s" for v
    by (cases v) (simp_all add: StopBitsToString_def)
  show "StringToStopBits s = Some v \<longleftrightarrow> StopBitsToString v = Some s" for s v
    by (cases v) (auto simp: StringToStopBits_def StopBitsToString_def fun_upd_eq_Some_iff)
qed

interpretation parity_names: enum_names ParityToString StringToParity
proof
  show "\<exists>s. ParityToString v = Some s" for v
    by (cases v) (simp_all add: ParityToString_def)
  show "StringToParity s = Some v \<longleftrightarrow> ParityToString v = Some s" for s v
    by (cases v) (auto simp: StringToParity_def ParityToString_def fun_upd_eq_Some_iff)
qed

text \<open>Marshalling a configuration enumeration and unmarshalling the result gives the value
  back, and a document unmarshals to a value only if it is that value's own document.\<close>

theorem enum_json_roundtrip:
  "(AccessMode_MarshalJSON a = Inr j \<longleftrightarrow> AccessMode_UnmarshalJSON j = Inr a) \<and>
   (DataType_MarshalJSON d = Inr j \<longleftrightarrow> DataType_UnmarshalJSON j = Inr d) \<and>
   (MemoryLayout_MarshalJSON m = Inr j \<longleftrightarrow> MemoryLayout_UnmarshalJSON j = Inr m)"
  unfolding AccessMode_MarshalJSON_def AccessMode_UnmarshalJSON_def DataType_MarshalJSON_def
    DataType_UnmarshalJSON_def MemoryLayout_MarshalJSON_def MemoryLayout_UnmarshalJSON_def
  by (intro conjI access_names.json_roundtrip datatype_names.json_roundtrip
      layout_names.json_roundtrip)
     (simp_all add: StringToReadWriteProperty_def StringToDataType_def StringToMemoryLayout_def)

end
