(* ===== verification/BinUtil.thy ===== *)
theory BinUtil
  imports GoPrelude
begin

text \<open>
  Model of \<^verbatim>\<open>pkg/utils/binutil/bytes.go\<close>: reading and writing unsigned integers and floats
  in the four register layouts (big endian, little endian and both with the bytes of each
  16-bit register swapped), and packing of boolean bytes into bits. Readers panic (\<open>None\<close>) on
  a slice that is too short; writers return the updated slice. The encoders and decoders of
  one layout meet the contract of locale \<open>fixed_codec\<close>, from which the client facts follow.
\<close>

section \<open>Reading integers\<close>

definition ParseUint64 :: "byte list \<Rightarrow> u64 option" where
  "ParseUint64 b = need 8 b
       (push_bit 56 (ucast (b ! 0))
        OR push_bit 48 (ucast (b ! 1))
        OR push_bit 40 (ucast (b ! 2))
        OR push_bit 32 (ucast (b ! 3))
        OR push_bit 24 (ucast (b ! 4))
        OR push_bit 16 (ucast (b ! 5))
        OR push_bit 8 (ucast (b ! 6))
        OR ucast (b ! 7))"

definition ParseUint64BigEndian :: "byte list \<Rightarrow> u64 option" where
  "ParseUint64BigEndian b = need 8 b
       (push_bit 56 (ucast (b ! 0))
        OR push_bit 48 (ucast (b ! 1))
        OR push_bit 40 (ucast (b ! 2))
        OR push_bit 32 (ucast (b ! 3))
        OR push_bit 24 (ucast (b ! 4))
        OR push_bit 16 (ucast (b ! 5))
        OR push_bit 8 (ucast (b ! 6))
        OR ucast (b ! 7))"

definition ParseUint64BigEndianByteSwap :: "byte list \<Rightarrow> u64 option" where
  "ParseUint64BigEndianByteSwap b = need 8 b
       (push_bit 56 (ucast (b ! 1))
        OR push_bit 48 (ucast (b ! 0))
        OR push_bit 40 (ucast (b ! 3))
        OR push_bit 32 (ucast (b ! 2))
        OR push_bit 24 (ucast (b ! 5))
        OR push_bit 16 (ucast (b ! 4))
        OR push_bit 8 (ucast (b ! 7))
        OR ucast (b ! 6))"

definition ParseUint64LittleEndian :: "byte list \<Rightarrow> u64 option" where
  "ParseUint64LittleEndian b = need 8 b
       (push_bit 56 (ucast (b ! 7))
        OR push_bit 48 (ucast (b ! 6))
        OR push_bit 40 (ucast (b ! 5))
        OR push_bit 32 (ucast (b ! 4))
        OR push_bit 24 (ucast (b ! 3))
        OR push_bit 16 (ucast (b ! 2))
        OR push_bit 8 (ucast (b ! 1))
        OR ucast (b ! 0))"

definition ParseUint64LittleEndianByteSwap :: "byte list \<Rightarrow> u64 option" where
  "ParseUint64LittleEndianByteSwap b = need 8 b
       (push_bit 56 (ucast (b ! 6))
        OR push_bit 48 (ucast (b ! 7))
        OR push_bit 40 (ucast (b ! 4))
        OR push_bit 32 (ucast (b ! 5))
        OR push_bit 24 (ucast (b ! 2))
        OR push_bit 16 (ucast (b ! 3))
        OR push_bit 8 (ucast (b ! 0))
        OR ucast (b ! 1))"

definition ParseUint32 :: "byte list \<Rightarrow> u32 option" where
  "ParseUint32 b = need 4 b
       (push_bit 24 (ucast (b ! 0))
        + push_bit 16 (ucast (b ! 1))
        + push_bit 8 (ucast (b ! 2))
        + ucast (b ! 3))"

definition ParseUint32BigEndian :: "byte list \<Rightarrow> u32 option" where
  "ParseUint32BigEndian b = need 4 b
       (push_bit 24 (ucast (b ! 0))
        + push_bit 16 (ucast (b ! 1))
        + push_bit 8 (ucast (b ! 2))
        + ucast (b ! 3))"

definition ParseUint32BigEndianByteSwap :: "byte list \<Rightarrow> u32 option" where
  "ParseUint32BigEndianByteSwap b = need 4 b
       (push_bit 24 (ucast (b ! 1))
        + push_bit 16 (ucast (b ! 0))
        + push_bit 8 (ucast (b ! 3))
        + ucast (b ! 2))"

definition ParseUint32LittleEndian :: "byte list \<Rightarrow> u32 option" where
  "ParseUint32LittleEndian b = need 4 b
       (push_bit 24 (ucast (b ! 3))
        + push_bit 16 (ucast (b ! 2))
        + push_bit 8 (ucast (b ! 1))
        + ucast (b ! 0))"

definition ParseUint32LittleEndianByteSwap :: "byte list \<Rightarrow> u32 option" where
  "ParseUint32LittleEndianByteSwap b = need 4 b
       (push_bit 24 (ucast (b ! 2))
        + push_bit 16 (ucast (b ! 3))
        + push_bit 8 (ucast (b ! 0))
        + ucast (b ! 1))"

definition ParseUint16 :: "byte list \<Rightarrow> u16 option" where
  "ParseUint16 b = need 2 b
       (push_bit 8 (ucast (b ! 0))
        + ucast (b ! 1))"

definition ParseUint16BigEndian :: "byte list \<Rightarrow> u16 option" where
  "ParseUint16BigEndian b = need 2 b
       (push_bit 8 (ucast (b ! 0))
        + ucast (b ! 1))"

definition ParseUint16LittleEndian :: "byte list \<Rightarrow> u16 option" where
  "ParseUint16LittleEndian b = need 2 b
       (push_bit 8 (ucast (b ! 1))
        + ucast (b ! 0))"

section \<open>Writing integers into fresh slices\<close>

definition Uint32ToBytesBigEndian :: "u32 \<Rightarrow> byte list" where
  "Uint32ToBytesBigEndian v =
     [0, 0, 0, 0]
      [0 := ucast (drop_bit 24 v),
       1 := ucast (drop_bit 16 v),
       2 := ucast (drop_bit 8 v),
       3 := ucast v]"

definition Uint32ToBytesBigEndianByteSwap :: "u32 \<Rightarrow> byte list" where
  "Uint32ToBytesBigEndianByteSwap v =
     [0, 0, 0, 0]
      [1 := ucast (drop_bit 24 v),
       0 := ucast (drop_bit 16 v),
       3 := ucast (drop_bit 8 v),
       2 := ucast v]"

definition Uint32ToBytesLittleEndian :: "u32 \<Rightarrow> byte list" where
  "Uint32ToBytesLittleEndian v =
     [0, 0, 0, 0]
      [3 := ucast (drop_bit 24 v),
       2 := ucast (drop_bit 16 v),
       1 := ucast (drop_bit 8 v),
       0 := ucast v]"

definition Uint32ToBytesLittleEndianByteSwap :: "u32 \<Rightarrow> byte list" where
  "Uint32ToBytesLittleEndianByteSwap v =
     [0, 0, 0, 0]
      [2 := ucast (drop_bit 24 v),
       3 := ucast (drop_bit 16 v),
       0 := ucast (drop_bit 8 v),
       1 := ucast v]"

definition Uint64ToBytesBigEndian :: "u64 \<Rightarrow> byte list" where
  "Uint64ToBytesBigEndian v =
     [0, 0, 0, 0, 0, 0, 0, 0]
      [0 := ucast (drop_bit 56 v),
       1 := ucast (drop_bit 48 v),
       2 := ucast (drop_bit 40 v),
       3 := ucast (drop_bit 32 v),
       4 := ucast (drop_bit 24 v),
       5 := ucast (drop_bit 16 v),
       6 := ucast (drop_bit 8 v),
       7 := ucast v]"

definition Uint64ToBytesBigEndianByteSwap :: "u64 \<Rightarrow> byte list" where
  "Uint64ToBytesBigEndianByteSwap v =
     [0, 0, 0, 0, 0, 0, 0, 0]
      [1 := ucast (drop_bit 56 v),
       0 := ucast (drop_bit 48 v),
       3 := ucast (drop_bit 40 v),
       2 := ucast (drop_bit 32 v),
       5 := ucast (drop_bit 24 v),
       4 := ucast (drop_bit 16 v),
       7 := ucast (drop_bit 8 v),
       6 := ucast v]"

definition Uint64ToBytesLittleEndian :: "u64 \<Rightarrow> byte list" where
  "Uint64ToBytesLittleEndian v =
     [0, 0, 0, 0, 0, 0, 0, 0]
      [7 := ucast (drop_bit 56 v),
       6 := ucast (drop_bit 48 v),
       5 := ucast (drop_bit 40 v),
       4 := ucast (drop_bit 32 v),
       3 := ucast (drop_bit 24 v),
       2 := ucast (drop_bit 16 v),
       1 := ucast (drop_bit 8 v),
       0 := ucast v]"

definition Uint64ToBytesLittleEndianByteSwap :: "u64 \<Rightarrow> byte list" where
  "Uint64ToBytesLittleEndianByteSwap v =
     [0, 0, 0, 0, 0, 0, 0, 0]
      [6 := ucast (drop_bit 56 v),
       7 := ucast (drop_bit 48 v),
       4 := ucast (drop_bit 40 v),
       5 := ucast (drop_bit 32 v),
       2 := ucast (drop_bit 24 v),
       3 := ucast (drop_bit 16 v),
       0 := ucast (drop_bit 8 v),
       1 := ucast v]"

definition Uint16ToBytesBigEndian :: "u16 \<Rightarrow> byte list" where
  "Uint16ToBytesBigEndian v =
     [0, 0]
      [0 := ucast (drop_bit 8 v),
       1 := ucast v]"

definition Uint16ToBytesLittleEndian :: "u16 \<Rightarrow> byte list" where
  "Uint16ToBytesLittleEndian v =
     [0, 0]
      [1 := ucast (drop_bit 8 v),
       0 := ucast v]"

section \<open>Writing integers in place\<close>

definition WriteUint64BigEndian :: "byte list \<Rightarrow> u64 \<Rightarrow> byte list option" where
  "WriteUint64BigEndian buf v = need 8 buf
     (buf [0 := ucast (drop_bit 56 v),
            1 := ucast (drop_bit 48 v),
            2 := ucast (drop_bit 40 v),
            3 := ucast (drop_bit 32 v),
            4 := ucast (drop_bit 24 v),
            5 := ucast (drop_bit 16 v),
            6 := ucast (drop_bit 8 v),
            7 := ucast v])"

definition WriteUint64BigEndianByteSwap :: "byte list \<Rightarrow> u64 \<Rightarrow> byte list option" where
  "WriteUint64BigEndianByteSwap buf v = need 8 buf
     (buf [1 := ucast (drop_bit 56 v),
            0 := ucast (drop_bit 48 v),
            3 := ucast (drop_bit 40 v),
            2 := ucast (drop_bit 32 v),
            5 := ucast (drop_bit 24 v),
            4 := ucast (drop_bit 16 v),
            7 := ucast (drop_bit 8 v),
            6 := ucast v])"

definition WriteUint64LittleEndian :: "byte list \<Rightarrow> u64 \<Rightarrow> byte list option" where
  "WriteUint64LittleEndian buf v = need 8 buf
     (buf [7 := ucast (drop_bit 56 v),
            6 := ucast (drop_bit 48 v),
            5 := ucast (drop_bit 40 v),
            4 := ucast (drop_bit 32 v),
            3 := ucast (drop_bit 24 v),
            2 := ucast (drop_bit 16 v),
            1 := ucast (drop_bit 8 v),
            0 := ucast v])"

definition WriteUint64LittleEndianByteSwap :: "byte list \<Rightarrow> u64 \<Rightarrow> byte list option" where
  "WriteUint64LittleEndianByteSwap buf v = need 8 buf
     (buf [6 := ucast (drop_bit 56 v),
            7 := ucast (drop_bit 48 v),
            4 := ucast (drop_bit 40 v),
            5 := ucast (drop_bit 32 v),
            2 := ucast (drop_bit 24 v),
            3 := ucast (drop_bit 16 v),
            0 := ucast (drop_bit 8 v),
            1 := ucast v])"

definition WriteUint32BigEndian :: "byte list \<Rightarrow> u32 \<Rightarrow> byte list option" where
  "WriteUint32BigEndian buf v = need 4 buf
     (buf [0 := ucast (drop_bit 24 v),
            1 := ucast (drop_bit 16 v),
            2 := ucast (drop_bit 8 v),
            3 := ucast v])"

definition WriteUint32BigEndianByteSwap :: "byte list \<Rightarrow> u32 \<Rightarrow> byte list option" where
  "WriteUint32BigEndianByteSwap buf v = need 4 buf
     (buf [1 := ucast (drop_bit 24 v),
            0 := ucast (drop_bit 16 v),
            3 := ucast (drop_bit 8 v),
            2 := ucast v])"

definition WriteUint32LittleEndian :: "byte list \<Rightarrow> u32 \<Rightarrow> byte list option" where
  "WriteUint32LittleEndian buf v = need 4 buf
     (buf [3 := ucast (drop_bit 24 v),
            2 := ucast (drop_bit 16 v),
            1 := ucast (drop_bit 8 v),
            0 := ucast v])"

definition WriteUint32LittleEndianByteSwap :: "byte list \<Rightarrow> u32 \<Rightarrow> byte list option" where
  "WriteUint32LittleEndianByteSwap buf v = need 4 buf
     (buf [2 := ucast (drop_bit 24 v),
            3 := ucast (drop_bit 16 v),
            0 := ucast (drop_bit 8 v),
            1 := ucast v])"

definition WriteUint24BigEndian :: "byte list \<Rightarrow> u32 \<Rightarrow> byte list option" where
  "WriteUint24BigEndian buf v = need 3 buf
     (buf [0 := ucast (drop_bit 16 v),
            1 := ucast (drop_bit 8 v),
            2 := ucast v])"

definition WriteUint24LittleEndian :: "byte list \<Rightarrow> u32 \<Rightarrow> byte list option" where
  "WriteUint24LittleEndian buf v = need 3 buf
     (buf [2 := ucast (drop_bit 16 v),
            1 := ucast (drop_bit 8 v),
            0 := ucast v])"

definition WriteUint16BigEndian :: "byte list \<Rightarrow> u16 \<Rightarrow> byte list option" where
  "WriteUint16BigEndian buf v = need 2 buf
     (buf [0 := ucast (drop_bit 8 v),
            1 := ucast v])"

definition WriteUint16LittleEndian :: "byte list \<Rightarrow> u16 \<Rightarrow> byte list option" where
  "WriteUint16LittleEndian buf v = need 2 buf
     (buf [1 := ucast (drop_bit 8 v),
            0 := ucast v])"

section \<open>Floats\<close>

text \<open>
  A Go float is its IEEE 754 bit pattern, so \<^verbatim>\<open>math.Float32bits\<close> and
  \<^verbatim>\<open>math.Float32frombits\<close> are the selector and the constructor.
\<close>

datatype f32 = F32 (f32_bits: u32)

datatype f64 = F64 (f64_bits: u64)

definition ParseFloat32 :: "byte list \<Rightarrow> f32 option" where
  "ParseFloat32 buf = map_option F32 (ParseUint32 buf)"

definition ParseFloat32BigEndian :: "byte list \<Rightarrow> f32 option" where
  "ParseFloat32BigEndian buf = map_option F32 (ParseUint32BigEndian buf)"

definition ParseFloat32BigEndianByteSwap :: "byte list \<Rightarrow> f32 option" where
  "ParseFloat32BigEndianByteSwap buf = map_option F32 (ParseUint32BigEndianByteSwap buf)"

definition ParseFloat32LittleEndian :: "byte list \<Rightarrow> f32 option" where
  "ParseFloat32LittleEndian buf = map_option F32 (ParseUint32LittleEndian buf)"

definition ParseFloat32LittleEndianByteSwap :: "byte list \<Rightarrow> f32 option" where
  "ParseFloat32LittleEndianByteSwap buf = map_option F32 (ParseUint32LittleEndianByteSwap buf)"

definition ParseFloat64BigEndian :: "byte list \<Rightarrow> f64 option" where
  "ParseFloat64BigEndian buf = map_option F64 (ParseUint64BigEndian buf)"

definition ParseFloat64BigEndianByteSwap :: "byte list \<Rightarrow> f64 option" where
  "ParseFloat64BigEndianByteSwap buf = map_option F64 (ParseUint64BigEndianByteSwap buf)"

definition ParseFloat64LittleEndian :: "byte list \<Rightarrow> f64 option" where
  "ParseFloat64LittleEndian buf = map_option F64 (ParseUint64LittleEndian buf)"

definition ParseFloat64LittleEndianByteSwap :: "byte list \<Rightarrow> f64 option" where
  "ParseFloat64LittleEndianByteSwap buf = map_option F64 (ParseUint64LittleEndianByteSwap buf)"

definition Float32ToBytesBigEndian :: "f32 \<Rightarrow> byte list" where
  "Float32ToBytesBigEndian value = Uint32ToBytesBigEndian (f32_bits value)"

definition Float32ToBytesBigEndianByteSwap :: "f32 \<Rightarrow> byte list" where
  "Float32ToBytesBigEndianByteSwap value = Uint32ToBytesBigEndianByteSwap (f32_bits value)"

definition Float32ToBytesLittleEndian :: "f32 \<Rightarrow> byte list" where
  "Float32ToBytesLittleEndian value = Uint32ToBytesLittleEndian (f32_bits value)"

definition Float32ToBytesLittleEndianByteSwap :: "f32 \<Rightarrow> byte list" where
  "Float32ToBytesLittleEndianByteSwap value = Uint32ToBytesLittleEndianByteSwap (f32_bits value)"

definition Float64ToBytesBigEndian :: "f64 \<Rightarrow> byte list" where
  "Float64ToBytesBigEndian value = Uint64ToBytesBigEndian (f64_bits value)"

definition Float64ToBytesBigEndianByteSwap :: "f64 \<Rightarrow> byte list" where
  "Float64ToBytesBigEndianByteSwap value = Uint64ToBytesBigEndianByteSwap (f64_bits value)"

definition Float64ToBytesLittleEndian :: "f64 \<Rightarrow> byte list" where
  "Float64ToBytesLittleEndian value = Uint64ToBytesLittleEndian (f64_bits value)"

definition Float64ToBytesLittleEndianByteSwap :: "f64 \<Rightarrow> byte list" where
  "Float64ToBytesLittleEndianByteSwap value = Uint64ToBytesLittleEndianByteSwap (f64_bits value)"

definition WriteFloat32BigEndian :: "byte list \<Rightarrow> f32 \<Rightarrow> byte list option" where
  "WriteFloat32BigEndian buf value = WriteUint32BigEndian buf (f32_bits value)"

definition WriteFloat32BigEndianByteSwap :: "byte list \<Rightarrow> f32 \<Rightarrow> byte list option" where
  "WriteFloat32BigEndianByteSwap buf value = WriteUint32BigEndianByteSwap buf (f32_bits value)"

definition WriteFloat32LittleEndian :: "byte list \<Rightarrow> f32 \<Rightarrow> byte list option" where
  "WriteFloat32LittleEndian buf value = WriteUint32LittleEndian buf (f32_bits value)"

definition WriteFloat32LittleEndianByteSwap :: "byte list \<Rightarrow> f32 \<Rightarrow> byte list option" where
  "WriteFloat32LittleEndianByteSwap buf value = WriteUint32LittleEndianByteSwap buf (f32_bits value)"

definition WriteFloat64BigEndian :: "byte list \<Rightarrow> f64 \<Rightarrow> byte list option" where
  "WriteFloat64BigEndian buf value = WriteUint64BigEndian buf (f64_bits value)"

definition WriteFloat64BigEndianByteSwap :: "byte list \<Rightarrow> f64 \<Rightarrow> byte list option" where
  "WriteFloat64BigEndianByteSwap buf value = WriteUint64BigEndianByteSwap buf (f64_bits value)"

definition WriteFloat64LittleEndian :: "byte list \<Rightarrow> f64 \<Rightarrow> byte list option" where
  "WriteFloat64LittleEndian buf value = WriteUint64LittleEndian buf (f64_bits value)"

definition WriteFloat64LittleEndianByteSwap :: "byte list \<Rightarrow> f64 \<Rightarrow> byte list option" where
  "WriteFloat64LittleEndianByteSwap buf value = WriteUint64LittleEndianByteSwap buf (f64_bits value)"

section \<open>Boolean bytes\<close>

definition BoolToAscii :: "byte list \<Rightarrow> byte list" where
  "BoolToAscii buf = map (\<lambda>x. if x = 0 then 48 else 49) buf"

definition AsciiToBool :: "byte list \<Rightarrow> byte list" where
  "AsciiToBool buf = map (\<lambda>x. if x = 48 then 0 else 1) buf"

definition Dup :: "byte list \<Rightarrow> byte list" where
  "Dup buf = buf"

definition BoolToByte :: "bool list \<Rightarrow> byte list" where
  "BoolToByte buf = map (\<lambda>v. if v then 1 else 0) buf"

definition ByteToBool :: "byte list \<Rightarrow> bool list" where
  "ByteToBool buf = map (\<lambda>v. 0 < v) buf"

text \<open>
  \<open>ShrinkBool\<close> packs eight boolean bytes into one byte, least significant bit first; the loop
  body adds \<open>1 << (i & 7)\<close> to \<open>b[i >> 3]\<close>. \<open>ExpandBool\<close> is the inverse on the first
  \<open>count\<close> bytes; a negative count makes \<^verbatim>\<open>make\<close> panic.
\<close>

fun ShrinkBool_loop :: "byte list \<Rightarrow> nat \<Rightarrow> byte list \<Rightarrow> byte list" where
  "ShrinkBool_loop [] i b = b"
| "ShrinkBool_loop (x # xs) i b =
     ShrinkBool_loop xs (Suc i)
       (if 0 < x then b[i div 8 := b ! (i div 8) + push_bit (i mod 8) 1] else b)"

definition ShrinkBool :: "byte list \<Rightarrow> byte list" where
  "ShrinkBool buf =
     (let len = length buf; ln = len div 8 + (if 0 < len mod 8 then 1 else 0)
      in ShrinkBool_loop buf 0 (replicate ln 0))"

definition ExpandBool :: "byte list \<Rightarrow> int \<Rightarrow> byte list option" where
  "ExpandBool buf cnt =
     (let n = (if int (length buf) < cnt then int (length buf) else cnt)
      in if n < 0 then None
         else Some (map (\<lambda>i. if 0 < (buf ! (i div 8)) AND push_bit (i mod 8) 1 then 1 else 0)
                        [0..<8 * nat n]))"


section \<open>The contract of a fixed-width codec\<close>

text \<open>
  \<open>enc\<close> yields exactly \<open>n\<close> bytes; \<open>dec\<close> looks at the first \<open>n\<close> bytes only, panics
  on fewer, and is the inverse of \<open>enc\<close>.
\<close>

locale fixed_codec =
  fixes n :: nat
    and enc :: "'v \<Rightarrow> byte list"
    and dec :: "byte list \<Rightarrow> 'v option"
  assumes length_enc: "length (enc v) = n"
    and dec_enc: "dec (enc v) = Some v"
    and dec_prefix: "n \<le> length b \<Longrightarrow> dec b = dec (take n b)"
    and dec_short: "length b < n \<Longrightarrow> dec b = None"
    and dec_onto: "length b = n \<Longrightarrow> \<exists>v. dec b = Some v \<and> enc v = b"
begin

lemma dec_enc_append: "dec (enc v @ r) = Some v"
  using dec_prefix [of "enc v @ r"] by (simp add: length_enc dec_enc)

lemma enc_inj: "enc v = enc w \<Longrightarrow> v = w"
  by (metis dec_enc option.inject)

lemma dec_total: "n \<le> length b \<Longrightarrow> \<exists>v. dec b = Some v \<and> enc v = take n b"
  using dec_onto [of "take n b"] dec_prefix [of b] by simp

lemma dec_eq_Some_iff: "dec b = Some v \<longleftrightarrow> n \<le> length b \<and> take n b = enc v"
  by (metis dec_total dec_enc dec_prefix dec_short length_enc not_le option.distinct(1) option.inject)

lemma dec_eq_None_iff: "dec b = None \<longleftrightarrow> length b < n"
  using dec_total [of b] dec_short [of b] by (cases "n \<le> length b") auto

end

text \<open>The same codec with the bytes permuted by an involution, as the other layouts do.\<close>

locale permuted_codec = fixed_codec +
  fixes perm :: "byte list \<Rightarrow> byte list"
    and enc' :: "'a \<Rightarrow> byte list"
    and dec' :: "byte list \<Rightarrow> 'a option"
  assumes length_perm: "length (perm b) = length b"
    and perm_perm: "length b = n \<Longrightarrow> perm (perm b) = b"
    and enc'_eq: "enc' v = perm (enc v)"
    and dec'_eq: "n \<le> length b \<Longrightarrow> dec' b = dec (perm (take n b))"
    and dec'_short: "length b < n \<Longrightarrow> dec' b = None"

sublocale permuted_codec \<subseteq> permuted: fixed_codec n enc' dec'
proof
  fix b :: "byte list"
  assume "length b = n"
  then show "\<exists>v. dec' b = Some v \<and> enc' v = b"
    using dec_onto [of "perm b"] by (auto simp: dec'_eq enc'_eq length_perm perm_perm)
qed (simp_all add: length_enc length_perm dec_enc perm_perm enc'_eq dec'_eq dec'_short)

text \<open>The same codec for a type with the same values, as for floats and their bits.\<close>

locale renamed_codec = fixed_codec +
  fixes to_v :: "'w \<Rightarrow> 'a"
    and of_v :: "'a \<Rightarrow> 'w"
    and enc' :: "'w \<Rightarrow> byte list"
    and dec' :: "byte list \<Rightarrow> 'w option"
  assumes of_to: "of_v (to_v w) = w"
    and to_of: "to_v (of_v v) = v"
    and enc'_eq: "enc' w = enc (to_v w)"
    and dec'_eq: "dec' b = map_option of_v (dec b)"

sublocale renamed_codec \<subseteq> renamed: fixed_codec n enc' dec'
proof
  fix b :: "byte list"
  show "n \<le> length b \<Longrightarrow> dec' b = dec' (take n b)"
    using dec_prefix [of b] by (simp add: dec'_eq)
  show "length b = n \<Longrightarrow> \<exists>v. dec' b = Some v \<and> enc' v = b"
    using dec_onto [of b] by (metis dec'_eq enc'_eq option.simps(9) to_of)
qed (simp_all add: length_enc dec_enc enc'_eq dec'_eq of_to dec_short)

text \<open>An in-place writer of a codec overwrites the first \<open>n\<close> bytes of its buffer.\<close>

locale codec_writer = fixed_codec +
  fixes wr :: "byte list \<Rightarrow> 'a \<Rightarrow> byte list option"
  assumes wr_long: "n \<le> length buf \<Longrightarrow> wr buf v = Some (enc v @ drop n buf)"
    and wr_short: "length buf < n \<Longrightarrow> wr buf v = None"
begin

lemma wr_length: "wr buf v = Some buf' \<Longrightarrow> length buf' = length buf"
  by (cases "n \<le> length buf") (auto simp: wr_long wr_short length_enc)

lemma dec_wr: "wr buf v = Some buf' \<Longrightarrow> dec buf' = Some v \<and> drop n buf' = drop n buf"
  by (cases "n \<le> length buf") (auto simp: wr_long wr_short length_enc dec_enc_append)

lemma wr_wr: "wr buf v = Some buf' \<Longrightarrow> wr buf' w = wr buf w"
  by (cases "n \<le> length buf") (auto simp: wr_long wr_short length_enc)

end


section \<open>The codecs of binutil meet the contract\<close>

text \<open>
  The big-endian codecs are verified on the words: joining the bytes of a word from the most
  significant end rebuilds it. The other layouts permute the bytes of the big-endian one.
\<close>

lemma byte_bit_high: "8 \<le> m \<Longrightarrow> \<not> bit (w::byte) m"
  using bit_imp_le_length [of w m] by auto

lemma or_join:
  fixes v :: "'a::len word"
  assumes "l = k + 8"
  shows "push_bit l (drop_bit l v) OR push_bit k (ucast (ucast (drop_bit k v) :: byte)) =
    push_bit k (drop_bit k v)"
proof (rule bit_word_eqI)
  fix n assume "n < LENGTH('a)"
  then show "bit (push_bit l (drop_bit l v) OR push_bit k (ucast (ucast (drop_bit k v) :: byte))) n =
    bit (push_bit k (drop_bit k v)) n"
    by (cases "n < k + 8") (auto simp: assms bit_simps)
qed

lemma add_join:
  fixes v :: "'a::len word"
  assumes "l = k + 8"
  shows "push_bit l (drop_bit l v) + push_bit k (ucast (ucast (drop_bit k v) :: byte)) =
    push_bit k (drop_bit k v)"
  by (subst disjunctive_add_eq_or) (auto simp: assms or_join intro!: bit_word_eqI simp: bit_simps)

lemma top_join:
  fixes v :: "'a::len word"
  assumes "LENGTH('a) = k + 8"
  shows "push_bit k (ucast (ucast (drop_bit k v) :: byte)) = push_bit k (drop_bit k v)"
  by (rule bit_word_eqI) (auto simp: assms bit_simps)

lemmas join_bytes =
  or_join [where l = 56 and k = 48, simplified] or_join [where l = 48 and k = 40, simplified]
  or_join [where l = 40 and k = 32, simplified] or_join [where l = 32 and k = 24, simplified]
  or_join [where l = 24 and k = 16, simplified] or_join [where l = 16 and k = 8, simplified]
  or_join [where l = 8 and k = 0, simplified]
  add_join [where l = 24 and k = 16, simplified] add_join [where l = 16 and k = 8, simplified]
  add_join [where l = 8 and k = 0, simplified]
  top_join [where 'a = 64 and k = 56, simplified] top_join [where 'a = 32 and k = 24, simplified]
  top_join [where 'a = 16 and k = 8, simplified]

lemmas binutil_defs =
  ParseUint64_def ParseUint32_def ParseUint16_def
  ParseUint64BigEndian_def ParseUint64BigEndianByteSwap_def
  ParseUint64LittleEndian_def ParseUint64LittleEndianByteSwap_def
  ParseUint32BigEndian_def ParseUint32BigEndianByteSwap_def
  ParseUint32LittleEndian_def ParseUint32LittleEndianByteSwap_def
  ParseUint16BigEndian_def ParseUint16LittleEndian_def
  Uint64ToBytesBigEndian_def Uint64ToBytesBigEndianByteSwap_def
  Uint64ToBytesLittleEndian_def Uint64ToBytesLittleEndianByteSwap_def
  Uint32ToBytesBigEndian_def Uint32ToBytesBigEndianByteSwap_def
  Uint32ToBytesLittleEndian_def Uint32ToBytesLittleEndianByteSwap_def
  Uint16ToBytesBigEndian_def Uint16ToBytesLittleEndian_def

lemmas binutil_write_defs =
  WriteUint64BigEndian_def WriteUint64BigEndianByteSwap_def
  WriteUint64LittleEndian_def WriteUint64LittleEndianByteSwap_def
  WriteUint32BigEndian_def WriteUint32BigEndianByteSwap_def
  WriteUint32LittleEndian_def WriteUint32LittleEndianByteSwap_def
  WriteUint16BigEndian_def WriteUint16LittleEndian_def

text \<open>Every word has the bytes its list of bytes spells.\<close>

lemma be64_onto:
  assumes "length b = 8" and "ParseUint64BigEndian b = Some v"
  shows "Uint64ToBytesBigEndian v = b"
proof -
  from assms obtain b0 b1 b2 b3 b4 b5 b6 b7 where b: "b = [b0, b1, b2, b3, b4, b5, b6, b7]"
    by (auto simp: length_eq_8_conv)
  with assms(2) show ?thesis
    by (auto simp: ParseUint64BigEndian_def Uint64ToBytesBigEndian_def need_eq_Some_iff
        byte_bit_high bit_simps intro!: bit_word_eqI)
qed

lemma be32_onto:
  assumes "length b = 4" and "ParseUint32BigEndian b = Some v"
  shows "Uint32ToBytesBigEndian v = b"
proof -
  from assms(1) obtain b0 b1 b2 b3 where b: "b = [b0, b1, b2, b3]"
    by (auto simp: length_eq_4_conv)
  have add_or: "push_bit 24 (ucast b0) + push_bit 16 (ucast b1) + push_bit 8 (ucast b2) + ucast b3 =
      push_bit 24 (ucast b0) OR push_bit 16 (ucast b1) OR push_bit 8 (ucast b2) OR (ucast b3 :: u32)"
    by ((subst disjunctive_add_eq_or, force simp: byte_bit_high bit_simps intro!: bit_word_eqI)+,
        simp only: or.assoc)
  from assms(2) have "v = push_bit 24 (ucast b0) OR push_bit 16 (ucast b1) OR
      push_bit 8 (ucast b2) OR ucast b3"
    by (simp add: ParseUint32BigEndian_def need_eq_Some_iff b add_or)
  then show ?thesis
    by (auto simp: b Uint32ToBytesBigEndian_def byte_bit_high bit_simps intro!: bit_word_eqI)
qed

lemma be16_onto:
  assumes "length b = 2" and "ParseUint16BigEndian b = Some v"
  shows "Uint16ToBytesBigEndian v = b"
proof -
  from assms(1) obtain b0 b1 where b: "b = [b0, b1]" by (auto simp: length_eq_2_conv)
  have add_or: "push_bit 8 (ucast b0) + ucast b1 = push_bit 8 (ucast b0) OR (ucast b1 :: u16)"
    by (subst disjunctive_add_eq_or, force simp: byte_bit_high bit_simps intro!: bit_word_eqI) simp
  from assms(2) have "v = push_bit 8 (ucast b0) OR ucast b1"
    by (simp add: ParseUint16BigEndian_def need_eq_Some_iff b add_or)
  then show ?thesis
    by (auto simp: b Uint16ToBytesBigEndian_def byte_bit_high bit_simps intro!: bit_word_eqI)
qed

text \<open>Swapping the two bytes of every 16-bit register.\<close>

fun swap_pairs :: "'a list \<Rightarrow> 'a list" where
  "swap_pairs (x # y # zs) = y # x # swap_pairs zs"
| "swap_pairs zs = zs"

lemma length_swap_pairs [simp]: "length (swap_pairs xs) = length xs"
  by (induction xs rule: swap_pairs.induct) auto

lemma swap_pairs_swap_pairs [simp]: "swap_pairs (swap_pairs xs) = xs"
  by (induction xs rule: swap_pairs.induct) auto

lemma rev_swap_pairs_4: "length b = 4 \<Longrightarrow> rev (swap_pairs (rev (swap_pairs b))) = b"
  by (auto simp: length_eq_4_conv)

lemma rev_swap_pairs_8: "length b = 8 \<Longrightarrow> rev (swap_pairs (rev (swap_pairs b))) = b"
  by (auto simp: length_eq_8_conv)

interpretation be16: fixed_codec 2 Uint16ToBytesBigEndian ParseUint16BigEndian
proof
  fix b :: "byte list"
  show "length b = 2 \<Longrightarrow> \<exists>v. ParseUint16BigEndian b = Some v \<and> Uint16ToBytesBigEndian v = b"
    using be16_onto [of b] by (fastforce simp: ParseUint16BigEndian_def need_def)
qed (simp_all add: binutil_defs slice_simps nth_append join_bytes)

interpretation be32: fixed_codec 4 Uint32ToBytesBigEndian ParseUint32BigEndian
proof
  fix b :: "byte list"
  show "length b = 4 \<Longrightarrow> \<exists>v. ParseUint32BigEndian b = Some v \<and> Uint32ToBytesBigEndian v = b"
    using be32_onto [of b] by (fastforce simp: ParseUint32BigEndian_def need_def)
qed (simp_all add: binutil_defs slice_simps nth_append join_bytes)

interpretation be64: fixed_codec 8 Uint64ToBytesBigEndian ParseUint64BigEndian
proof
  fix b :: "byte list"
  show "length b = 8 \<Longrightarrow> \<exists>v. ParseUint64BigEndian b = Some v \<and> Uint64ToBytesBigEndian v = b"
    using be64_onto [of b] by (fastforce simp: ParseUint64BigEndian_def need_def)
qed (simp_all add: binutil_defs slice_simps nth_append join_bytes or.assoc [symmetric])

interpretation le16: permuted_codec 2 Uint16ToBytesBigEndian ParseUint16BigEndian
  "rev" Uint16ToBytesLittleEndian ParseUint16LittleEndian
proof
  fix b :: "byte list"
  assume "2 \<le> length b"
  then show "ParseUint16LittleEndian b = ParseUint16BigEndian (rev (take 2 b))"
    by (auto simp: long_convs binutil_defs need_def ac_simps)
qed (auto simp: binutil_defs slice_simps )

interpretation le32: permuted_codec 4 Uint32ToBytesBigEndian ParseUint32BigEndian
  "rev" Uint32ToBytesLittleEndian ParseUint32LittleEndian
proof
  fix b :: "byte list"
  assume "4 \<le> length b"
  then show "ParseUint32LittleEndian b = ParseUint32BigEndian (rev (take 4 b))"
    by (auto simp: long_convs binutil_defs need_def ac_simps)
qed (auto simp: binutil_defs slice_simps )

interpretation bes32: permuted_codec 4 Uint32ToBytesBigEndian ParseUint32BigEndian
  "swap_pairs" Uint32ToBytesBigEndianByteSwap ParseUint32BigEndianByteSwap
proof
  fix b :: "byte list"
  assume "4 \<le> length b"
  then show "ParseUint32BigEndianByteSwap b = ParseUint32BigEndian (swap_pairs (take 4 b))"
    by (auto simp: long_convs binutil_defs need_def ac_simps)
qed (auto simp: binutil_defs slice_simps )

interpretation les32: permuted_codec 4 Uint32ToBytesBigEndian ParseUint32BigEndian
  "\<lambda>b. rev (swap_pairs b)" Uint32ToBytesLittleEndianByteSwap ParseUint32LittleEndianByteSwap
proof
  fix b :: "byte list"
  assume "4 \<le> length b"
  then show "ParseUint32LittleEndianByteSwap b = ParseUint32BigEndian (rev (swap_pairs (take 4 b)))"
    by (auto simp: long_convs binutil_defs need_def ac_simps)
qed (auto simp: binutil_defs slice_simps rev_swap_pairs_4)

interpretation le64: permuted_codec 8 Uint64ToBytesBigEndian ParseUint64BigEndian
  "rev" Uint64ToBytesLittleEndian ParseUint64LittleEndian
proof
  fix b :: "byte list"
  assume "8 \<le> length b"
  then show "ParseUint64LittleEndian b = ParseUint64BigEndian (rev (take 8 b))"
    by (auto simp: long_convs binutil_defs need_def ac_simps)
qed (auto simp: binutil_defs slice_simps )

interpretation bes64: permuted_codec 8 Uint64ToBytesBigEndian ParseUint64BigEndian
  "swap_pairs" Uint64ToBytesBigEndianByteSwap ParseUint64BigEndianByteSwap
proof
  fix b :: "byte list"
  assume "8 \<le> length b"
  then show "ParseUint64BigEndianByteSwap b = ParseUint64BigEndian (swap_pairs (take 8 b))"
    by (auto simp: long_convs binutil_defs need_def ac_simps)
qed (auto simp: binutil_defs slice_simps )

interpretation les64: permuted_codec 8 Uint64ToBytesBigEndian ParseUint64BigEndian
  "\<lambda>b. rev (swap_pairs b)" Uint64ToBytesLittleEndianByteSwap ParseUint64LittleEndianByteSwap
proof
  fix b :: "byte list"
  assume "8 \<le> length b"
  then show "ParseUint64LittleEndianByteSwap b = ParseUint64BigEndian (rev (swap_pairs (take 8 b)))"
    by (auto simp: long_convs binutil_defs need_def ac_simps)
qed (auto simp: binutil_defs slice_simps rev_swap_pairs_8)

interpretation bef32: renamed_codec 4 Uint32ToBytesBigEndian ParseUint32BigEndian
  f32_bits F32 Float32ToBytesBigEndian ParseFloat32BigEndian
  by unfold_locales (simp_all add: ParseFloat32BigEndian_def Float32ToBytesBigEndian_def)

interpretation besf32: renamed_codec 4 Uint32ToBytesBigEndianByteSwap ParseUint32BigEndianByteSwap
  f32_bits F32 Float32ToBytesBigEndianByteSwap ParseFloat32BigEndianByteSwap
  by unfold_locales (simp_all add: ParseFloat32BigEndianByteSwap_def Float32ToBytesBigEndianByteSwap_def)

interpretation lef32: renamed_codec 4 Uint32ToBytesLittleEndian ParseUint32LittleEndian
  f32_bits F32 Float32ToBytesLittleEndian ParseFloat32LittleEndian
  by unfold_locales (simp_all add: ParseFloat32LittleEndian_def Float32ToBytesLittleEndian_def)

interpretation lesf32: renamed_codec 4 Uint32ToBytesLittleEndianByteSwap ParseUint32LittleEndianByteSwap
  f32_bits F32 Float32ToBytesLittleEndianByteSwap ParseFloat32LittleEndianByteSwap
  by unfold_locales (simp_all add: ParseFloat32LittleEndianByteSwap_def Float32ToBytesLittleEndianByteSwap_def)

interpretation bef64: renamed_codec 8 Uint64ToBytesBigEndian ParseUint64BigEndian
  f64_bits F64 Float64ToBytesBigEndian ParseFloat64BigEndian
  by unfold_locales (simp_all add: ParseFloat64BigEndian_def Float64ToBytesBigEndian_def)

interpretation besf64: renamed_codec 8 Uint64ToBytesBigEndianByteSwap ParseUint64BigEndianByteSwap
  f64_bits F64 Float64ToBytesBigEndianByteSwap ParseFloat64BigEndianByteSwap
  by unfold_locales (simp_all add: ParseFloat64BigEndianByteSwap_def Float64ToBytesBigEndianByteSwap_def)

interpretation lef64: renamed_codec 8 Uint64ToBytesLittleEndian ParseUint64LittleEndian
  f64_bits F64 Float64ToBytesLittleEndian ParseFloat64LittleEndian
  by unfold_locales (simp_all add: ParseFloat64LittleEndian_def Float64ToBytesLittleEndian_def)

interpretation lesf64: renamed_codec 8 Uint64ToBytesLittleEndianByteSwap ParseUint64LittleEndianByteSwap
  f64_bits F64 Float64ToBytesLittleEndianByteSwap ParseFloat64LittleEndianByteSwap
  by unfold_locales (simp_all add: ParseFloat64LittleEndianByteSwap_def Float64ToBytesLittleEndianByteSwap_def)

interpretation wr_be16: codec_writer 2 Uint16ToBytesBigEndian ParseUint16BigEndian WriteUint16BigEndian
  by unfold_locales (auto simp: long_convs binutil_defs binutil_write_defs need_def)

interpretation wr_le16: codec_writer 2 Uint16ToBytesLittleEndian ParseUint16LittleEndian WriteUint16LittleEndian
  by unfold_locales (auto simp: long_convs binutil_defs binutil_write_defs need_def)

interpretation wr_be32: codec_writer 4 Uint32ToBytesBigEndian ParseUint32BigEndian WriteUint32BigEndian
  by unfold_locales (auto simp: long_convs binutil_defs binutil_write_defs need_def)

interpretation wr_bes32: codec_writer 4 Uint32ToBytesBigEndianByteSwap ParseUint32BigEndianByteSwap WriteUint32BigEndianByteSwap
  by unfold_locales (auto simp: long_convs binutil_defs binutil_write_defs need_def)

interpretation wr_le32: codec_writer 4 Uint32ToBytesLittleEndian ParseUint32LittleEndian WriteUint32LittleEndian
  by unfold_locales (auto simp: long_convs binutil_defs binutil_write_defs need_def)

interpretation wr_les32: codec_writer 4 Uint32ToBytesLittleEndianByteSwap ParseUint32LittleEndianByteSwap WriteUint32LittleEndianByteSwap
  by unfold_locales (auto simp: long_convs binutil_defs binutil_write_defs need_def)

interpretation wr_be64: codec_writer 8 Uint64ToBytesBigEndian ParseUint64BigEndian WriteUint64BigEndian
  by unfold_locales (auto simp: long_convs binutil_defs binutil_write_defs need_def)

interpretation wr_bes64: codec_writer 8 Uint64ToBytesBigEndianByteSwap ParseUint64BigEndianByteSwap WriteUint64BigEndianByteSwap
  by unfold_locales (auto simp: long_convs binutil_defs binutil_write_defs need_def)

interpretation wr_le64: codec_writer 8 Uint64ToBytesLittleEndian ParseUint64LittleEndian WriteUint64LittleEndian
  by unfold_locales (auto simp: long_convs binutil_defs binutil_write_defs need_def)

interpretation wr_les64: codec_writer 8 Uint64ToBytesLittleEndianByteSwap ParseUint64LittleEndianByteSwap WriteUint64LittleEndianByteSwap
  by unfold_locales (auto simp: long_convs binutil_defs binutil_write_defs need_def)

section \<open>Packing booleans\<close>

lemma and_bit_pos_iff: "0 < w AND 2 ^ k \<longleftrightarrow> bit (w::byte) k"
  by (simp add: word_gt_0 bit_iff_and_push_bit_not_eq_0)

lemma bit_add_clear_bit:
  fixes w :: byte
  assumes "\<not> bit w k" and "k < 8"
  shows "bit (w + 2 ^ k) n \<longleftrightarrow> bit w n \<or> n = k"
proof -
  have "w AND 2 ^ k = 0"
    using assms by (auto simp: bit_iff_and_push_bit_not_eq_0)
  then have "w + 2 ^ k = w OR 2 ^ k" by (rule disjunctive_add_eq_or)
  with assms(2) show ?thesis by (auto simp: bit_simps)
qed

lemma length_ShrinkBool_loop [simp]: "length (ShrinkBool_loop xs i b) = length b"
  by (induction xs i b rule: ShrinkBool_loop.induct) auto

lemma ShrinkBool_loop_bits:
  assumes "\<And>j. i \<le> j \<Longrightarrow> j < 8 * length b \<Longrightarrow> \<not> bit (b ! (j div 8)) (j mod 8)"
    and "i + length xs \<le> 8 * length b" and "j < 8 * length b"
  shows "bit (ShrinkBool_loop xs i b ! (j div 8)) (j mod 8) \<longleftrightarrow>
      (if j < i then bit (b ! (j div 8)) (j mod 8) else j - i < length xs \<and> 0 < xs ! (j - i))"
  using assms
proof (induction xs i b rule: ShrinkBool_loop.induct)
  case (1 i b)
  then show ?case by auto
next
  case (2 x xs i b)
  let ?b = "if 0 < x then b[i div 8 := b ! (i div 8) + push_bit (i mod 8) 1] else b"
  have i: "i < 8 * length b" using "2.prems"(2) by simp
  then have idx: "i div 8 < length b" by simp
  have clear: "\<not> bit (b ! (i div 8)) (i mod 8)" using "2.prems"(1) i by simp
  have upd: "bit (?b ! (k div 8)) (k mod 8) \<longleftrightarrow>
      bit (b ! (k div 8)) (k mod 8) \<or> (0 < x \<and> k = i)" if "k < 8 * length b" for k
  proof -
    have "k = i \<longleftrightarrow> k div 8 = i div 8 \<and> k mod 8 = i mod 8"
      by (metis div_mult_mod_eq)
    then show ?thesis
      using idx clear by (cases "k div 8 = i div 8") (auto simp: bit_add_clear_bit)
  qed
  have IH: "bit (ShrinkBool_loop xs (Suc i) ?b ! (j div 8)) (j mod 8) \<longleftrightarrow>
      (if j < Suc i then bit (?b ! (j div 8)) (j mod 8)
       else j - Suc i < length xs \<and> 0 < xs ! (j - Suc i))"
  proof -
    have len: "length ?b = length b" by simp
    have "\<not> bit (?b ! (k div 8)) (k mod 8)" if "Suc i \<le> k" "k < 8 * length ?b" for k
      using upd [of k] "2.prems"(1) [of k] that by (simp add: len)
    from "2.IH" [OF this] "2.prems"(2,3) show ?thesis by (simp add: len)
  qed
  consider "j < i" | "j = i" | "i < j" by linarith
  then show ?case
  proof cases
    case 3
    then obtain d where "j = Suc i + d" using less_imp_Suc_add by auto
    with IH show ?thesis by simp
  qed (use IH upd [of j] "2.prems" clear in simp_all)
qed

lemma length_ShrinkBool: "length (ShrinkBool buf) = (length buf + 7) div 8"
proof -
  have "length buf div 8 + (if 0 < length buf mod 8 then 1 else 0) = (length buf + 7) div 8"
    by presburger
  then show ?thesis by (simp add: ShrinkBool_def Let_def)
qed

lemma bit_ShrinkBool:
  assumes "j < 8 * length (ShrinkBool buf)"
  shows "bit (ShrinkBool buf ! (j div 8)) (j mod 8) \<longleftrightarrow> j < length buf \<and> 0 < buf ! j"
proof -
  let ?ln = "length buf div 8 + (if 0 < length buf mod 8 then 1 else 0)"
  have "length buf \<le> 8 * ?ln" by presburger
  moreover from assms have "j < 8 * ?ln" by (simp add: ShrinkBool_def Let_def)
  ultimately show ?thesis
    using ShrinkBool_loop_bits [of 0 "replicate ?ln 0" buf j]
    by (simp add: ShrinkBool_def Let_def)
qed

lemma ExpandBool_all: "ExpandBool buf (int (length buf)) =
  Some (map (\<lambda>i. if bit (buf ! (i div 8)) (i mod 8) then 1 else 0) [0..<8 * length buf])"
  by (simp add: ExpandBool_def and_bit_pos_iff)

text \<open>
  unpacking what \<open>ShrinkBool\<close> packed gives the boolean bytes back, normalised to 0 and 1
  and padded with zeros to a whole number of bytes.
\<close>

theorem ExpandBool_ShrinkBool:
  "ExpandBool (ShrinkBool buf) (int (length (ShrinkBool buf))) =
     Some (map (\<lambda>x. if 0 < x then 1 else 0) buf @
           replicate (8 * ((length buf + 7) div 8) - length buf) 0)"
proof -
  let ?n = "8 * ((length buf + 7) div 8)"
  have le: "length buf \<le> ?n" by presburger
  have "map (\<lambda>i. if bit (ShrinkBool buf ! (i div 8)) (i mod 8) then 1 else 0) [0..<?n] =
        map (\<lambda>x. if 0 < x then 1 else 0) buf @ replicate (?n - length buf) (0::byte)"
    using le by (auto intro!: nth_equalityI simp: bit_ShrinkBool length_ShrinkBool nth_append)
  then show ?thesis unfolding ExpandBool_all by (simp only: length_ShrinkBool)
qed

section \<open>Properties\<close>

text \<open>
  C26: in every register layout, decoding the bytes an integer was encoded to gives the integer
  back, whatever bytes follow, for 16, 32 and 64 bits.
\<close>

theorem uint_layouts_roundtrip:
  "ParseUint16BigEndian (Uint16ToBytesBigEndian a @ r) = Some a \<and>
   ParseUint16LittleEndian (Uint16ToBytesLittleEndian a @ r) = Some a \<and>
   ParseUint32BigEndian (Uint32ToBytesBigEndian b @ r) = Some b \<and>
   ParseUint32BigEndianByteSwap (Uint32ToBytesBigEndianByteSwap b @ r) = Some b \<and>
   ParseUint32LittleEndian (Uint32ToBytesLittleEndian b @ r) = Some b \<and>
   ParseUint32LittleEndianByteSwap (Uint32ToBytesLittleEndianByteSwap b @ r) = Some b \<and>
   ParseUint64BigEndian (Uint64ToBytesBigEndian c @ r) = Some c \<and>
   ParseUint64BigEndianByteSwap (Uint64ToBytesBigEndianByteSwap c @ r) = Some c \<and>
   ParseUint64LittleEndian (Uint64ToBytesLittleEndian c @ r) = Some c \<and>
   ParseUint64LittleEndianByteSwap (Uint64ToBytesLittleEndianByteSwap c @ r) = Some c"
  by (intro conjI; rule be16.dec_enc_append le16.permuted.dec_enc_append
      be32.dec_enc_append bes32.permuted.dec_enc_append le32.permuted.dec_enc_append
      les32.permuted.dec_enc_append be64.dec_enc_append bes64.permuted.dec_enc_append
      le64.permuted.dec_enc_append les64.permuted.dec_enc_append)

text \<open>
  writing an integer in place and reading it back gives the integer, the bytes after the
  written ones are untouched, and a buffer that is too short panics instead.
\<close>

theorem write_read_in_place:
  "(case WriteUint16BigEndian buf a of
      None \<Rightarrow> length buf < 2
    | Some buf' \<Rightarrow> ParseUint16BigEndian buf' = Some a \<and> drop 2 buf' = drop 2 buf) \<and>
   (case WriteUint32LittleEndianByteSwap buf b of
      None \<Rightarrow> length buf < 4
    | Some buf' \<Rightarrow> ParseUint32LittleEndianByteSwap buf' = Some b \<and> drop 4 buf' = drop 4 buf) \<and>
   (case WriteUint64BigEndianByteSwap buf c of
      None \<Rightarrow> length buf < 8
    | Some buf' \<Rightarrow> ParseUint64BigEndianByteSwap buf' = Some c \<and> drop 8 buf' = drop 8 buf)"
  using wr_be16.dec_wr [of buf a] wr_be16.wr_long [of buf a]
    wr_les32.dec_wr [of buf b] wr_les32.wr_long [of buf b]
    wr_bes64.dec_wr [of buf c] wr_bes64.wr_long [of buf c]
  by (auto split: option.splits simp: not_le [symmetric])

section \<open>Big-endian words\<close>

text \<open>The specifications of the peers read a word from its two bytes.\<close>

definition be_word :: "byte \<Rightarrow> byte \<Rightarrow> u16" where
  "be_word hi lo = push_bit 8 (ucast hi) OR ucast lo"

lemma be_word_bytes [simp]: "be_word (ucast (drop_bit 8 w)) (ucast w) = w"
  by (rule bit_word_eqI) (auto simp: be_word_def bit_simps)

lemma Uint16ToBytesBigEndian_eq: "Uint16ToBytesBigEndian w = [ucast (drop_bit 8 w), ucast w]"
  by (simp add: Uint16ToBytesBigEndian_def)

end
