(* ===== verification/GoFloat.thy ===== *)
theory GoFloat
  imports BinUtil
begin

text \<open>
  The floating-point operations of Go that the gateway uses when a variable has a rate: IEEE 754
  binary64 and binary32 on bit patterns, with round-half-to-even. A pattern is decoded to a
  sign, an integer mantissa and a power of two (\<open>fp\<close>), the operation is done exactly on those
  (for the quotient: with enough bits and a sticky bit), and the result is rounded once by
  \<open>fp_encode\<close>. Everything computes. NaN results are represented by one quiet NaN: Go does not
  specify their payload. A conversion to an integer type that is out of range is left to the
  implementation by the Go specification and is a parameter here.
\<close>

section \<open>Values of bit patterns\<close>

datatype fp = FP_NaN | FP_Inf bool | FP_Fin bool int int

definition fp_emin :: "nat \<Rightarrow> nat \<Rightarrow> int" where
  "fp_emin p w = 2 - 2 ^ (w - 1) - int p"

definition fp_decode :: "nat \<Rightarrow> nat \<Rightarrow> int \<Rightarrow> fp" where
  "fp_decode p w n =
     (let s = odd (n div 2 ^ (p + w));
          ex = n div 2 ^ p mod 2 ^ w;
          fr = n mod 2 ^ p
      in if ex = 2 ^ w - 1 then (if fr = 0 then FP_Inf s else FP_NaN)
         else if ex = 0 then FP_Fin s fr (fp_emin p w)
         else FP_Fin s (2 ^ p + fr) (fp_emin p w + ex - 1))"

function bitlen :: "int \<Rightarrow> nat" where
  "bitlen n = (if n \<le> 0 then 0 else Suc (bitlen (n div 2)))"
  by auto
termination by (relation "measure nat") auto

declare bitlen.simps [simp del]

definition round_half_even :: "int \<Rightarrow> nat \<Rightarrow> int" where
  "round_half_even m k =
     (let q = m div 2 ^ k; r = 2 * (m mod 2 ^ k)
      in if r > 2 ^ k \<or> (r = 2 ^ k \<and> odd q) then q + 1 else q)"

definition fp_magnitude :: "nat \<Rightarrow> nat \<Rightarrow> int \<Rightarrow> int \<Rightarrow> int" where
  "fp_magnitude p w m e =
     (let e' = max (e + int (bitlen m) - int p - 1) (fp_emin p w);
          m' = (if e' \<le> e then m * 2 ^ nat (e - e') else round_half_even m (nat (e' - e)))
      in min ((e' - fp_emin p w) * 2 ^ p + m') ((2 ^ w - 1) * 2 ^ p))"

definition fp_encode :: "nat \<Rightarrow> nat \<Rightarrow> fp \<Rightarrow> int" where
  "fp_encode p w v =
     (case v of
        FP_NaN \<Rightarrow> (2 ^ w - 1) * 2 ^ p + 2 ^ (p - 1)
      | FP_Inf s \<Rightarrow> (if s then 2 ^ (p + w) else 0) + (2 ^ w - 1) * 2 ^ p
      | FP_Fin s m e \<Rightarrow> (if s then 2 ^ (p + w) else 0) +
          (if m = 0 then 0 else fp_magnitude p w m e))"

section \<open>Arithmetic\<close>

fun fp_mul :: "fp \<Rightarrow> fp \<Rightarrow> fp" where
  "fp_mul FP_NaN _ = FP_NaN"
| "fp_mul _ FP_NaN = FP_NaN"
| "fp_mul (FP_Inf s) (FP_Inf t) = FP_Inf (s \<noteq> t)"
| "fp_mul (FP_Inf s) (FP_Fin t m _) = (if m = 0 then FP_NaN else FP_Inf (s \<noteq> t))"
| "fp_mul (FP_Fin s m _) (FP_Inf t) = (if m = 0 then FP_NaN else FP_Inf (s \<noteq> t))"
| "fp_mul (FP_Fin s m e) (FP_Fin t n f) = FP_Fin (s \<noteq> t) (m * n) (e + f)"

text \<open>The quotient to 128 bits below the operands with a sticky bit: enough for the rounding to be
  that of the exact quotient.\<close>

fun fp_div :: "fp \<Rightarrow> fp \<Rightarrow> fp" where
  "fp_div FP_NaN _ = FP_NaN"
| "fp_div _ FP_NaN = FP_NaN"
| "fp_div (FP_Inf s) (FP_Inf t) = FP_NaN"
| "fp_div (FP_Inf s) (FP_Fin t _ _) = FP_Inf (s \<noteq> t)"
| "fp_div (FP_Fin s _ _) (FP_Inf t) = FP_Fin (s \<noteq> t) 0 0"
| "fp_div (FP_Fin s m e) (FP_Fin t n f) =
     (if n = 0 then (if m = 0 then FP_NaN else FP_Inf (s \<noteq> t))
      else let q = m * 2 ^ 128 div n; r = m * 2 ^ 128 mod n
           in FP_Fin (s \<noteq> t) (2 * q + (if r = 0 then 0 else 1)) (e - f - 129))"

definition fp_of_int :: "int \<Rightarrow> fp" where
  "fp_of_int i = FP_Fin (i < 0) \<bar>i\<bar> 0"

text \<open>The value truncated toward zero, for a finite one.\<close>

fun fp_trunc :: "fp \<Rightarrow> int option" where
  "fp_trunc (FP_Fin s m e) =
     (let a = (if 0 \<le> e then m * 2 ^ nat e else m div 2 ^ nat (- e))
      in Some (if s then - a else a))"
| "fp_trunc _ = None"

text \<open>Comparison, by bringing the two values to the smaller exponent.\<close>

fun fp_scaled :: "fp \<Rightarrow> int \<Rightarrow> int" where
  "fp_scaled (FP_Fin s m e) f = (if s then -1 else 1) * m * 2 ^ nat (e - f)"
| "fp_scaled _ _ = 0"

fun fp_less :: "fp \<Rightarrow> fp \<Rightarrow> bool" where
  "fp_less (FP_Fin s m e) (FP_Fin t n f) =
     (fp_scaled (FP_Fin s m e) (min e f) < fp_scaled (FP_Fin t n f) (min e f))"
| "fp_less (FP_Inf s) (FP_Inf t) = (s \<and> \<not> t)"
| "fp_less (FP_Inf s) (FP_Fin _ _ _) = s"
| "fp_less (FP_Fin _ _ _) (FP_Inf t) = (\<not> t)"
| "fp_less _ _ = False"

fun fp_eq :: "fp \<Rightarrow> fp \<Rightarrow> bool" where
  "fp_eq FP_NaN _ = False"
| "fp_eq _ FP_NaN = False"
| "fp_eq v w = (\<not> fp_less v w \<and> \<not> fp_less w v)"

section \<open>float64 and float32\<close>

definition f64_val :: "f64 \<Rightarrow> fp" where
  "f64_val x = fp_decode 52 11 (uint (f64_bits x))"

definition f64_of :: "fp \<Rightarrow> f64" where
  "f64_of v = F64 (word_of_int (fp_encode 52 11 v))"

definition f32_val :: "f32 \<Rightarrow> fp" where
  "f32_val x = fp_decode 23 8 (uint (f32_bits x))"

definition f32_of :: "fp \<Rightarrow> f32" where
  "f32_of v = F32 (word_of_int (fp_encode 23 8 v))"

definition f64_mul :: "f64 \<Rightarrow> f64 \<Rightarrow> f64" where
  "f64_mul x y = f64_of (fp_mul (f64_val x) (f64_val y))"

definition f64_div :: "f64 \<Rightarrow> f64 \<Rightarrow> f64" where
  "f64_div x y = f64_of (fp_div (f64_val x) (f64_val y))"

definition f32_mul :: "f32 \<Rightarrow> f32 \<Rightarrow> f32" where
  "f32_mul x y = f32_of (fp_mul (f32_val x) (f32_val y))"

definition f32_of_f64 :: "f64 \<Rightarrow> f32" where
  "f32_of_f64 x = f32_of (f64_val x)"

definition f64_of_f32 :: "f32 \<Rightarrow> f64" where
  "f64_of_f32 x = f64_of (f32_val x)"

definition f64_of_int :: "int \<Rightarrow> f64" where
  "f64_of_int i = f64_of (fp_of_int i)"

definition f32_of_int :: "int \<Rightarrow> f32" where
  "f32_of_int i = f32_of (fp_of_int i)"

definition f64_eq :: "f64 \<Rightarrow> f64 \<Rightarrow> bool" where
  "f64_eq x y = fp_eq (f64_val x) (f64_val y)"

definition f64_less :: "f64 \<Rightarrow> f64 \<Rightarrow> bool" where
  "f64_less x y = fp_less (f64_val x) (f64_val y)"

definition f32_less :: "f32 \<Rightarrow> f32 \<Rightarrow> bool" where
  "f32_less x y = fp_less (f32_val x) (f32_val y)"

definition f64_zero :: f64 where "f64_zero = F64 0"
definition f64_one :: f64 where "f64_one = F64 0x3FF0000000000000"
definition f32_zero :: f32 where "f32_zero = F32 0"

text \<open>\<open>float64 \<rightarrow>\<close> integer: Go leaves the result to the implementation when the truncated value does
  not fit; \<open>oor\<close> is that choice.\<close>

definition f64_to_int :: "(int \<Rightarrow> int \<Rightarrow> f64 \<Rightarrow> int) \<Rightarrow> int \<Rightarrow> int \<Rightarrow> f64 \<Rightarrow> int" where
  "f64_to_int oor lo hi x =
     (case fp_trunc (f64_val x) of
        Some i \<Rightarrow> if lo \<le> i \<and> i \<le> hi then i else oor lo hi x
      | None \<Rightarrow> oor lo hi x)"


lemma bitlen_eval [simp]:
  "bitlen 0 = 0" "bitlen 1 = 1" "bitlen (numeral (num.Bit0 n)) = Suc (bitlen (numeral n))"
  "bitlen (numeral (num.Bit1 n)) = Suc (bitlen (numeral n))"
  by (subst bitlen.simps, simp)+

lemmas fp_eval = fp_encode_def fp_magnitude_def fp_emin_def round_half_even_def fp_decode_def Let_def

lemmas f64_eval = f64_of_int_def f64_of_def fp_of_int_def f64_div_def f64_val_def f64_mul_def
  f64_one_def f64_eq_def f64_zero_def fp_eval

lemma bitlen_0: "n \<le> 0 \<Longrightarrow> bitlen n = 0"
  by (subst bitlen.simps) simp

lemma bitlen_pos: "0 < n \<Longrightarrow> bitlen n = Suc (bitlen (n div 2))"
  by (subst bitlen.simps) simp

lemma bitlen_bounds: "0 < n \<Longrightarrow> 2 ^ (bitlen n - 1) \<le> n \<and> n < 2 ^ bitlen n"
proof (induction n rule: bitlen.induct)
  case (1 n)
  show ?case
  proof (cases "n = 1")
    case False
    with 1 have "2 ^ (bitlen (n div 2) - 1) \<le> n div 2 \<and> n div 2 < 2 ^ bitlen (n div 2)"
      by simp
    moreover obtain b where "bitlen (n div 2) = Suc b" using False 1 by (simp add: bitlen_pos)
    moreover have "2 * (n div 2) \<le> n" "n \<le> 2 * (n div 2) + 1" by presburger+
    ultimately show ?thesis using 1(2) by (auto simp: bitlen_pos [of n])
  qed simp
qed

lemma bitlen_unique: "2 ^ k \<le> n \<Longrightarrow> n < 2 ^ Suc k \<Longrightarrow> bitlen n = Suc k"
proof (induction k arbitrary: n)
  case 0
  then have "n = 1" by simp
  then show ?case by simp
next
  case (Suc k)
  then have "bitlen (n div 2) = Suc k" by simp
  moreover have "0 < n" using Suc.prems(1) by (smt (verit) zero_less_power)
  ultimately show ?case by (simp add: bitlen_pos)
qed

lemma bitlen_shift: "0 < m \<Longrightarrow> bitlen (m * 2 ^ k) = bitlen m + k"
  by (induction k) (simp_all add: bitlen_pos [of "m * (2 * 2 ^ k)" for k] mult.left_commute)

lemma bitlen_le: "0 < n \<Longrightarrow> n < 2 ^ k \<Longrightarrow> bitlen n \<le> k"
proof (rule ccontr)
  assume n: "0 < n" "n < 2 ^ k" "\<not> bitlen n \<le> k"
  then have "(2::int) ^ k \<le> 2 ^ (bitlen n - 1)" by (intro power_increasing) auto
  also have "\<dots> \<le> n" using n(1) bitlen_bounds by blast
  finally show False using n(2) by simp
qed

section \<open>Rounding\<close>

lemma round_half_even_exact: "round_half_even (q * 2 ^ k) k = q"
  by (simp add: round_half_even_def)

lemma round_half_even_0: "round_half_even m 0 = m"
  by (simp add: round_half_even_def)

lemma round_half_even_error: "2 * \<bar>m - round_half_even m k * 2 ^ k\<bar> \<le> 2 ^ k"
proof -
  define P q r where "P = (2::int) ^ k" and "q = m div P" and "r = m mod P"
  have "m = q * P + r" unfolding q_def r_def by (rule div_mult_mod_eq [symmetric])
  moreover have "0 \<le> r" "r < P" by (simp_all add: r_def P_def)
  moreover have "round_half_even m k = (if P < 2 * r \<or> 2 * r = P \<and> odd q then q + 1 else q)"
    unfolding round_half_even_def Let_def q_def r_def P_def by (rule refl)
  ultimately show ?thesis
    unfolding P_def [symmetric] by (simp add: algebra_simps abs_le_iff)
qed

lemma round_half_even_shift: "round_half_even (m * 2 ^ j) (k + j) = round_half_even m k"
  by (simp add: round_half_even_def Let_def power_add mult_mod_left [symmetric])

text \<open>The encoding depends on the value only, not on how it is split into mantissa and exponent.\<close>

lemma fp_magnitude_shift:
  assumes "0 < m"
  shows "fp_magnitude p w (m * 2 ^ k) (e - int k) = fp_magnitude p w m e"
proof -
  define E where "E = max (e + int (bitlen m) - int p - 1) (fp_emin p w)"
  have "(if E \<le> e - int k then m * 2 ^ k * 2 ^ nat (e - int k - E)
         else round_half_even (m * 2 ^ k) (nat (E - (e - int k)))) =
        (if E \<le> e then m * 2 ^ nat (e - E) else round_half_even m (nat (E - e)))"
  proof (cases "E \<le> e - int k")
    case True
    then have "k + nat (e - int k - E) = nat (e - E)" by linarith
    with True show ?thesis by (simp add: mult.assoc flip: power_add)
  next
    case False
    show ?thesis
    proof (cases "E \<le> e")
      case True
      define j where "j = nat (E - (e - int k))"
      with True False have "k = j + nat (e - E)" by linarith
      then have "m * 2 ^ k = m * 2 ^ nat (e - E) * 2 ^ j" by (simp add: power_add)
      with True False show ?thesis
        by (simp only: j_def [symmetric] round_half_even_exact if_True if_False)
    next
      case F: False
      then have "nat (E - (e - int k)) = nat (E - e) + k" by linarith
      with F False show ?thesis by (simp add: round_half_even_shift)
    qed
  qed
  moreover have "e - int k + int (bitlen (m * 2 ^ k)) - int p - 1 = e + int (bitlen m) - int p - 1"
    using assms by (simp add: bitlen_shift)
  ultimately show ?thesis by (simp only: fp_magnitude_def Let_def flip: E_def)
qed

section \<open>Decoding after encoding\<close>

text \<open>A pattern is its sign, exponent field and fraction field.\<close>

definition fp_pack :: "nat \<Rightarrow> nat \<Rightarrow> bool \<Rightarrow> int \<Rightarrow> int \<Rightarrow> int" where
  "fp_pack p w s ex fr = (if s then 2 ^ (p + w) else 0) + (ex * 2 ^ p + fr)"

lemma fp_body_bound:
  assumes "fr < 2 ^ p" "ex < 2 ^ w"
  shows "ex * 2 ^ p + fr < (2 ^ (p + w) :: int)"
proof -
  have "ex * 2 ^ p + fr < ex * 2 ^ p + 2 ^ p" using assms by simp
  also have "\<dots> = (ex + 1) * 2 ^ p" by (simp add: algebra_simps)
  also have "\<dots> \<le> 2 ^ w * 2 ^ p" using assms by (intro mult_right_mono) auto
  finally show ?thesis by (simp add: power_add mult.commute)
qed

lemma fp_fields:
  assumes "0 \<le> fr" "fr < 2 ^ p" "0 \<le> ex" "ex < 2 ^ w"
  shows "fp_pack p w s ex fr div 2 ^ (p + w) = (if s then 1 else 0)"
    and "fp_pack p w s ex fr div 2 ^ p mod 2 ^ w = ex"
    and "fp_pack p w s ex fr mod 2 ^ p = fr"
proof -
  have le: "ex * 2 ^ p + fr < 2 ^ (p + w)" using assms by (intro fp_body_bound)
  have ge: "0 \<le> ex * 2 ^ p + fr" using assms by simp
  have "(2 ^ (p + w) + (ex * 2 ^ p + fr)) div 2 ^ (p + w) = 1 + (ex * 2 ^ p + fr) div 2 ^ (p + w)"
    using div_mult_self1 [of "2 ^ (p + w)" "ex * 2 ^ p + fr" 1] by (simp add: add.commute)
  then show "fp_pack p w s ex fr div 2 ^ (p + w) = (if s then 1 else 0)"
    using le ge by (simp add: fp_pack_def)
  have "(2::int) ^ (p + w) = 2 ^ w * 2 ^ p" by (simp add: power_add)
  then have split: "fp_pack p w s ex fr = ((if s then 2 ^ w else 0) + ex) * 2 ^ p + fr"
    by (simp add: fp_pack_def algebra_simps)
  then show "fp_pack p w s ex fr mod 2 ^ p = fr" using assms by simp
  have "fp_pack p w s ex fr div 2 ^ p = (if s then 2 ^ w else 0) + ex"
    using assms by (simp add: split)
  then show "fp_pack p w s ex fr div 2 ^ p mod 2 ^ w = ex"
    using assms by simp
qed

lemma fp_pack_range:
  assumes "0 \<le> fr" "fr < 2 ^ p" "0 \<le> ex" "ex < 2 ^ w"
  shows "0 \<le> fp_pack p w s ex fr \<and> fp_pack p w s ex fr < 2 ^ (p + w + 1)"
proof -
  have "0 \<le> ex * 2 ^ p" using assms by simp
  moreover have "ex * 2 ^ p + fr < 2 ^ (p + w)" using assms by (intro fp_body_bound)
  ultimately show ?thesis using assms(1) by (simp add: fp_pack_def)
qed

lemma div_less_2: "0 < P \<Longrightarrow> n < 2 * P \<Longrightarrow> n div P < (2::int)"
proof (rule ccontr)
  assume *: "0 < P" "n < 2 * P" "\<not> n div P < 2"
  then have "2 * P \<le> n div P * P" by (intro mult_right_mono) auto
  also have "\<dots> \<le> n" using * div_mult_mod_eq [of n P] pos_mod_sign [of P n] by linarith
  finally show False using * by simp
qed

lemma fp_pack_exists:
  assumes "0 \<le> n" "n < 2 ^ (p + w + 1)"
  obtains s ex fr where "n = fp_pack p w s ex fr" "0 \<le> fr" "fr < 2 ^ p" "0 \<le> ex" "ex < 2 ^ w"
proof -
  define a where "a = n div 2 ^ p"
  define b where "b = a div 2 ^ w"
  have "b = n div 2 ^ (p + w)" by (simp add: a_def b_def zdiv_zmult2_eq power_add)
  then have "b < 2" "0 \<le> b"
    using assms by (simp_all add: div_less_2 pos_imp_zdiv_nonneg_iff)
  then have b: "b = (if b = 1 then 1 else 0)" by auto
  have "n = a * 2 ^ p + n mod 2 ^ p" "a = b * 2 ^ w + a mod 2 ^ w"
    unfolding a_def b_def by (rule div_mult_mod_eq [symmetric])+
  then have "n = b * 2 ^ w * 2 ^ p + (a mod 2 ^ w * 2 ^ p + n mod 2 ^ p)"
    by (metis (no_types) add.assoc distrib_right)
  then have "n = fp_pack p w (b = 1) (a mod 2 ^ w) (n mod 2 ^ p)"
    by (subst (asm) b) (auto simp: fp_pack_def power_add mult.commute)
  then show ?thesis by (rule that) simp_all
qed

lemma fp_decode_pack:
  assumes "0 \<le> fr" "fr < 2 ^ p" "0 \<le> ex" "ex < 2 ^ w"
  shows "fp_decode p w (fp_pack p w s ex fr) =
     (if ex = 2 ^ w - 1 then (if fr = 0 then FP_Inf s else FP_NaN)
      else if ex = 0 then FP_Fin s fr (fp_emin p w)
      else FP_Fin s (2 ^ p + fr) (fp_emin p w + ex - 1))"
  using assms by (simp add: fp_decode_def fp_fields)

text \<open>A pattern that is not a NaN is the encoding of its own value.\<close>

lemma fp_encode_decode:
  assumes n: "0 \<le> n" "n < 2 ^ (p + w + 1)" and nan: "fp_decode p w n \<noteq> FP_NaN"
  shows "fp_encode p w (fp_decode p w n) = n"
proof -
  from n obtain s ex fr where n_eq: "n = fp_pack p w s ex fr"
    and fr: "0 \<le> fr" "fr < 2 ^ p" and ex: "0 \<le> ex" "ex < 2 ^ w" by (rule fp_pack_exists)
  note dec = fp_decode_pack [OF fr ex, of s, folded n_eq]
  consider "ex = 2 ^ w - 1" | "ex \<noteq> 2 ^ w - 1" "ex = 0" | "0 < ex" "ex < 2 ^ w - 1"
    using ex by linarith
  then show ?thesis
  proof cases
    case 1
    with nan have "fp_decode p w n = FP_Inf s" "fr = 0"
      unfolding dec by (auto split: if_splits)
    moreover from this 1 have "n = (if s then 2 ^ (p + w) else 0) + (2 ^ w - 1) * 2 ^ p"
      unfolding n_eq fp_pack_def by simp
    ultimately show ?thesis by (simp only: fp_encode_def fp.case)
  next
    case 2
    then have "fp_decode p w n = FP_Fin s fr (fp_emin p w)" unfolding dec by simp
    moreover have "fr = 0 \<or> bitlen fr \<le> p" using fr bitlen_le [of fr p] by linarith
    moreover have "1 * 2 ^ p \<le> (2 ^ w - 1) * (2 ^ p :: int)"
      using 2 ex by (intro mult_right_mono) (linarith, simp)
    with fr(2) have "fr \<le> (2 ^ w - 1) * 2 ^ p" by linarith
    moreover from calculation(2) have "fr \<noteq> 0 \<Longrightarrow>
        max (fp_emin p w + int (bitlen fr) - int p - 1) (fp_emin p w) = fp_emin p w" by auto
    ultimately have "fp_encode p w (fp_decode p w n) = (if s then 2 ^ (p + w) else 0) + fr"
      by (simp add: fp_encode_def fp_magnitude_def Let_def)
    with 2 show ?thesis by (simp add: n_eq fp_pack_def)
  next
    case 3
    then have "fp_decode p w n = FP_Fin s (2 ^ p + fr) (fp_emin p w + ex - 1)" unfolding dec by simp
    moreover have "bitlen (2 ^ p + fr) = Suc p" using fr by (intro bitlen_unique) auto
    moreover have "(ex + 1) * 2 ^ p \<le> (2 ^ w - 1) * 2 ^ p" using 3 by (intro mult_right_mono) auto
    then have "(ex - 1) * 2 ^ p + (2 ^ p + fr) \<le> (2 ^ w - 1) * 2 ^ p"
      using fr by (simp add: algebra_simps)
    moreover have "2 ^ p + fr \<noteq> 0" using fr by (smt (verit) zero_less_power)
    moreover have "max (fp_emin p w + ex - 1 + int (Suc p) - int p - 1) (fp_emin p w) = fp_emin p w + ex - 1"
      using 3 by auto
    ultimately have "fp_encode p w (fp_decode p w n) =
        (if s then 2 ^ (p + w) else 0) + ((ex - 1) * 2 ^ p + (2 ^ p + fr))"
      using 3 by (simp add: fp_encode_def fp_magnitude_def Let_def)
    then show ?thesis by (simp add: n_eq fp_pack_def algebra_simps)
  qed
qed

lemma fp_decode_range:
  assumes "fp_decode p w n = FP_Fin s m e"
  shows "0 \<le> m \<and> m < 2 ^ (p + 1) \<and> fp_emin p w \<le> e \<and> e \<le> fp_emin p w + 2 ^ w - 2"
proof -
  define fr ex where "fr = n mod 2 ^ p" and "ex = n div 2 ^ p mod 2 ^ w"
  have "0 \<le> fr" "fr < 2 ^ p" "0 \<le> ex" "ex < 2 ^ w" by (simp_all add: fr_def ex_def)
  moreover have "if ex = 0 then m = fr \<and> e = fp_emin p w \<and> ex \<noteq> 2 ^ w - 1
      else m = 2 ^ p + fr \<and> e = fp_emin p w + ex - 1 \<and> ex \<noteq> 2 ^ w - 1"
    using assms unfolding fp_decode_def Let_def fr_def [symmetric] ex_def [symmetric]
    by (simp split: if_splits)
  ultimately show ?thesis by (cases w) (auto split: if_splits)
qed

text \<open>A value with at most \<open>p + 1\<close> significant bits in the exponent range is represented exactly.\<close>

lemma fp_decode_encode:
  assumes m: "0 < m" "bitlen m \<le> p + 1" and w: "2 \<le> w"
    and lo: "fp_emin p w \<le> e + int (bitlen m) - int p - 1"
    and hi: "e + int (bitlen m) - int p - 1 \<le> fp_emin p w + 2 ^ w - 3"
  shows "fp_decode p w (fp_encode p w (FP_Fin s m e)) =
    FP_Fin s (m * 2 ^ (p + 1 - bitlen m)) (e - int (p + 1 - bitlen m))"
    and "0 \<le> fp_encode p w (FP_Fin s m e) \<and> fp_encode p w (FP_Fin s m e) < 2 ^ (p + w + 1)"
proof -
  define k where "k = p + 1 - bitlen m"
  define E where "E = e - int k"
  have E: "E = e + int (bitlen m) - int p - 1" using m by (simp add: E_def k_def)
  have l: "bitlen (m * 2 ^ k) = Suc p" using m by (simp add: bitlen_shift k_def)
  have M: "2 ^ p \<le> m * 2 ^ k" "m * 2 ^ k < 2 ^ Suc p"
    using bitlen_bounds [of "m * 2 ^ k"] m by (simp_all add: l)
  define ex where "ex = E - fp_emin p w + 1"
  have ex: "0 < ex" "ex < 2 ^ w - 1" using lo hi by (simp_all add: ex_def E)
  have "(ex + 1) * 2 ^ p \<le> (2 ^ w - 1) * 2 ^ p" using ex by (intro mult_right_mono) auto
  then have "(E - fp_emin p w) * 2 ^ p + m * 2 ^ k \<le> (2 ^ w - 1) * 2 ^ p"
    using M by (simp add: ex_def algebra_simps)
  moreover have "max (e + int (bitlen m) - int p - 1) (fp_emin p w) = E" using lo by (simp add: E)
  moreover have "E \<le> e" "nat (e - E) = k" by (simp_all add: E_def)
  ultimately have "fp_magnitude p w m e = (E - fp_emin p w) * 2 ^ p + m * 2 ^ k"
    by (simp add: fp_magnitude_def Let_def)
  also have "\<dots> = ex * 2 ^ p + (m * 2 ^ k - 2 ^ p)" by (simp add: ex_def algebra_simps)
  finally have enc: "fp_encode p w (FP_Fin s m e) = fp_pack p w s ex (m * 2 ^ k - 2 ^ p)"
    using m by (simp add: fp_encode_def fp_pack_def)
  show "0 \<le> fp_encode p w (FP_Fin s m e) \<and> fp_encode p w (FP_Fin s m e) < 2 ^ (p + w + 1)"
    unfolding enc using M ex by (intro fp_pack_range) auto
  show "fp_decode p w (fp_encode p w (FP_Fin s m e)) =
      FP_Fin s (m * 2 ^ (p + 1 - bitlen m)) (e - int (p + 1 - bitlen m))"
    using fp_decode_pack [of "m * 2 ^ k - 2 ^ p" p ex w s] M ex
    by (simp add: enc) (simp add: ex_def E_def k_def)
qed


section \<open>The conversions of the gateway\<close>

lemma f64_val_range: "0 \<le> uint (f64_bits x) \<and> uint (f64_bits x) < 2 ^ (52 + 11 + 1)"
  using uint_bounded [of "f64_bits x"] by simp

lemma f64_of_val: "f64_val x \<noteq> FP_NaN \<Longrightarrow> f64_of (f64_val x) = x"
  using fp_encode_decode [of "uint (f64_bits x)" 52 11] f64_val_range [of x]
  by (cases x) (simp add: f64_of_def f64_val_def)

lemma f32_of_val: "f32_val x \<noteq> FP_NaN \<Longrightarrow> f32_of (f32_val x) = x"
  using fp_encode_decode [of "uint (f32_bits x)" 23 8] uint_bounded [of "f32_bits x"]
  by (cases x) (simp add: f32_of_def f32_val_def)

lemma f64_val_of_exact:
  assumes "0 < m" "bitlen m \<le> 53" "- 1021 \<le> e + int (bitlen m)" "e + int (bitlen m) \<le> 1024"
  shows "f64_val (f64_of (FP_Fin s m e)) = FP_Fin s (m * 2 ^ (53 - bitlen m)) (e - int (53 - bitlen m))"
  using fp_decode_encode [of m 52 11 e s] assms
  by (simp add: f64_val_def f64_of_def uint_word_of_int fp_emin_def)

lemma fp_trunc_shift: "0 < m \<Longrightarrow> fp_trunc (FP_Fin s (m * 2 ^ k) (- int k)) = Some (if s then - m else m)"
  by simp

text \<open>An integer of at most 53 bits goes through a float64 unchanged.\<close>

lemma f64_trunc_of_int: "\<bar>i\<bar> \<le> 2 ^ 53 \<Longrightarrow> fp_trunc (f64_val (f64_of_int i)) = Some i"
proof -
  assume i: "\<bar>i\<bar> \<le> 2 ^ 53"
  consider "i = 0" | "\<bar>i\<bar> = 2 ^ 53" | "0 < \<bar>i\<bar>" "\<bar>i\<bar> < 2 ^ 53" using i by linarith
  then show ?thesis
  proof cases
    case 1
    then show ?thesis
      by (simp add: f64_of_int_def fp_of_int_def f64_of_def f64_val_def fp_encode_def fp_decode_def)
  next
    case 2
    then have "i = 2 ^ 53 \<or> i = - (2 ^ 53)" by linarith
    then show ?thesis by (elim disjE) (simp_all add: f64_eval)
  next
    case 3
    then have l: "bitlen \<bar>i\<bar> \<le> 53" by (intro bitlen_le)
    with 3 f64_val_of_exact [of "\<bar>i\<bar>" 0 "i < 0"]
    have "f64_val (f64_of_int i) = FP_Fin (i < 0) (\<bar>i\<bar> * 2 ^ (53 - bitlen \<bar>i\<bar>)) (- int (53 - bitlen \<bar>i\<bar>))"
      by (simp add: f64_of_int_def fp_of_int_def)
    with 3 fp_trunc_shift [of "\<bar>i\<bar>" "i < 0" "53 - bitlen \<bar>i\<bar>"] show ?thesis by auto
  qed
qed

text \<open>An integer reading of at most 53 bits survives the detour through \<open>float64\<close> that the gateway
  makes when a variable has a rate: converting it and truncating back gives the integer.\<close>

lemma f64_of_int_exact:
  assumes "\<bar>i\<bar> \<le> 2 ^ 53" and "lo \<le> i" and "i \<le> hi"
  shows "f64_to_int oor lo hi (f64_of_int i) = i"
  using assms by (simp add: f64_to_int_def f64_trunc_of_int)

text \<open>The bound is sharp: the next odd integer is rounded to an even one.\<close>

lemma f64_of_int_inexact: "f64_to_int oor (- (2 ^ 63)) (2 ^ 63 - 1) (f64_of_int (2 ^ 53 + 1)) = 2 ^ 53"
  by (simp add: f64_to_int_def f64_eval)

text \<open>A float32 value widened to float64 and narrowed again is the same bit pattern, for every value
  but the NaNs.\<close>

lemma f32_widen_narrow:
  assumes "f32_val x \<noteq> FP_NaN"
  shows "f32_of_f64 (f64_of_f32 x) = x"
proof (cases "f32_val x")
  case (FP_Inf s)
  then have "f64_val (f64_of_f32 x) = FP_Inf s"
    by (cases s) (simp_all add: f64_of_f32_def f64_val_def f64_of_def fp_encode_def fp_decode_def)
  then show ?thesis using f32_of_val [OF assms] FP_Inf by (simp add: f32_of_f64_def)
next
  case (FP_Fin s m e)
  then have m: "0 \<le> m" "m < 2 ^ 24" and e: "- 149 \<le> e" "e \<le> 106"
    using fp_decode_range [of 23 8 "uint (f32_bits x)" s m e]
    by (simp_all add: f32_val_def fp_emin_def)
  show ?thesis
  proof (cases "m = 0")
    case True
    then have "f64_val (f64_of_f32 x) = FP_Fin s 0 (-1074)" 
      using FP_Fin by (cases s) (simp_all add: f64_of_f32_def f64_val_def f64_of_def fp_encode_def fp_decode_def fp_emin_def)
    then have "f32_of_f64 (f64_of_f32 x) = f32_of (FP_Fin s m e)" using True by (simp add: f32_of_f64_def f32_of_def fp_encode_def)
    then show ?thesis using f32_of_val [OF assms] FP_Fin by simp
  next
    case False
    with m have l: "bitlen m \<le> 24" by (intro bitlen_le) auto
    with False m e have "f64_val (f64_of_f32 x) = FP_Fin s (m * 2 ^ (53 - bitlen m)) (e - int (53 - bitlen m))"
      by (simp add: f64_of_f32_def FP_Fin f64_val_of_exact)
    then have "f32_of_f64 (f64_of_f32 x) = f32_of (FP_Fin s m e)"
      using False m by (simp add: f32_of_f64_def f32_of_def fp_encode_def fp_magnitude_shift)
    then show ?thesis using f32_of_val [OF assms] FP_Fin by simp
  qed
qed (use assms in simp)

end
