(* ===== verification/RuntimeMeta.thy ===== *)
theory RuntimeMeta
  imports Constants GoFloat
begin

text \<open>
  Model of the object metadata of \<^verbatim>\<open>pkg/runtime/meta.go\<close>, shared by all device kinds, of the
  collect-status names, and of the dynamically typed values (\<^verbatim>\<open>interface{}\<close>) that variables carry.
\<close>

section \<open>Values of interface type\<close>

datatype GoValue = VNil | VBool bool | VInt16 u16 | VUint16 u16 | VInt32 u32 | VUint32 u32
  | VInt64 u64 | VFloat32 f32 | VFloat64 f64 | VString string
  | VList "GoValue list" | VMap "(string \<times> GoValue) list"

section \<open>Metadata\<close>

record ObjectMeta =
  om_Name :: string
  om_ID :: string
  om_Version :: string
  om_ModTime :: int

record PublishMeta =
  pm_Topic :: string

record DeviceMeta =
  dm_ObjectMeta :: ObjectMeta
  dm_PublishMeta :: PublishMeta
  dm_DeviceCode :: string
  dm_DeviceType :: string
  dm_DeviceModel :: string
  dm_CollectStatus :: string

section \<open>Errors of the brokers and managers\<close>

datatype broker_error = ErrDeviceType | ErrConnectDevice | ErrDeviceServerClosed | ErrDeviceEmptyVariable

section \<open>Status names\<close>

datatype CollectStatus = Collecting | CollectingError | Unconnected | EmptyVariable | Stopped | StatusError

definition CollectStatusToString :: "CollectStatus \<Rightarrow> string option" where
  "CollectStatusToString =
    [Collecting \<mapsto> ''collecting'',
     CollectingError \<mapsto> ''collectingError'',
     Unconnected \<mapsto> ''unconnected'',
     EmptyVariable \<mapsto> ''emptyVariable'',
     Stopped \<mapsto> ''stopped'',
     StatusError \<mapsto> ''error'']"

definition StringToCollectStatus :: "string \<Rightarrow> CollectStatus option" where
  "StringToCollectStatus =
    [''collecting'' \<mapsto> Collecting,
     ''collectingError'' \<mapsto> CollectingError,
     ''unconnected'' \<mapsto> Unconnected,
     ''emptyVariable'' \<mapsto> EmptyVariable,
     ''stopped'' \<mapsto> Stopped,
     ''error'' \<mapsto> StatusError]"

datatype DeviceStatusCh = Restart | Start | Stop

definition DeviceStatusChToString :: "DeviceStatusCh \<Rightarrow> string option" where
  "DeviceStatusChToString = [Restart \<mapsto> ''restart'', Start \<mapsto> ''start'', Stop \<mapsto> ''stop'']"

definition StringToDeviceStatusCh :: "string \<Rightarrow> DeviceStatusCh option" where
  "StringToDeviceStatusCh = [''restart'' \<mapsto> Restart, ''start'' \<mapsto> Start, ''stop'' \<mapsto> Stop]"

interpretation status_names: enum_names CollectStatusToString StringToCollectStatus
proof
  show "\<exists>s. CollectStatusToString v = Some s" for v
    by (cases v) (simp_all add: CollectStatusToString_def)
  show "StringToCollectStatus s = Some v \<longleftrightarrow> CollectStatusToString v = Some s" for s v
    by (cases v) (auto simp: StringToCollectStatus_def CollectStatusToString_def fun_upd_eq_Some_iff)
qed

interpretation status_ch_names: enum_names DeviceStatusChToString StringToDeviceStatusCh
proof
  show "\<exists>s. DeviceStatusChToString v = Some s" for v
    by (cases v) (simp_all add: DeviceStatusChToString_def)
  show "StringToDeviceStatusCh s = Some v \<longleftrightarrow> DeviceStatusChToString v = Some s" for s v
    by (cases v) (auto simp: StringToDeviceStatusCh_def DeviceStatusChToString_def fun_upd_eq_Some_iff)
qed

text \<open>Both tables are used as expressions; a missing key gives the zero value.\<close>

definition collect_status_name :: "CollectStatus \<Rightarrow> string" where
  "collect_status_name st = (case CollectStatusToString st of Some s \<Rightarrow> s | None \<Rightarrow> [])"

definition collect_status_of :: "string \<Rightarrow> CollectStatus" where
  "collect_status_of s = (case StringToCollectStatus s of Some st \<Rightarrow> st | None \<Rightarrow> Collecting)"

definition device_status_ch_of :: "string \<Rightarrow> DeviceStatusCh" where
  "device_status_ch_of s = (case StringToDeviceStatusCh s of Some c \<Rightarrow> c | None \<Rightarrow> Restart)"

lemma collect_status_of_name [simp]: "collect_status_of (collect_status_name st) = st"
  using status_names.total [of st]
  by (auto simp: collect_status_of_def collect_status_name_def status_names.name_of)

lemma collect_status_name_inj [simp]: "collect_status_name st = collect_status_name st' \<longleftrightarrow> st = st'"
  by (metis collect_status_of_name)

end
