(* ===== verification/ModbusTypes.thy ===== *)
theory ModbusTypes
  imports RuntimeMeta
begin

text \<open>
  Model of \<^verbatim>\<open>pkg/protocol/modbus/runtime/type.go\<close> and \<^verbatim>\<open>constant.go\<close>: the Modbus variables,
  devices and data frames, and \<open>ParseVariableValue\<close>, which turns the payload of a response into the
  values of the variables of a frame. A Go pointer to a variable is the variable itself; an
  operation that updates it through the pointer returns the frame with the new variables. The
  parameter \<open>oor\<close> of the conversions is the implementation-defined result of an out-of-range
  conversion from a floating-point number to an integer.
\<close>

section \<open>Constants\<close>

datatype modbus_error = ErrModbusBadConn | ErrModbusServerBadResp | ErrMessageTransaction
  | ErrMessageSlave | ErrMessageDataLengthNotEnough | ErrMessageFunctionCodeError
  | ErrManyRetry | ErrCRC16Error

datatype ModbusModel = Tcp | Rtu | RtuOverTcp

definition ModbusModelToString :: "ModbusModel \<Rightarrow> string option" where
  "ModbusModelToString =
    [Tcp \<mapsto> ''modbusTcp'', Rtu \<mapsto> ''modbusRtu'', RtuOverTcp \<mapsto> ''modbusRtuOverTcp'']"

definition StringToModbusModel :: "string \<Rightarrow> ModbusModel option" where
  "StringToModbusModel =
    [''modbusTcp'' \<mapsto> Tcp, ''modbusRtu'' \<mapsto> Rtu, ''modbusRtuOverTcp'' \<mapsto> RtuOverTcp]"

interpretation modbus_model_names: enum_names ModbusModelToString StringToModbusModel
proof
  show "\<exists>s. ModbusModelToString v = Some s" for v
    by (cases v) (simp_all add: ModbusModelToString_def)
  show "StringToModbusModel s = Some v \<longleftrightarrow> ModbusModelToString v = Some s" for s v
    by (cases v) (auto simp: StringToModbusModel_def ModbusModelToString_def fun_upd_eq_Some_iff)
qed

definition ReadCoilStatus :: byte where [simp]: "ReadCoilStatus = 1"
definition ReadInputStatus :: byte where [simp]: "ReadInputStatus = 2"
definition ReadHoldRegister :: byte where [simp]: "ReadHoldRegister = 3"
definition ReadInputRegister :: byte where [simp]: "ReadInputRegister = 4"
definition WriteSingleCoil :: byte where [simp]: "WriteSingleCoil = 5"
definition WriteSingleRegister :: byte where [simp]: "WriteSingleRegister = 6"
definition WriteMultipleCoil :: byte where [simp]: "WriteMultipleCoil = 15"
definition WriteMultipleRegister :: byte where [simp]: "WriteMultipleRegister = 16"

definition PerRequestMaxCoil :: uint where [simp]: "PerRequestMaxCoil = 1983"
definition PerRequestMaxRegister :: uint where [simp]: "PerRequestMaxRegister = 123"

section \<open>Variables, devices and frames\<close>

record ModbusVariable =
  mv_DataType :: DataType
  mv_Name :: string
  mv_Address :: uint
  mv_Bits :: byte
  mv_FunctionCode :: byte
  mv_Rate :: f64
  mv_Amount :: uint
  mv_DefaultValue :: GoValue
  mv_Value :: GoValue
  mv_AccessMode :: AccessMode

definition mv_SetValue :: "GoValue \<Rightarrow> ModbusVariable \<Rightarrow> ModbusVariable" where
  "mv_SetValue value v = v\<lparr>mv_Value := value\<rparr>"

record ModbusOption =
  mo_Port :: int
  mo_BaudRate :: int
  mo_DataBits :: int
  mo_Parity :: Parity
  mo_StopBits :: StopBits

record ModbusAddress =
  ma_Location :: string
  ma_Option :: ModbusOption

record ModBusDevice =
  md_DeviceMeta :: DeviceMeta
  md_CollectorCycle :: uint
  md_VariableInterval :: uint
  md_Address :: ModbusAddress
  md_Slave :: uint
  md_MemoryLayout :: MemoryLayout
  md_PositionAddress :: uint
  md_Variables :: "ModbusVariable list"
  md_VariablesMap :: "string \<Rightarrow> ModbusVariable option"

definition ModBus_IndexDevice :: "ModBusDevice \<Rightarrow> ModBusDevice" where
  "ModBus_IndexDevice m =
     m\<lparr>md_VariablesMap := foldl (\<lambda>vm v. vm(mv_Name v \<mapsto> v)) (\<lambda>_. None) (md_Variables m)\<rparr>"

definition ModBus_GetVariable :: "ModBusDevice \<Rightarrow> string \<Rightarrow> ModbusVariable option" where
  "ModBus_GetVariable m key = md_VariablesMap m key"

text \<open>The order in which \<open>sort.Sort\<close> arranges the variables of one function code.\<close>

definition VariableSlice_Less :: "ModbusVariable \<Rightarrow> ModbusVariable \<Rightarrow> bool" where
  "VariableSlice_Less v w = (mv_Address v < mv_Address w)"

record VariableParse =
  vp_Variable :: ModbusVariable
  vp_Start :: uint

record ModBusDataFrame =
  df_Slave :: uint
  df_MemoryLayout :: MemoryLayout
  df_StartAddress :: uint
  df_FunctionCode :: byte
  df_MaxDataSize :: uint
  df_TransactionId :: u16
  df_DataFrame :: "byte list"
  df_ResponseDataFrame :: "byte list"
  df_Variables :: "VariableParse list"

definition WriteTransactionId :: "ModBusDataFrame \<Rightarrow> ModBusDataFrame option" where
  "WriteTransactionId df =
     (let id = df_TransactionId df + 1
      in do { frame \<leftarrow> WriteUint16BigEndian (df_DataFrame df) id;
              Some (df\<lparr>df_TransactionId := id, df_DataFrame := frame\<rparr>) })"

section \<open>Parsing a payload\<close>

text \<open>\<open>Rate != 0 && Rate != 1\<close>.\<close>

definition rated :: "f64 \<Rightarrow> bool" where
  "rated r = (\<not> f64_eq r f64_zero \<and> \<not> f64_eq r f64_one)"

text \<open>The four branches on the memory layout, for each width of the reading.\<close>

definition read_word16 :: "MemoryLayout \<Rightarrow> byte list \<Rightarrow> u16 option" where
  "read_word16 ml vpData =
     (case ml of
        ABCD \<Rightarrow> ParseUint16BigEndian vpData
      | CDAB \<Rightarrow> ParseUint16BigEndian vpData
      | BADC \<Rightarrow> ParseUint16LittleEndian vpData
      | DCBA \<Rightarrow> ParseUint16LittleEndian vpData)"

definition read_word32 :: "MemoryLayout \<Rightarrow> byte list \<Rightarrow> u32 option" where
  "read_word32 ml vpData =
     (case ml of
        ABCD \<Rightarrow> ParseUint32BigEndian vpData
      | BADC \<Rightarrow> ParseUint32BigEndianByteSwap vpData
      | CDAB \<Rightarrow> ParseUint32LittleEndianByteSwap vpData
      | DCBA \<Rightarrow> ParseUint32LittleEndian vpData)"

definition read_word64 :: "MemoryLayout \<Rightarrow> byte list \<Rightarrow> u64 option" where
  "read_word64 ml vpData =
     (case ml of
        ABCD \<Rightarrow> ParseUint64BigEndian vpData
      | BADC \<Rightarrow> ParseUint64BigEndianByteSwap vpData
      | CDAB \<Rightarrow> ParseUint64LittleEndianByteSwap vpData
      | DCBA \<Rightarrow> ParseUint64LittleEndian vpData)"

definition read_float32 :: "MemoryLayout \<Rightarrow> byte list \<Rightarrow> f32 option" where
  "read_float32 ml vpData =
     (case ml of
        ABCD \<Rightarrow> ParseFloat32BigEndian vpData
      | BADC \<Rightarrow> ParseFloat32BigEndianByteSwap vpData
      | CDAB \<Rightarrow> ParseFloat32LittleEndianByteSwap vpData
      | DCBA \<Rightarrow> ParseFloat32LittleEndian vpData)"

definition read_float64 :: "MemoryLayout \<Rightarrow> byte list \<Rightarrow> f64 option" where
  "read_float64 ml vpData =
     (case ml of
        ABCD \<Rightarrow> ParseFloat64BigEndian vpData
      | BADC \<Rightarrow> ParseFloat64BigEndianByteSwap vpData
      | CDAB \<Rightarrow> ParseFloat64LittleEndianByteSwap vpData
      | DCBA \<Rightarrow> ParseFloat64LittleEndian vpData)"

type_synonym float_oor = "int \<Rightarrow> int \<Rightarrow> f64 \<Rightarrow> int"

text \<open>The value of a coil or an input status, from its expanded byte.\<close>

definition coil_value :: "DataType \<Rightarrow> byte \<Rightarrow> GoValue" where
  "coil_value dt b =
     (case dt of
        BOOL \<Rightarrow> VBool (b = 1)
      | INT16 \<Rightarrow> VInt16 (ucast b)
      | UINT16 \<Rightarrow> VUint16 (ucast b)
      | INT32 \<Rightarrow> VInt32 (ucast b)
      | INT64 \<Rightarrow> VInt64 (ucast b)
      | FLOAT32 \<Rightarrow> VFloat32 (f32_of_int (uint b))
      | FLOAT64 \<Rightarrow> VFloat64 (f64_of_int (uint b))
      | _ \<Rightarrow> VNil)"

text \<open>The value of a holding or an input register, from the payload at its start.\<close>

definition register_value ::
  "float_oor \<Rightarrow> MemoryLayout \<Rightarrow> ModbusVariable \<Rightarrow> byte list \<Rightarrow> GoValue option" where
  "register_value oor ml var vpData =
     (let rate = mv_Rate var in
      case mv_DataType var of
        BOOL \<Rightarrow> do { v \<leftarrow> read_word16 ml vpData;
                     Some (VBool (push_bit (unat (mv_Bits var - 1)) 1 AND v \<noteq> 0)) }
      | INT16 \<Rightarrow> do { v \<leftarrow> read_word16 ml vpData;
                     Some (VInt16 (if rated rate
                       then word_of_int (f64_to_int oor (- 0x8000) 0x7FFF (f64_mul (f64_of_int (sint v)) rate))
                       else v)) }
      | UINT16 \<Rightarrow> do { v \<leftarrow> read_word16 ml vpData;
                     Some (VUint16 (if rated rate
                       then word_of_int (f64_to_int oor 0 0xFFFF (f64_mul (f64_of_int (uint v)) rate))
                       else v)) }
      | INT32 \<Rightarrow> do { v \<leftarrow> read_word32 ml vpData;
                     Some (VInt32 (if rated rate
                       then word_of_int (f64_to_int oor (- 0x80000000) 0x7FFFFFFF (f64_mul (f64_of_int (sint v)) rate))
                       else v)) }
      | INT64 \<Rightarrow> do { v \<leftarrow> read_word64 ml vpData;
                     Some (VInt64 (if rated rate
                       then word_of_int (f64_to_int oor (- 0x8000000000000000) 0x7FFFFFFFFFFFFFFF
                              (f64_mul (f64_of_int (sint v)) rate))
                       else v)) }
      | FLOAT32 \<Rightarrow> do { v \<leftarrow> read_float32 ml vpData;
                     Some (VFloat32 (if rated rate then f32_mul v (f32_of_f64 rate) else v)) }
      | FLOAT64 \<Rightarrow> do { v \<leftarrow> read_float64 ml vpData;
                     Some (VFloat64 (if rated rate then f64_mul v rate else v)) }
      | _ \<Rightarrow> Some VNil)"

definition parse_variable_value ::
  "float_oor \<Rightarrow> byte \<Rightarrow> MemoryLayout \<Rightarrow> byte list \<Rightarrow> VariableParse \<Rightarrow> GoValue option" where
  "parse_variable_value oor fc ml data vp =
     (if fc = ReadInputStatus \<or> fc = ReadCoilStatus then
        (if mv_DataType (vp_Variable vp) \<in> {NUMBER, STRING} then Some VNil
         else do { b \<leftarrow> index_at data (unat (vp_Start vp));
                   Some (coil_value (mv_DataType (vp_Variable vp)) b) })
      else if fc = ReadInputRegister \<or> fc = ReadHoldRegister then
        do { vpData \<leftarrow> slice_from data (unat (vp_Start vp));
             register_value oor ml (vp_Variable vp) vpData }
      else Some VNil)"

text \<open>The copy appended to the result: every field but the access mode.\<close>

definition reported :: "ModbusVariable \<Rightarrow> ModbusVariable" where
  "reported v =
     \<lparr>mv_DataType = mv_DataType v, mv_Name = mv_Name v, mv_Address = mv_Address v,
      mv_Bits = mv_Bits v, mv_FunctionCode = mv_FunctionCode v, mv_Rate = mv_Rate v,
      mv_Amount = mv_Amount v, mv_DefaultValue = mv_DefaultValue v, mv_Value = mv_Value v,
      mv_AccessMode = AccessModeReadOnly\<rparr>"

primrec parse_variables ::
  "float_oor \<Rightarrow> byte \<Rightarrow> MemoryLayout \<Rightarrow> byte list \<Rightarrow> VariableParse list \<Rightarrow>
   (VariableParse list \<times> ModbusVariable list) option" where
  "parse_variables oor fc ml data [] = Some ([], [])"
| "parse_variables oor fc ml data (vp # vps) =
     do { value \<leftarrow> parse_variable_value oor fc ml data vp;
          let v = mv_SetValue value (vp_Variable vp);
          (vps', vvs) \<leftarrow> parse_variables oor fc ml data vps;
          Some (vp\<lparr>vp_Variable := v\<rparr> # vps', reported v # vvs) }"

definition ParseVariableValue ::
  "float_oor \<Rightarrow> ModBusDataFrame \<Rightarrow> byte list \<Rightarrow> (ModBusDataFrame \<times> ModbusVariable list) option" where
  "ParseVariableValue oor df data =
     do { (vps, vvs) \<leftarrow> parse_variables oor (df_FunctionCode df) (df_MemoryLayout df) data (df_Variables df);
          Some (df\<lparr>df_Variables := vps\<rparr>, vvs) }"

end
