(* ===== verification/S7Types.thy ===== *)
theory S7Types
  imports RuntimeMeta GoStrings
begin

text \<open>
  Model of \<^verbatim>\<open>pkg/protocol/s7/runtime\<close>: the store areas of a Siemens S7 controller, the variables, and the
  addresses, which are strings such as \<^verbatim>\<open>IW10\<close>, \<^verbatim>\<open>M3.5\<close> or \<^verbatim>\<open>DB7.DBX22.0\<close> that the program takes apart
  whenever it needs them. \<open>None\<close> is a panic: a slice out of range.
\<close>

section \<open>Areas and address types\<close>

datatype s7_error = S7BadConn | S7CommandFailed | S7ServerBadResp | S7ManyRetry | S7ConnectCotp
  | S7ConnectS7COMM | S7DataLengthNotEnough | S7ResponseError

datatype S7StoreArea = AreaI | AreaQ | AreaM | AreaDB

datatype AddressType = AddrString | AddrBool | AddrByte | AddrWord | AddrDWord

definition StoreAddressToString :: "S7StoreArea \<Rightarrow> string option" where
  "StoreAddressToString = [AreaI \<mapsto> ''I'', AreaQ \<mapsto> ''Q'', AreaM \<mapsto> ''M'', AreaDB \<mapsto> ''DB'']"

definition StringToStoreAddress :: "string \<Rightarrow> S7StoreArea option" where
  "StringToStoreAddress = [''I'' \<mapsto> AreaI, ''Q'' \<mapsto> AreaQ, ''M'' \<mapsto> AreaM, ''DB'' \<mapsto> AreaDB]"

definition AddressTypeToString :: "AddressType \<Rightarrow> string option" where
  "AddressTypeToString = [AddrString \<mapsto> ''STRING'', AddrBool \<mapsto> ''X'', AddrByte \<mapsto> ''B'', AddrWord \<mapsto> ''W'', AddrDWord \<mapsto> ''D'']"

definition StringToAddressType :: "string \<Rightarrow> AddressType option" where
  "StringToAddressType = [''STRING'' \<mapsto> AddrString, ''X'' \<mapsto> AddrBool, ''B'' \<mapsto> AddrByte, ''W'' \<mapsto> AddrWord, ''D'' \<mapsto> AddrDWord]"

interpretation store_area_names: enum_names StoreAddressToString StringToStoreAddress
proof
  show "\<exists>s. StoreAddressToString v = Some s" for v
    by (cases v) (simp_all add: StoreAddressToString_def)
  show "StringToStoreAddress s = Some v \<longleftrightarrow> StoreAddressToString v = Some s" for s v
    by (cases v) (auto simp: StringToStoreAddress_def StoreAddressToString_def fun_upd_eq_Some_iff)
qed

interpretation address_type_names: enum_names AddressTypeToString StringToAddressType
proof
  show "\<exists>s. AddressTypeToString v = Some s" for v
    by (cases v) (simp_all add: AddressTypeToString_def)
  show "StringToAddressType s = Some v \<longleftrightarrow> AddressTypeToString v = Some s" for s v
    by (cases v) (auto simp: StringToAddressType_def AddressTypeToString_def fun_upd_eq_Some_iff)
qed

fun StoreAreaCode :: "S7StoreArea \<Rightarrow> byte" where
  "StoreAreaCode AreaI = 129"
| "StoreAreaCode AreaQ = 130"
| "StoreAreaCode AreaM = 131"
| "StoreAreaCode AreaDB = 132"

fun StoreAreaTransportSize :: "S7StoreArea \<Rightarrow> byte" where
  "StoreAreaTransportSize AreaI = 2"
| "StoreAreaTransportSize AreaQ = 2"
| "StoreAreaTransportSize AreaM = 2"
| "StoreAreaTransportSize AreaDB = 4"

section \<open>Variables and devices\<close>

record S7Variable =
  sv_DataType :: DataType
  sv_Name :: string
  sv_Address :: string
  sv_Rate :: f64
  sv_DefaultValue :: GoValue
  sv_Value :: GoValue
  sv_AccessMode :: AccessMode

definition sv_SetValue :: "GoValue \<Rightarrow> S7Variable \<Rightarrow> S7Variable" where
  "sv_SetValue value v = v\<lparr>sv_Value := value\<rparr>"

record S7AddressOption =
  so_Port :: uint
  so_Rack :: byte
  so_Slot :: byte

record S7Address =
  sa_Location :: string
  sa_Option :: S7AddressOption

record S7Device =
  sd_DeviceMeta :: DeviceMeta
  sd_CollectorCycle :: uint
  sd_VariableInterval :: uint
  sd_Address :: S7Address
  sd_Variables :: "S7Variable list"
  sd_VariablesMap :: "string \<Rightarrow> S7Variable option"

definition S7_IndexDevice :: "S7Device \<Rightarrow> S7Device" where
  "S7_IndexDevice s =
     s\<lparr>sd_VariablesMap := foldl (\<lambda>vm v. vm(sv_Name v \<mapsto> v)) (\<lambda>_. None) (sd_Variables s)\<rparr>"

definition S7_GetVariable :: "S7Device \<Rightarrow> string \<Rightarrow> S7Variable option" where
  "S7_GetVariable s key = sd_VariablesMap s key"

text \<open>The elements a read asks for, and the bytes the answer holds: bytes in the areas I, Q and M, words
  in data blocks.\<close>

definition DataRequestLength :: "S7Variable \<Rightarrow> S7StoreArea \<Rightarrow> u16" where
  "DataRequestLength v area =
     (if area = AreaDB then
        (case sv_DataType v of
           BOOL \<Rightarrow> 1 | STRING \<Rightarrow> 1 | UINT16 \<Rightarrow> 1 | INT16 \<Rightarrow> 1 | INT32 \<Rightarrow> 2 | FLOAT32 \<Rightarrow> 2
         | INT64 \<Rightarrow> 4 | FLOAT64 \<Rightarrow> 4 | _ \<Rightarrow> 1)
      else
        (case sv_DataType v of
           BOOL \<Rightarrow> 1 | STRING \<Rightarrow> 1 | UINT16 \<Rightarrow> 2 | INT16 \<Rightarrow> 2 | INT32 \<Rightarrow> 4 | FLOAT32 \<Rightarrow> 4
         | INT64 \<Rightarrow> 8 | FLOAT64 \<Rightarrow> 8 | _ \<Rightarrow> 1))"

definition DataResponseLength :: "S7Variable \<Rightarrow> S7StoreArea \<Rightarrow> u16" where
  "DataResponseLength v area =
     (if area = AreaDB then
        (case sv_DataType v of
           BOOL \<Rightarrow> 2 | STRING \<Rightarrow> 2 | UINT16 \<Rightarrow> 2 | INT16 \<Rightarrow> 2 | INT32 \<Rightarrow> 4 | FLOAT32 \<Rightarrow> 4
         | INT64 \<Rightarrow> 8 | FLOAT64 \<Rightarrow> 8 | _ \<Rightarrow> 2)
      else
        (case sv_DataType v of
           BOOL \<Rightarrow> 1 | STRING \<Rightarrow> 1 | UINT16 \<Rightarrow> 2 | INT16 \<Rightarrow> 2 | INT32 \<Rightarrow> 4 | FLOAT32 \<Rightarrow> 4
         | INT64 \<Rightarrow> 8 | FLOAT64 \<Rightarrow> 8 | _ \<Rightarrow> 1))"

definition DataTypeBitLength :: "S7Variable \<Rightarrow> u16" where
  "DataTypeBitLength v =
     (case sv_DataType v of
        BOOL \<Rightarrow> 1 | STRING \<Rightarrow> 16 | UINT16 \<Rightarrow> 16 | INT16 \<Rightarrow> 16 | INT32 \<Rightarrow> 32 | FLOAT32 \<Rightarrow> 32
      | INT64 \<Rightarrow> 64 | FLOAT64 \<Rightarrow> 64 | _ \<Rightarrow> 16)"

section \<open>Addresses\<close>

definition s7_zone :: "string \<Rightarrow> S7StoreArea" where
  "s7_zone address =
     (if has_prefix address ''I'' then AreaI
      else if has_prefix address ''M'' then AreaM
      else if has_prefix address ''DB'' then AreaDB
      else if has_prefix address ''Q'' then AreaQ
      else AreaDB)"

definition Zone :: "S7Variable \<Rightarrow> S7StoreArea" where
  "Zone v = s7_zone (sv_Address v)"

definition s7_shortening :: "string \<Rightarrow> bool" where
  "s7_shortening byteAddress =
     (if has_prefix byteAddress ''X'' \<or> has_prefix byteAddress ''B'' \<or> has_prefix byteAddress ''W'' \<or>
         has_prefix byteAddress ''D'' \<or> has_prefix byteAddress ''S'' then False
      else if has_prefix byteAddress ''DBX'' \<or> has_prefix byteAddress ''DBB'' \<or> has_prefix byteAddress ''DBW'' \<or>
         has_prefix byteAddress ''DBD'' \<or> has_prefix byteAddress ''DBS'' then False
      else True)"

text \<open>The number in front of the last dot and the bit behind it; without a dot the bit is 0.\<close>

definition parse_byte_address :: "string \<Rightarrow> u32 \<times> byte" where
  "parse_byte_address byteAddress =
     (case str_last_index byteAddress CHR ''.'' of
        None \<Rightarrow> (word_of_int (Atoi byteAddress), 0)
      | Some index \<Rightarrow>
          (word_of_int (Atoi (take index byteAddress)), word_of_int (Atoi (drop (index + 1) byteAddress))))"

text \<open>\<open>v.Address[2:index]\<close> with the index of the first dot, which is -1 without a dot.\<close>

definition s7_block :: "string \<Rightarrow> uint option" where
  "s7_block address =
     do { index \<leftarrow> str_index address CHR ''.'';
          blockSizeString \<leftarrow> slice_range address 2 index;
          Some (word_of_int (Atoi blockSizeString)) }"

definition BlockSize :: "S7Variable \<Rightarrow> uint option" where
  "BlockSize v =
     (if has_prefix (sv_Address v) ''I'' then Some 0
      else if has_prefix (sv_Address v) ''M'' then Some 0
      else if has_prefix (sv_Address v) ''DB'' then s7_block (sv_Address v)
      else Some 0)"

definition parse_s7_address :: "string \<Rightarrow> (S7StoreArea \<times> uint \<times> u32 \<times> byte) option" where
  "parse_s7_address addr =
     (let zone = s7_zone addr in
      if zone \<noteq> AreaDB then
        do { byteAddress \<leftarrow> slice_from addr 1;
             byteAddress \<leftarrow> (if \<not> s7_shortening byteAddress then slice_from byteAddress 1 else Some byteAddress);
             let (address, b) = parse_byte_address byteAddress;
             Some (zone, 0, address, b) }
      else
        do { index \<leftarrow> str_index addr CHR ''.'';
             areaSize \<leftarrow> s7_block addr;
             byteAddress \<leftarrow> slice_from addr (index + 1);
             byteAddress \<leftarrow> (if \<not> s7_shortening byteAddress then slice_from byteAddress 3 else Some byteAddress);
             let (address, b) = parse_byte_address byteAddress;
             Some (zone, areaSize, address, b) })"

definition ParseVariableAddress :: "S7Variable \<Rightarrow> (S7StoreArea \<times> uint \<times> u32 \<times> byte) option" where
  "ParseVariableAddress v = parse_s7_address (sv_Address v)"

definition S7Slice_Less :: "S7Variable \<Rightarrow> S7Variable \<Rightarrow> bool option" where
  "S7Slice_Less vi vj =
     do { (_, bsI, addressI, bitI) \<leftarrow> ParseVariableAddress vi;
          (_, bsJ, addressJ, bitJ) \<leftarrow> ParseVariableAddress vj;
          Some (if Zone vi = AreaDB \<and> bsI \<noteq> bsJ then bsI < bsJ
                else if addressI \<noteq> addressJ then addressI < addressJ
                else bitI < bitJ) }"

section \<open>The documented addresses\<close>

text \<open>The printed form of an address: the area, for a data block its number, an optional size letter, the
  byte, and an optional bit.\<close>

definition size_letters :: "string list" where
  "size_letters = [''X'', ''B'', ''W'', ''D'']"

definition s7_address_string :: "S7StoreArea \<Rightarrow> nat \<Rightarrow> string option \<Rightarrow> nat \<Rightarrow> nat option \<Rightarrow> string" where
  "s7_address_string area block letter address b =
     (case area of AreaI \<Rightarrow> ''I'' | AreaQ \<Rightarrow> ''Q'' | AreaM \<Rightarrow> ''M'' | AreaDB \<Rightarrow> ''DB'' @ show_nat block @ ''.'') @
     (case letter of None \<Rightarrow> '''' | Some l \<Rightarrow> (if area = AreaDB then ''DB'' else '''') @ l) @
     show_nat address @ (case b of None \<Rightarrow> '''' | Some i \<Rightarrow> ''.'' @ show_nat i)"

lemma not_digit [simp]: "\<not> is_digit CHR ''.''" "\<not> is_digit CHR ''X''" "\<not> is_digit CHR ''B''"
  "\<not> is_digit CHR ''W''" "\<not> is_digit CHR ''D''" "\<not> is_digit CHR ''S''"
  by (simp_all add: is_digit_def)

lemma dot_show_nat [simp]: "CHR ''.'' \<notin> set (show_nat n)"
  using show_nat_digits [of "CHR ''.''" n] by auto

lemma digits_shortening: "s7_shortening (show_nat n @ r)"
proof -
  obtain c s where "show_nat n = c # s" by (cases "show_nat n") auto
  moreover have "is_digit c" using show_nat_digits [of c n] calculation by simp
  ultimately show ?thesis by (auto simp: s7_shortening_def)
qed

lemma parse_byte_address_show:
  assumes "a < 2 ^ 32" "case b of None \<Rightarrow> True | Some i \<Rightarrow> i < 256"
  shows "parse_byte_address (show_nat a @ (case b of None \<Rightarrow> '''' | Some i \<Rightarrow> ''.'' @ show_nat i)) =
    (of_nat a, case b of None \<Rightarrow> 0 | Some i \<Rightarrow> of_nat i)"
proof (cases b)
  case None
  then show ?thesis
    using assms Atoi_show_nat [of a] by (simp add: parse_byte_address_def str_last_index_None [THEN iffD2])
next
  case (Some i)
  then show ?thesis
    using assms Atoi_show_nat [of a] Atoi_show_nat [of i]
    by (simp add: parse_byte_address_def str_last_index_append)
qed



text \<open>Three kinds of data block addresses that the comments of \<open>ParseVariableAddress\<close> list are not taken
  apart as they are meant to: the short byte form \<^verbatim>\<open>DB1.B22\<close> gives the byte 0, with a one-digit address it
  panics, and the string form \<^verbatim>\<open>DB1.STRING2.18\<close> gives the byte 0 and takes the length for the bit.\<close>

theorem documented_addresses_misread:
  "parse_s7_address ''DB1.B22'' = Some (AreaDB, 1, 0, 0) \<and>
   parse_s7_address ''DB1.B2'' = None \<and>
   parse_s7_address ''DB1.STRING2.18'' = Some (AreaDB, 1, 0, 18)"
  by (simp add: parse_s7_address_def s7_zone_def s7_block_def slice_range_def slice_from_def s7_shortening_def
      parse_byte_address_def Atoi_def Atoi_unsigned_def is_digit_def digit_value_def has_prefix_def)

end
