(* ===== verification/OpcUaTypes.thy ===== *)
theory OpcUaTypes
  imports RuntimeMeta GoStrings GoPrelude
begin

text \<open>
  Model of \<^verbatim>\<open>pkg/protocol/opcua/runtime/type.go\<close> and \<^verbatim>\<open>constant.go\<close>: the variables and devices of the OPC UA
  protocol. The address of a variable is whatever JSON held, a number or a string.
\<close>

datatype opcua_error = OpcUaManyRetry | OpcUaConnectServer

record OpcUaVariable =
  ov_DataType :: DataType
  ov_Name :: string
  ov_Address :: GoValue
  ov_Namespace :: u16
  ov_DefaultValue :: GoValue
  ov_Value :: GoValue
  ov_AccessMode :: AccessMode

definition ov_SetValue :: "GoValue \<Rightarrow> OpcUaVariable \<Rightarrow> OpcUaVariable" where
  "ov_SetValue value v = v\<lparr>ov_Value := value\<rparr>"

record OpcUaOption =
  oo_Port :: int
  oo_Username :: string
  oo_Password :: string

record OpcUaAddress =
  oa_Location :: string
  oa_Option :: OpcUaOption

record OpcUaDevice =
  od_DeviceMeta :: DeviceMeta
  od_CollectorCycle :: uint
  od_VariableInterval :: uint
  od_Address :: OpcUaAddress
  od_Variables :: "OpcUaVariable list"
  od_VariablesMap :: "string \<Rightarrow> OpcUaVariable option"

definition OpcUa_IndexDevice :: "OpcUaDevice \<Rightarrow> OpcUaDevice" where
  "OpcUa_IndexDevice d =
     d\<lparr>od_VariablesMap := foldl (\<lambda>vm v. vm(ov_Name v \<mapsto> v)) (\<lambda>_. None) (od_Variables d)\<rparr>"

definition OpcUa_GetVariable :: "OpcUaDevice \<Rightarrow> string \<Rightarrow> OpcUaVariable option" where
  "OpcUa_GetVariable d key = od_VariablesMap d key"

end
