(* ===== verification/DeviceManagers.thy ===== *)
theory DeviceManagers
  imports DeviceUpdate ModbusTypes S7Types OpcUaTypes
begin

text \<open>
  Model of the request objects in \<^verbatim>\<open>pkg/v1\<close>, of \<^verbatim>\<open>manager.go\<close> and \<^verbatim>\<open>deepcopy.go\<close> of the three protocols,
  and of the interface \<^verbatim>\<open>runtime.Device\<close> the rest of the gateway sees. A pointer of a request that may be
  nil is an option, and following a nil pointer is a panic, \<open>None\<close>; the elements of a list of variables
  are taken to be there. What \<^verbatim>\<open>uuidutil\<close>, \<^verbatim>\<open>randutil\<close> and the clock return is an argument.
\<close>

section \<open>Requests\<close>

record v1_DeviceMeta =
  xd_Topic :: string
  xd_Name :: string
  xd_DeviceCode :: string
  xd_DeviceType :: string
  xd_DeviceModel :: string

record v1_ModbusVariable =
  xm_DataType :: string
  xm_Name :: string
  xm_Address :: "uint option"
  xm_Bits :: byte
  xm_FunctionCode :: byte
  xm_Rate :: f64
  xm_Amount :: uint
  xm_DefaultValue :: GoValue
  xm_AccessMode :: AccessMode

record v1_ModbusAddressOption =
  xmo_Port :: int
  xmo_BaudRate :: int
  xmo_DataBits :: int
  xmo_Parity :: string
  xmo_StopBits :: string

record v1_ModbusAddress =
  xma_Location :: string
  xma_Option :: "v1_ModbusAddressOption option"

record v1_ModBusDevice =
  xmd_DeviceMeta :: v1_DeviceMeta
  xmd_CollectorCycle :: uint
  xmd_VariableInterval :: uint
  xmd_Address :: "v1_ModbusAddress option"
  xmd_Slave :: uint
  xmd_MemoryLayout :: string
  xmd_PositionAddress :: uint
  xmd_Variables :: "v1_ModbusVariable list"

record v1_S7Variable =
  xs_DataType :: string
  xs_Name :: string
  xs_Address :: string
  xs_Rate :: f64
  xs_DefaultValue :: GoValue
  xs_AccessMode :: AccessMode

record v1_S7AddressOption =
  xso_Port :: uint
  xso_Rack :: byte
  xso_Slot :: byte

record v1_S7Address =
  xsa_Location :: string
  xsa_Option :: "v1_S7AddressOption option"

record v1_S7Device =
  xsd_DeviceMeta :: v1_DeviceMeta
  xsd_CollectorCycle :: uint
  xsd_VariableInterval :: uint
  xsd_Address :: "v1_S7Address option"
  xsd_Variables :: "v1_S7Variable list"

record v1_OpcUaVariable =
  xo_DataType :: string
  xo_Name :: string
  xo_Address :: GoValue
  xo_NameSpace :: u16
  xo_DefaultValue :: GoValue
  xo_AccessMode :: AccessMode

record v1_OpcAddressOption =
  xoo_Port :: int
  xoo_Username :: string
  xoo_Password :: string

record v1_OpcAddress =
  xoa_Location :: string
  xoa_Option :: "v1_OpcAddressOption option"

record v1_OpcUaDevice =
  xod_DeviceMeta :: v1_DeviceMeta
  xod_CollectorCycle :: uint
  xod_VariableInterval :: uint
  xod_Address :: "v1_OpcAddress option"
  xod_Variables :: "v1_OpcUaVariable list"

datatype V1Device = V1ModBus v1_ModBusDevice | V1S7 v1_S7Device | V1OpcUa v1_OpcUaDevice

fun v1_meta :: "V1Device \<Rightarrow> v1_DeviceMeta" where
  "v1_meta (V1ModBus d) = xmd_DeviceMeta d"
| "v1_meta (V1S7 d) = xsd_DeviceMeta d"
| "v1_meta (V1OpcUa d) = xod_DeviceMeta d"

definition v1_GetDeviceType :: "V1Device \<Rightarrow> string" where
  "v1_GetDeviceType d = xd_DeviceType (v1_meta d)"

section \<open>Devices\<close>

text \<open>The implementations of \<^verbatim>\<open>runtime.Device\<close>; a bare \<open>DeviceMeta\<close> is what a folded device is.\<close>

datatype Device = ModbusDev ModBusDevice | S7Dev S7Device | OpcUaDev OpcUaDevice | MetaDev DeviceMeta

fun dev_meta :: "Device \<Rightarrow> DeviceMeta" where
  "dev_meta (ModbusDev d) = md_DeviceMeta d"
| "dev_meta (S7Dev d) = sd_DeviceMeta d"
| "dev_meta (OpcUaDev d) = od_DeviceMeta d"
| "dev_meta (MetaDev m) = m"

fun map_meta :: "(DeviceMeta \<Rightarrow> DeviceMeta) \<Rightarrow> Device \<Rightarrow> Device" where
  "map_meta f (ModbusDev d) = ModbusDev (d\<lparr>md_DeviceMeta := f (md_DeviceMeta d)\<rparr>)"
| "map_meta f (S7Dev d) = S7Dev (d\<lparr>sd_DeviceMeta := f (sd_DeviceMeta d)\<rparr>)"
| "map_meta f (OpcUaDev d) = OpcUaDev (d\<lparr>od_DeviceMeta := f (od_DeviceMeta d)\<rparr>)"
| "map_meta f (MetaDev m) = MetaDev (f m)"

definition GetID :: "Device \<Rightarrow> string" where
  "GetID d = om_ID (dm_ObjectMeta (dev_meta d))"

definition GetName :: "Device \<Rightarrow> string" where
  "GetName d = om_Name (dm_ObjectMeta (dev_meta d))"

definition GetVersion :: "Device \<Rightarrow> string" where
  "GetVersion d = om_Version (dm_ObjectMeta (dev_meta d))"

definition GetModTime :: "Device \<Rightarrow> int" where
  "GetModTime d = om_ModTime (dm_ObjectMeta (dev_meta d))"

definition SetVersion :: "string \<Rightarrow> Device \<Rightarrow> Device" where
  "SetVersion version = map_meta (\<lambda>m. m\<lparr>dm_ObjectMeta := (dm_ObjectMeta m)\<lparr>om_Version := version\<rparr>\<rparr>)"

definition GetTopic :: "Device \<Rightarrow> string" where
  "GetTopic d = pm_Topic (dm_PublishMeta (dev_meta d))"

definition SetTopic :: "string \<Rightarrow> Device \<Rightarrow> Device" where
  "SetTopic topic = map_meta (\<lambda>m. m\<lparr>dm_PublishMeta := (dm_PublishMeta m)\<lparr>pm_Topic := topic\<rparr>\<rparr>)"

definition GetDeviceCode :: "Device \<Rightarrow> string" where
  "GetDeviceCode d = dm_DeviceCode (dev_meta d)"

definition GetDeviceType :: "Device \<Rightarrow> string" where
  "GetDeviceType d = dm_DeviceType (dev_meta d)"

definition GetDeviceModel :: "Device \<Rightarrow> string" where
  "GetDeviceModel d = dm_DeviceModel (dev_meta d)"

definition GetCollectStatus :: "Device \<Rightarrow> string" where
  "GetCollectStatus d = dm_CollectStatus (dev_meta d)"

definition SetCollectStatus :: "string \<Rightarrow> Device \<Rightarrow> Device" where
  "SetCollectStatus status = map_meta (\<lambda>m. m\<lparr>dm_CollectStatus := status\<rparr>)"

text \<open>The implementations of \<^verbatim>\<open>runtime.VariableValue\<close>.\<close>

datatype VariableValue = ModbusVar ModbusVariable | S7Var S7Variable | OpcUaVar OpcUaVariable

fun SetValue :: "GoValue \<Rightarrow> VariableValue \<Rightarrow> VariableValue" where
  "SetValue value (ModbusVar v) = ModbusVar (mv_SetValue value v)"
| "SetValue value (S7Var v) = S7Var (sv_SetValue value v)"
| "SetValue value (OpcUaVar v) = OpcUaVar (ov_SetValue value v)"

fun GetValue :: "VariableValue \<Rightarrow> GoValue" where
  "GetValue (ModbusVar v) = mv_Value v"
| "GetValue (S7Var v) = sv_Value v"
| "GetValue (OpcUaVar v) = ov_Value v"

fun GetVariableName :: "VariableValue \<Rightarrow> string" where
  "GetVariableName (ModbusVar v) = mv_Name v"
| "GetVariableName (S7Var v) = sv_Name v"
| "GetVariableName (OpcUaVar v) = ov_Name v"

fun GetVariableAccessMode :: "VariableValue \<Rightarrow> AccessMode" where
  "GetVariableAccessMode (ModbusVar v) = mv_AccessMode v"
| "GetVariableAccessMode (S7Var v) = sv_AccessMode v"
| "GetVariableAccessMode (OpcUaVar v) = ov_AccessMode v"

fun GetVariable :: "Device \<Rightarrow> string \<Rightarrow> VariableValue option" where
  "GetVariable (ModbusDev d) key = map_option ModbusVar (ModBus_GetVariable d key)"
| "GetVariable (S7Dev d) key = map_option S7Var (S7_GetVariable d key)"
| "GetVariable (OpcUaDev d) key = map_option OpcUaVar (OpcUa_GetVariable d key)"
| "GetVariable (MetaDev m) key = None"

fun dev_variables :: "Device \<Rightarrow> VariableValue list" where
  "dev_variables (ModbusDev d) = map ModbusVar (md_Variables d)"
| "dev_variables (S7Dev d) = map S7Var (sd_Variables d)"
| "dev_variables (OpcUaDev d) = map OpcUaVar (od_Variables d)"
| "dev_variables (MetaDev m) = []"

fun IndexDevice :: "Device \<Rightarrow> Device" where
  "IndexDevice (ModbusDev d) = ModbusDev (ModBus_IndexDevice d)"
| "IndexDevice (S7Dev d) = S7Dev (S7_IndexDevice d)"
| "IndexDevice (OpcUaDev d) = OpcUaDev (OpcUa_IndexDevice d)"
| "IndexDevice (MetaDev m) = MetaDev m"

text \<open>A deep copy has fresh objects for its variables, and a map that points to them.\<close>

fun DeepCopyObject :: "Device \<Rightarrow> Device" where
  "DeepCopyObject (ModbusDev d) =
     ModbusDev (d\<lparr>md_VariablesMap := stored_map (copy_variables mv_Name (md_Variables d))\<rparr>)"
| "DeepCopyObject (S7Dev d) =
     S7Dev (d\<lparr>sd_VariablesMap := stored_map (copy_variables sv_Name (sd_Variables d))\<rparr>)"
| "DeepCopyObject (OpcUaDev d) =
     OpcUaDev (d\<lparr>od_VariablesMap := stored_map (copy_variables ov_Name (od_Variables d))\<rparr>)"
| "DeepCopyObject (MetaDev m) = MetaDev m"

lemma dev_meta_map_meta [simp]:
  "dev_meta (map_meta f d) = f (dev_meta d)"
  by (cases d) simp_all

lemma GetVariable_map_meta [simp]:
  "GetVariable (map_meta f d) key = GetVariable d key" "dev_variables (map_meta f d) = dev_variables d"
  by (cases d; simp add: ModBus_GetVariable_def S7_GetVariable_def OpcUa_GetVariable_def)+

lemmas dev_access = GetID_def GetName_def GetVersion_def GetModTime_def SetVersion_def GetTopic_def SetTopic_def
  GetDeviceCode_def GetDeviceType_def GetDeviceModel_def GetCollectStatus_def SetCollectStatus_def

section \<open>The managers\<close>

text \<open>What a new device is stamped with: \<^verbatim>\<open>uuidutil.UUID()\<close>, \<^verbatim>\<open>randutil.Uint64n()\<close> and \<^verbatim>\<open>time.Now()\<close>.\<close>

record stamp =
  st_ID :: string
  st_Version :: nat
  st_ModTime :: int

definition new_meta :: "stamp \<Rightarrow> v1_DeviceMeta \<Rightarrow> DeviceMeta" where
  "new_meta stamp x =
     \<lparr>dm_ObjectMeta = \<lparr>om_Name = xd_Name x, om_ID = st_ID stamp, om_Version = show_nat (st_Version stamp),
        om_ModTime = st_ModTime stamp\<rparr>,
      dm_PublishMeta = \<lparr>pm_Topic = xd_Topic x\<rparr>,
      dm_DeviceCode = xd_DeviceCode x, dm_DeviceType = xd_DeviceType x, dm_DeviceModel = xd_DeviceModel x,
      dm_CollectStatus = collect_status_name Stopped\<rparr>"

definition update_meta :: "v1_DeviceMeta \<Rightarrow> DeviceMeta \<Rightarrow> DeviceMeta" where
  "update_meta x m =
     m\<lparr>dm_PublishMeta := (dm_PublishMeta m)\<lparr>pm_Topic := xd_Topic x\<rparr>,
       dm_ObjectMeta := (dm_ObjectMeta m)\<lparr>om_Name := xd_Name x\<rparr>,
       dm_DeviceCode := xd_DeviceCode x, dm_DeviceType := xd_DeviceType x, dm_DeviceModel := xd_DeviceModel x\<rparr>"

text \<open>The object \<open>DeleteDevice\<close> hands to the store: the identity and the kind of the device.\<close>

definition stub_meta :: "Device \<Rightarrow> DeviceMeta" where
  "stub_meta device =
     \<lparr>dm_ObjectMeta = \<lparr>om_Name = '''', om_ID = GetID device, om_Version = GetVersion device, om_ModTime = 0\<rparr>,
      dm_PublishMeta = \<lparr>pm_Topic = ''''\<rparr>,
      dm_DeviceCode = GetDeviceCode device, dm_DeviceType = GetDeviceType device,
      dm_DeviceModel = GetDeviceModel device, dm_CollectStatus = ''''\<rparr>"

subsection \<open>Modbus\<close>

definition modbus_assign :: "ModbusVariable \<Rightarrow> v1_ModbusVariable \<Rightarrow> ModbusVariable" where
  "modbus_assign v ndv =
     v\<lparr>mv_DataType := StringToDataType_or_zero (xm_DataType ndv), mv_Name := xm_Name ndv,
       mv_Address := the (xm_Address ndv), mv_Bits := xm_Bits ndv, mv_FunctionCode := xm_FunctionCode ndv,
       mv_Rate := xm_Rate ndv, mv_Amount := xm_Amount ndv, mv_DefaultValue := xm_DefaultValue ndv,
       mv_AccessMode := xm_AccessMode ndv\<rparr>"

definition modbus_variable :: "v1_ModbusVariable \<Rightarrow> ModbusVariable" where
  "modbus_variable ndv =
     \<lparr>mv_DataType = StringToDataType_or_zero (xm_DataType ndv), mv_Name = xm_Name ndv,
      mv_Address = the (xm_Address ndv), mv_Bits = xm_Bits ndv, mv_FunctionCode = xm_FunctionCode ndv,
      mv_Rate = xm_Rate ndv, mv_Amount = xm_Amount ndv, mv_DefaultValue = xm_DefaultValue ndv, mv_Value = VNil,
      mv_AccessMode = xm_AccessMode ndv\<rparr>"

definition modbus_option :: "v1_ModbusAddressOption \<Rightarrow> ModbusOption" where
  "modbus_option x =
     \<lparr>mo_Port = xmo_Port x, mo_BaudRate = xmo_BaudRate x, mo_DataBits = xmo_DataBits x,
      mo_Parity = StringToParity_or_zero (xmo_Parity x), mo_StopBits = StringToStopBits_or_zero (xmo_StopBits x)\<rparr>"

definition Modbus_CreateDevice :: "stamp \<Rightarrow> V1Device \<Rightarrow> (broker_error + Device) option" where
  "Modbus_CreateDevice stamp deviceType =
     (case deviceType of
        V1ModBus x \<Rightarrow>
          do { address \<leftarrow> xmd_Address x;
               opt \<leftarrow> xma_Option address;
               (if list_all (\<lambda>v. xm_Address v \<noteq> None) (xmd_Variables x) then
                  let vs = map modbus_variable (xmd_Variables x)
                  in Some (Inr (ModbusDev
                    \<lparr>md_DeviceMeta = new_meta stamp (xmd_DeviceMeta x), md_CollectorCycle = xmd_CollectorCycle x,
                     md_VariableInterval = xmd_VariableInterval x,
                     md_Address = \<lparr>ma_Location = xma_Location address, ma_Option = modbus_option opt\<rparr>,
                     md_Slave = xmd_Slave x, md_MemoryLayout = StringToMemoryLayout_or_zero (xmd_MemoryLayout x),
                     md_PositionAddress = xmd_PositionAddress x, md_Variables = vs,
                     md_VariablesMap = foldl (\<lambda>m v. m(mv_Name v \<mapsto> v)) (\<lambda>_. None) vs\<rparr>))
                else None) }
      | _ \<Rightarrow> Some (Inl ErrDeviceType))"

text \<open>\<open>device\<close> is the deep copy \<open>UpdateDeviceById\<close> passes, so the objects of its list and its map are those of
  \<open>copy_variables\<close>.\<close>

definition Modbus_UpdateDevice ::
  "(string list \<Rightarrow> string list) \<Rightarrow> V1Device \<Rightarrow> Device \<Rightarrow> (broker_error + Device) option" where
  "Modbus_UpdateDevice order deviceType device =
     (case deviceType of
        V1ModBus x \<Rightarrow>
          (case device of
             ModbusDev copyDevice \<Rightarrow>
               do { address \<leftarrow> xmd_Address x;
                    opt \<leftarrow> xma_Option address;
                    (if list_all (\<lambda>v. xm_Address v \<noteq> None) (xmd_Variables x) then
                       let s = update_variables order mv_Name xm_Name modbus_assign modbus_variable
                             (md_Variables copyDevice) (xmd_Variables x)
                       in Some (Inr (ModbusDev (copyDevice
                         \<lparr>md_DeviceMeta := update_meta (xmd_DeviceMeta x) (md_DeviceMeta copyDevice),
                          md_CollectorCycle := xmd_CollectorCycle x, md_VariableInterval := xmd_VariableInterval x,
                          md_Address := \<lparr>ma_Location = xma_Location address, ma_Option = modbus_option opt\<rparr>,
                          md_Slave := xmd_Slave x, md_MemoryLayout := StringToMemoryLayout_or_zero (xmd_MemoryLayout x),
                          md_PositionAddress := xmd_PositionAddress x,
                          md_Variables := stored_variables s, md_VariablesMap := stored_map s\<rparr>)))
                     else None) }
           | _ \<Rightarrow> None)
      | _ \<Rightarrow> Some (Inl ErrDeviceType))"

text \<open>The address of the stub is nil; nothing follows it.\<close>

definition Modbus_DeleteDevice :: "Device \<Rightarrow> Device" where
  "Modbus_DeleteDevice device = ModbusDev
     \<lparr>md_DeviceMeta = stub_meta device, md_CollectorCycle = 0, md_VariableInterval = 0,
      md_Address = \<lparr>ma_Location = '''', ma_Option = \<lparr>mo_Port = 0, mo_BaudRate = 0, mo_DataBits = 0,
        mo_Parity = NoParity, mo_StopBits = OneStopBit\<rparr>\<rparr>,
      md_Slave = 0, md_MemoryLayout = DCBA, md_PositionAddress = 0, md_Variables = [], md_VariablesMap = (\<lambda>_. None)\<rparr>"

subsection \<open>S7\<close>

definition s7_assign :: "S7Variable \<Rightarrow> v1_S7Variable \<Rightarrow> S7Variable" where
  "s7_assign v ndv =
     v\<lparr>sv_DataType := StringToDataType_or_zero (xs_DataType ndv), sv_Name := xs_Name ndv,
       sv_Address := xs_Address ndv, sv_Rate := xs_Rate ndv, sv_DefaultValue := xs_DefaultValue ndv,
       sv_AccessMode := xs_AccessMode ndv\<rparr>"

definition s7_variable :: "v1_S7Variable \<Rightarrow> S7Variable" where
  "s7_variable ndv =
     \<lparr>sv_DataType = StringToDataType_or_zero (xs_DataType ndv), sv_Name = xs_Name ndv,
      sv_Address = xs_Address ndv, sv_Rate = xs_Rate ndv, sv_DefaultValue = xs_DefaultValue ndv, sv_Value = VNil,
      sv_AccessMode = xs_AccessMode ndv\<rparr>"

definition s7_option :: "v1_S7AddressOption \<Rightarrow> S7AddressOption" where
  "s7_option x = \<lparr>so_Port = xso_Port x, so_Rack = xso_Rack x, so_Slot = xso_Slot x\<rparr>"

definition S7_CreateDevice :: "stamp \<Rightarrow> V1Device \<Rightarrow> (broker_error + Device) option" where
  "S7_CreateDevice stamp deviceType =
     (case deviceType of
        V1S7 x \<Rightarrow>
          do { address \<leftarrow> xsd_Address x;
               opt \<leftarrow> xsa_Option address;
               let vs = map s7_variable (xsd_Variables x);
               Some (Inr (S7Dev
                 \<lparr>sd_DeviceMeta = new_meta stamp (xsd_DeviceMeta x), sd_CollectorCycle = xsd_CollectorCycle x,
                  sd_VariableInterval = xsd_VariableInterval x,
                  sd_Address = \<lparr>sa_Location = xsa_Location address, sa_Option = s7_option opt\<rparr>,
                  sd_Variables = vs, sd_VariablesMap = foldl (\<lambda>m v. m(sv_Name v \<mapsto> v)) (\<lambda>_. None) vs\<rparr>)) }
      | _ \<Rightarrow> Some (Inl ErrDeviceType))"

definition S7_UpdateDevice ::
  "(string list \<Rightarrow> string list) \<Rightarrow> V1Device \<Rightarrow> Device \<Rightarrow> (broker_error + Device) option" where
  "S7_UpdateDevice order deviceType device =
     (case deviceType of
        V1S7 x \<Rightarrow>
          (case device of
             S7Dev copyDevice \<Rightarrow>
               do { address \<leftarrow> xsd_Address x;
                    opt \<leftarrow> xsa_Option address;
                    let s = update_variables order sv_Name xs_Name s7_assign s7_variable
                          (sd_Variables copyDevice) (xsd_Variables x);
                    Some (Inr (S7Dev (copyDevice
                      \<lparr>sd_DeviceMeta := update_meta (xsd_DeviceMeta x) (sd_DeviceMeta copyDevice),
                       sd_CollectorCycle := xsd_CollectorCycle x, sd_VariableInterval := xsd_VariableInterval x,
                       sd_Address := \<lparr>sa_Location = xsa_Location address, sa_Option = s7_option opt\<rparr>,
                       sd_Variables := stored_variables s, sd_VariablesMap := stored_map s\<rparr>))) }
           | _ \<Rightarrow> None)
      | _ \<Rightarrow> Some (Inl ErrDeviceType))"

definition S7_DeleteDevice :: "Device \<Rightarrow> Device" where
  "S7_DeleteDevice device = S7Dev
     \<lparr>sd_DeviceMeta = stub_meta device, sd_CollectorCycle = 0, sd_VariableInterval = 0,
      sd_Address = \<lparr>sa_Location = '''', sa_Option = \<lparr>so_Port = 0, so_Rack = 0, so_Slot = 0\<rparr>\<rparr>,
      sd_Variables = [], sd_VariablesMap = (\<lambda>_. None)\<rparr>"

subsection \<open>OPC UA\<close>

definition opcua_assign :: "OpcUaVariable \<Rightarrow> v1_OpcUaVariable \<Rightarrow> OpcUaVariable" where
  "opcua_assign v ndv =
     v\<lparr>ov_DataType := StringToDataType_or_zero (xo_DataType ndv), ov_Name := xo_Name ndv,
       ov_Address := xo_Address ndv, ov_Namespace := xo_NameSpace ndv, ov_DefaultValue := xo_DefaultValue ndv,
       ov_AccessMode := xo_AccessMode ndv\<rparr>"

definition opcua_variable :: "v1_OpcUaVariable \<Rightarrow> OpcUaVariable" where
  "opcua_variable ndv =
     \<lparr>ov_DataType = StringToDataType_or_zero (xo_DataType ndv), ov_Name = xo_Name ndv,
      ov_Address = xo_Address ndv, ov_Namespace = xo_NameSpace ndv, ov_DefaultValue = xo_DefaultValue ndv,
      ov_Value = VNil, ov_AccessMode = xo_AccessMode ndv\<rparr>"

definition opcua_option :: "v1_OpcAddressOption \<Rightarrow> OpcUaOption" where
  "opcua_option x = \<lparr>oo_Port = xoo_Port x, oo_Username = xoo_Username x, oo_Password = xoo_Password x\<rparr>"

text \<open>Unlike the other two, \<open>CreateDevice\<close> does not make a map of the variables.\<close>

definition OpcUa_CreateDevice :: "stamp \<Rightarrow> V1Device \<Rightarrow> (broker_error + Device) option" where
  "OpcUa_CreateDevice stamp deviceType =
     (case deviceType of
        V1OpcUa x \<Rightarrow>
          do { address \<leftarrow> xod_Address x;
               opt \<leftarrow> xoa_Option address;
               Some (Inr (OpcUaDev
                 \<lparr>od_DeviceMeta = new_meta stamp (xod_DeviceMeta x), od_CollectorCycle = xod_CollectorCycle x,
                  od_VariableInterval = xod_VariableInterval x,
                  od_Address = \<lparr>oa_Location = xoa_Location address, oa_Option = opcua_option opt\<rparr>,
                  od_Variables = map opcua_variable (xod_Variables x), od_VariablesMap = (\<lambda>_. None)\<rparr>)) }
      | _ \<Rightarrow> Some (Inl ErrDeviceType))"

definition OpcUa_UpdateDevice ::
  "(string list \<Rightarrow> string list) \<Rightarrow> V1Device \<Rightarrow> Device \<Rightarrow> (broker_error + Device) option" where
  "OpcUa_UpdateDevice order deviceType device =
     (case deviceType of
        V1OpcUa x \<Rightarrow>
          (case device of
             OpcUaDev copyDevice \<Rightarrow>
               do { address \<leftarrow> xod_Address x;
                    opt \<leftarrow> xoa_Option address;
                    let s = update_variables order ov_Name xo_Name opcua_assign opcua_variable
                          (od_Variables copyDevice) (xod_Variables x);
                    Some (Inr (OpcUaDev (copyDevice
                      \<lparr>od_DeviceMeta := update_meta (xod_DeviceMeta x) (od_DeviceMeta copyDevice),
                       od_CollectorCycle := xod_CollectorCycle x, od_VariableInterval := xod_VariableInterval x,
                       od_Address := \<lparr>oa_Location = xoa_Location address, oa_Option = opcua_option opt\<rparr>,
                       od_Variables := stored_variables s, od_VariablesMap := stored_map s\<rparr>))) }
           | _ \<Rightarrow> None)
      | _ \<Rightarrow> Some (Inl ErrDeviceType))"

definition OpcUa_DeleteDevice :: "Device \<Rightarrow> Device" where
  "OpcUa_DeleteDevice device = OpcUaDev
     \<lparr>od_DeviceMeta = stub_meta device, od_CollectorCycle = 0, od_VariableInterval = 0,
      od_Address = \<lparr>oa_Location = '''', oa_Option = \<lparr>oo_Port = 0, oo_Username = '''', oo_Password = ''''\<rparr>\<rparr>,
      od_Variables = [], od_VariablesMap = (\<lambda>_. None)\<rparr>"

section \<open>An update makes what the request describes\<close>

interpretation modbus_update: valued_update mv_Name xm_Name modbus_assign modbus_variable mv_Value mv_SetValue
  by unfold_locales (simp_all add: modbus_assign_def modbus_variable_def mv_SetValue_def)

interpretation s7_update: valued_update sv_Name xs_Name s7_assign s7_variable sv_Value sv_SetValue
  by unfold_locales (simp_all add: s7_assign_def s7_variable_def sv_SetValue_def)

interpretation opcua_update: valued_update ov_Name xo_Name opcua_assign opcua_variable ov_Value ov_SetValue
  by unfold_locales (simp_all add: opcua_assign_def opcua_variable_def ov_SetValue_def)

text \<open>The table of the managers; a type that is not in it is a nil manager, whose methods panic.\<close>

datatype Protocol = PModbus | PS7 | POpcUa

definition DeviceManagers :: "string \<Rightarrow> Protocol option" where
  "DeviceManagers = [''modbus'' \<mapsto> PModbus, ''opcUa'' \<mapsto> POpcUa, ''s7'' \<mapsto> PS7]"

definition manager_CreateDevice :: "string \<Rightarrow> stamp \<Rightarrow> V1Device \<Rightarrow> (broker_error + Device) option" where
  "manager_CreateDevice t stamp object =
     (case DeviceManagers t of
        Some PModbus \<Rightarrow> Modbus_CreateDevice stamp object
      | Some PS7 \<Rightarrow> S7_CreateDevice stamp object
      | Some POpcUa \<Rightarrow> OpcUa_CreateDevice stamp object
      | None \<Rightarrow> None)"

definition manager_UpdateDevice ::
  "string \<Rightarrow> (string list \<Rightarrow> string list) \<Rightarrow> V1Device \<Rightarrow> Device \<Rightarrow> (broker_error + Device) option" where
  "manager_UpdateDevice t order newObj cd =
     (case DeviceManagers t of
        Some PModbus \<Rightarrow> Modbus_UpdateDevice order newObj cd
      | Some PS7 \<Rightarrow> S7_UpdateDevice order newObj cd
      | Some POpcUa \<Rightarrow> OpcUa_UpdateDevice order newObj cd
      | None \<Rightarrow> None)"

definition manager_DeleteDevice :: "string \<Rightarrow> Device \<Rightarrow> Device option" where
  "manager_DeleteDevice t device =
     (case DeviceManagers t of
        Some PModbus \<Rightarrow> Some (Modbus_DeleteDevice device)
      | Some PS7 \<Rightarrow> Some (S7_DeleteDevice device)
      | Some POpcUa \<Rightarrow> Some (OpcUa_DeleteDevice device)
      | None \<Rightarrow> None)"

text \<open>The settings of a device, without its metadata and its variables.\<close>

definition no_meta :: DeviceMeta where
  "no_meta =
     \<lparr>dm_ObjectMeta = \<lparr>om_Name = [], om_ID = [], om_Version = [], om_ModTime = 0\<rparr>,
      dm_PublishMeta = \<lparr>pm_Topic = []\<rparr>, dm_DeviceCode = [], dm_DeviceType = [], dm_DeviceModel = [],
      dm_CollectStatus = []\<rparr>"

fun dev_settings :: "Device \<Rightarrow> Device" where
  "dev_settings (ModbusDev d) =
     ModbusDev (d\<lparr>md_DeviceMeta := no_meta, md_Variables := [], md_VariablesMap := (\<lambda>_. None)\<rparr>)"
| "dev_settings (S7Dev d) = S7Dev (d\<lparr>sd_DeviceMeta := no_meta, sd_Variables := [], sd_VariablesMap := (\<lambda>_. None)\<rparr>)"
| "dev_settings (OpcUaDev d) =
     OpcUaDev (d\<lparr>od_DeviceMeta := no_meta, od_Variables := [], od_VariablesMap := (\<lambda>_. None)\<rparr>)"
| "dev_settings (MetaDev m) = MetaDev no_meta"

definition keep_value :: "VariableValue list \<Rightarrow> VariableValue \<Rightarrow> VariableValue" where
  "keep_value olds v =
     (case find (\<lambda>w. GetVariableName w = GetVariableName v) olds of
        Some w \<Rightarrow> SetValue (GetValue w) v
      | None \<Rightarrow> v)"

lemma find_map: "find P (map f xs) = map_option f (find (\<lambda>x. P (f x)) xs)"
  by (induction xs) auto

lemma keep_values:
  "map (keep_value (map ModbusVar vs)) (map ModbusVar ws) = map ModbusVar
     (map (\<lambda>v. case find (\<lambda>w. mv_Name w = mv_Name v) vs of Some w \<Rightarrow> mv_SetValue (mv_Value w) v | None \<Rightarrow> v) ws)"
  "map (keep_value (map S7Var vs2)) (map S7Var ws2) = map S7Var
     (map (\<lambda>v. case find (\<lambda>w. sv_Name w = sv_Name v) vs2 of Some w \<Rightarrow> sv_SetValue (sv_Value w) v | None \<Rightarrow> v) ws2)"
  "map (keep_value (map OpcUaVar vs3)) (map OpcUaVar ws3) = map OpcUaVar
     (map (\<lambda>v. case find (\<lambda>w. ov_Name w = ov_Name v) vs3 of Some w \<Rightarrow> ov_SetValue (ov_Value w) v | None \<Rightarrow> v) ws3)"
  by (auto simp: keep_value_def find_map split: option.split)

definition variables_match :: "Device \<Rightarrow> Device \<Rightarrow> Device \<Rightarrow> bool" where
  "variables_match old made updated \<longleftrightarrow>
     mset (dev_variables updated) = mset (map (keep_value (dev_variables old)) (dev_variables made)) \<and>
     (\<forall>k v. GetVariable updated k = Some v \<longleftrightarrow> v \<in> set (dev_variables updated) \<and> GetVariableName v = k)"

definition names_ok :: "Device \<Rightarrow> Device \<Rightarrow> bool" where
  "names_ok old made \<longleftrightarrow>
     distinct (map GetVariableName (dev_variables old)) \<and> distinct (map GetVariableName (dev_variables made)) \<and>
     (\<forall>v \<in> set (dev_variables made). TrimSpace (GetVariableName v) = GetVariableName v)"

definition meta_updated :: "DeviceMeta \<Rightarrow> DeviceMeta \<Rightarrow> DeviceMeta" where
  "meta_updated old made =
     made\<lparr>dm_ObjectMeta := (dm_ObjectMeta old)\<lparr>om_Name := om_Name (dm_ObjectMeta made)\<rparr>,
          dm_CollectStatus := dm_CollectStatus old\<rparr>"

lemma update_meta_new_meta: "update_meta x m = meta_updated m (new_meta stamp x)"
  by (simp add: update_meta_def meta_updated_def new_meta_def)

lemma copied_fields [simp]:
  "DeepCopyObject d = ModbusDev c \<Longrightarrow> \<exists>e. d = ModbusDev e \<and> md_Variables e = md_Variables c \<and> md_DeviceMeta e = md_DeviceMeta c"
  "DeepCopyObject d = S7Dev c2 \<Longrightarrow> \<exists>e. d = S7Dev e \<and> sd_Variables e = sd_Variables c2 \<and> sd_DeviceMeta e = sd_DeviceMeta c2"
  "DeepCopyObject d = OpcUaDev c3 \<Longrightarrow> \<exists>e. d = OpcUaDev e \<and> od_Variables e = od_Variables c3 \<and> od_DeviceMeta e = od_DeviceMeta c3"
  by (cases d; auto)+

lemma mset_map_eq: "mset xs = mset ys \<Longrightarrow> mset (map f xs) = mset (map f ys)"
  by simp

text \<open>The three protocols, by the same steps.\<close>

lemma Modbus_update_matches:
  assumes update: "Modbus_UpdateDevice order object (DeepCopyObject old) = Some (Inr updated)"
    and create: "Modbus_CreateDevice stamp object = Some (Inr made)"
    and ok: "names_ok old made" and order: "\<And>keys. mset (order keys) = mset keys"
  shows "variables_match old made updated \<and> dev_meta updated = meta_updated (dev_meta old) (dev_meta made) \<and>
    dev_settings updated = dev_settings made"
proof -
  obtain x where x: "object = V1ModBus x" using create by (cases object) (auto simp: Modbus_CreateDevice_def)
  obtain e where e: "old = ModbusDev e" using update x by (cases old) (auto simp: Modbus_UpdateDevice_def)
  obtain address opt where a: "xmd_Address x = Some address" "xma_Option address = Some opt"
    using create x by (auto simp: Modbus_CreateDevice_def bind_eq_Some_conv split: if_splits)
  have vs: "dev_variables made = map ModbusVar (map modbus_variable (xmd_Variables x))"
    and names: "map GetVariableName (dev_variables made) = map xm_Name (xmd_Variables x)"
    using create x a by (auto simp: Modbus_CreateDevice_def Let_def modbus_variable_def split: if_splits)
  have "distinct (map mv_Name (md_Variables e))" "distinct (map xm_Name (xmd_Variables x))"
    "\<forall>n \<in> set (xmd_Variables x). TrimSpace (xm_Name n) = xm_Name n"
    using ok names e by (auto simp: names_ok_def comp_def vs modbus_variable_def)
  note m = modbus_update.update_matches [OF order this] modbus_update.update_indexed [OF order this]
  let ?s = "update_variables order mv_Name xm_Name modbus_assign modbus_variable (md_Variables e) (xmd_Variables x)"
  have u: "dev_variables updated = map ModbusVar (stored_variables ?s)" "GetVariable updated k = map_option ModbusVar (stored_map ?s k)" for k
    using update x e a by (auto simp: Modbus_UpdateDevice_def Let_def ModBus_GetVariable_def split: if_splits)
  have "variables_match old made updated"
    unfolding variables_match_def u vs
    by (auto simp: m(2) e keep_values(1) simp del: map_map mset_map intro!: mset_map_eq m(1))
  moreover have "dev_meta updated = meta_updated (dev_meta old) (dev_meta made)" "dev_settings updated = dev_settings made"
    using update create x e a
    by (auto simp: Modbus_UpdateDevice_def Modbus_CreateDevice_def Let_def update_meta_new_meta [of _ _ stamp] split: if_splits)
  ultimately show ?thesis by blast
qed

lemma S7_update_matches:
  assumes update: "S7_UpdateDevice order object (DeepCopyObject old) = Some (Inr updated)"
    and create: "S7_CreateDevice stamp object = Some (Inr made)"
    and ok: "names_ok old made" and order: "\<And>keys. mset (order keys) = mset keys"
  shows "variables_match old made updated \<and> dev_meta updated = meta_updated (dev_meta old) (dev_meta made) \<and>
    dev_settings updated = dev_settings made"
proof -
  obtain x where x: "object = V1S7 x" using create by (cases object) (auto simp: S7_CreateDevice_def)
  obtain e where e: "old = S7Dev e" using update x by (cases old) (auto simp: S7_UpdateDevice_def)
  obtain address opt where a: "xsd_Address x = Some address" "xsa_Option address = Some opt"
    using create x by (auto simp: S7_CreateDevice_def bind_eq_Some_conv split: if_splits)
  have vs: "dev_variables made = map S7Var (map s7_variable (xsd_Variables x))"
    and names: "map GetVariableName (dev_variables made) = map xs_Name (xsd_Variables x)"
    using create x a by (auto simp: S7_CreateDevice_def Let_def s7_variable_def split: if_splits)
  have "distinct (map sv_Name (sd_Variables e))" "distinct (map xs_Name (xsd_Variables x))"
    "\<forall>n \<in> set (xsd_Variables x). TrimSpace (xs_Name n) = xs_Name n"
    using ok names e by (auto simp: names_ok_def comp_def vs s7_variable_def)
  note m = s7_update.update_matches [OF order this] s7_update.update_indexed [OF order this]
  let ?s = "update_variables order sv_Name xs_Name s7_assign s7_variable (sd_Variables e) (xsd_Variables x)"
  have u: "dev_variables updated = map S7Var (stored_variables ?s)" "GetVariable updated k = map_option S7Var (stored_map ?s k)" for k
    using update x e a by (auto simp: S7_UpdateDevice_def Let_def S7_GetVariable_def split: if_splits)
  have "variables_match old made updated"
    unfolding variables_match_def u vs
    by (auto simp: m(2) e keep_values(2) simp del: map_map mset_map intro!: mset_map_eq m(1))
  moreover have "dev_meta updated = meta_updated (dev_meta old) (dev_meta made)" "dev_settings updated = dev_settings made"
    using update create x e a
    by (auto simp: S7_UpdateDevice_def S7_CreateDevice_def Let_def update_meta_new_meta [of _ _ stamp] split: if_splits)
  ultimately show ?thesis by blast
qed

lemma OpcUa_update_matches:
  assumes update: "OpcUa_UpdateDevice order object (DeepCopyObject old) = Some (Inr updated)"
    and create: "OpcUa_CreateDevice stamp object = Some (Inr made)"
    and ok: "names_ok old made" and order: "\<And>keys. mset (order keys) = mset keys"
  shows "variables_match old made updated \<and> dev_meta updated = meta_updated (dev_meta old) (dev_meta made) \<and>
    dev_settings updated = dev_settings made"
proof -
  obtain x where x: "object = V1OpcUa x" using create by (cases object) (auto simp: OpcUa_CreateDevice_def)
  obtain e where e: "old = OpcUaDev e" using update x by (cases old) (auto simp: OpcUa_UpdateDevice_def)
  obtain address opt where a: "xod_Address x = Some address" "xoa_Option address = Some opt"
    using create x by (auto simp: OpcUa_CreateDevice_def bind_eq_Some_conv split: if_splits)
  have vs: "dev_variables made = map OpcUaVar (map opcua_variable (xod_Variables x))"
    and names: "map GetVariableName (dev_variables made) = map xo_Name (xod_Variables x)"
    using create x a by (auto simp: OpcUa_CreateDevice_def Let_def opcua_variable_def split: if_splits)
  have "distinct (map ov_Name (od_Variables e))" "distinct (map xo_Name (xod_Variables x))"
    "\<forall>n \<in> set (xod_Variables x). TrimSpace (xo_Name n) = xo_Name n"
    using ok names e by (auto simp: names_ok_def comp_def vs opcua_variable_def)
  note m = opcua_update.update_matches [OF order this] opcua_update.update_indexed [OF order this]
  let ?s = "update_variables order ov_Name xo_Name opcua_assign opcua_variable (od_Variables e) (xod_Variables x)"
  have u: "dev_variables updated = map OpcUaVar (stored_variables ?s)" "GetVariable updated k = map_option OpcUaVar (stored_map ?s k)" for k
    using update x e a by (auto simp: OpcUa_UpdateDevice_def Let_def OpcUa_GetVariable_def split: if_splits)
  have "variables_match old made updated"
    unfolding variables_match_def u vs
    by (auto simp: m(2) e keep_values(3) simp del: map_map mset_map intro!: mset_map_eq m(1))
  moreover have "dev_meta updated = meta_updated (dev_meta old) (dev_meta made)" "dev_settings updated = dev_settings made"
    using update create x e a
    by (auto simp: OpcUa_UpdateDevice_def OpcUa_CreateDevice_def Let_def update_meta_new_meta [of _ _ stamp] split: if_splits)
  ultimately show ?thesis by blast
qed


definition example_stamp :: stamp where
  "example_stamp = \<lparr>st_ID = ''d1'', st_Version = 7, st_ModTime = 0\<rparr>"

definition example_request :: "string list \<Rightarrow> v1_S7Device" where
  "example_request names =
     \<lparr>xsd_DeviceMeta = \<lparr>xd_Topic = [], xd_Name = ''press'', xd_DeviceCode = ''p'', xd_DeviceType = ''s7'',
        xd_DeviceModel = ''s71500''\<rparr>,
      xsd_CollectorCycle = 1, xsd_VariableInterval = 0,
      xsd_Address = Some \<lparr>xsa_Location = ''plc'', xsa_Option = Some \<lparr>xso_Port = 102, xso_Rack = 0, xso_Slot = 1\<rparr>\<rparr>,
      xsd_Variables = map (\<lambda>name. \<lparr>xs_DataType = ''int16'', xs_Name = name, xs_Address = ''DB1.DBW0'', xs_Rate = f64_zero,
        xs_DefaultValue = VNil, xs_AccessMode = AccessModeReadWrite\<rparr>) names\<rparr>"


text \<open>A variable whose name begins or ends with white space is looked up by the trimmed name, which the map
  does not have, so every update of the device adds it once more.\<close>

theorem padded_variable_duplicated:
  assumes "Modbus_UpdateDevice order (V1ModBus x) (DeepCopyObject (ModbusDev e)) = Some (Inr updated)"
    and "map mv_Name (md_Variables e) = [k]" "map xm_Name (xmd_Variables x) = [k]" "TrimSpace k \<noteq> k"
    and "\<And>keys. mset (order keys) = mset keys"
  shows "map GetVariableName (dev_variables updated) = [k, k]"
proof -
  obtain v n where vn: "md_Variables e = [v]" "mv_Name v = k" "xmd_Variables x = [n]" "xm_Name n = k"
    using assms(2,3) by auto
  obtain ys zs where "DifferenceAndIntersectionObjects order [v] [n] mv_Name xm_Name = ([], ys, zs)"
    using split_keys_sets [of order "[k]" "[k]"] assms(5) by (auto simp: DifferenceAndIntersectionObjects_def vn)
  then have "stored_variables (update_variables order mv_Name xm_Name modbus_assign modbus_variable [v] [n]) = [v, modbus_variable n]"
    using assms(4) vn
    by (simp add: update_variables_def prune_variables_def copy_variables_def upsert_variable_def stored_variables_def Let_def)
  then show ?thesis
    using assms(1) vn by (auto simp: Modbus_UpdateDevice_def Let_def modbus_variable_def bind_eq_Some_conv split: if_splits)
qed

definition padded_request :: v1_ModBusDevice where
  "padded_request =
     \<lparr>xmd_DeviceMeta = \<lparr>xd_Topic = [], xd_Name = ''press'', xd_DeviceCode = ''p'', xd_DeviceType = ''modbus'',
        xd_DeviceModel = ''modbusTcp''\<rparr>,
      xmd_CollectorCycle = 1, xmd_VariableInterval = 0,
      xmd_Address = Some \<lparr>xma_Location = ''host'', xma_Option = Some \<lparr>xmo_Port = 502, xmo_BaudRate = 0, xmo_DataBits = 0,
        xmo_Parity = [], xmo_StopBits = []\<rparr>\<rparr>,
      xmd_Slave = 1, xmd_MemoryLayout = ''ABCD'', xmd_PositionAddress = 0,
      xmd_Variables = [\<lparr>xm_DataType = ''int16'', xm_Name = ''level '', xm_Address = Some 4, xm_Bits = 0,
        xm_FunctionCode = 3, xm_Rate = f64_zero, xm_Amount = 0, xm_DefaultValue = VNil,
        xm_AccessMode = AccessModeReadWrite\<rparr>]\<rparr>"

lemma padded_variable_duplicated_witness:
  "\<exists>e updated. Modbus_CreateDevice example_stamp (V1ModBus padded_request) = Some (Inr (ModbusDev e)) \<and>
     Modbus_UpdateDevice id (V1ModBus padded_request) (DeepCopyObject (ModbusDev e)) = Some (Inr updated) \<and>
     map GetVariableName (dev_variables updated) = [''level '', ''level '']"
proof -
  obtain e where e: "Modbus_CreateDevice example_stamp (V1ModBus padded_request) = Some (Inr (ModbusDev e))"
    "map mv_Name (md_Variables e) = [''level '']"
    by (simp add: Modbus_CreateDevice_def padded_request_def Let_def modbus_variable_def)
  obtain updated where u: "Modbus_UpdateDevice id (V1ModBus padded_request) (DeepCopyObject (ModbusDev e)) = Some (Inr updated)"
    by (simp add: Modbus_UpdateDevice_def padded_request_def Let_def)
  have "TrimSpace ''level '' \<noteq> ''level ''" by (simp add: TrimSpace_def is_space_def)
  then show ?thesis
    using padded_variable_duplicated [OF u e(2)] e(1) u by (simp add: padded_request_def)
qed

end
