(* ===== verification/DeviceFilter.thy ===== *)
theory DeviceFilter
  imports DeviceManagers
begin

text \<open>
  Model of \<^verbatim>\<open>pkg/runtime/filter.go\<close>: the sorter that \<open>ListDevices\<close> inserts devices with, including the binary
  search of \<^verbatim>\<open>sort.Search\<close>, and the predicates of a device filter. A filter arrives as JSON; what
  \<^verbatim>\<open>mapstructure.Decode\<close> makes of the name filter is a parameter.
\<close>

section \<open>Searching and inserting\<close>

text \<open>\<^verbatim>\<open>sort.Search(n, f)\<close>: the loop with the bounds \<open>i\<close> and \<open>j\<close>.\<close>

function search_loop :: "(nat \<Rightarrow> bool) \<Rightarrow> nat \<Rightarrow> nat \<Rightarrow> nat" where
  "search_loop f i j =
     (if i < j then
        let h = (i + j) div 2
        in if \<not> f h then search_loop f (h + 1) j else search_loop f i h
      else i)"
  by pat_completeness auto
termination by (relation "measure (\<lambda>(f, i, j). j - i)") auto

declare search_loop.simps [simp del]

definition sort_Search :: "nat \<Rightarrow> (nat \<Rightarrow> bool) \<Rightarrow> nat" where
  "sort_Search n f = search_loop f 0 n"

text \<open>\<open>less\<close>: all but the last comparison decide when they can; without a comparison it panics.\<close>

fun type_less :: "('d \<Rightarrow> 'd \<Rightarrow> bool) list \<Rightarrow> 'd \<Rightarrow> 'd \<Rightarrow> bool option" where
  "type_less [] p q = None"
| "type_less [lt] p q = Some (lt p q)"
| "type_less (lt # lessFuncs) p q =
     (if lt p q then Some True else if lt q p then Some False else type_less lessFuncs p q)"

text \<open>\<open>Insert\<close>: the comparison must not panic on any element, as it does without comparisons only.\<close>

definition sorter_Insert :: "('d \<Rightarrow> 'd \<Rightarrow> bool) list \<Rightarrow> 'd list \<Rightarrow> 'd \<Rightarrow> 'd list option" where
  "sorter_Insert lessFuncs ds d =
     (if lessFuncs = [] \<and> ds \<noteq> [] then None
      else let i = sort_Search (length ds) (\<lambda>i. type_less lessFuncs (ds ! i) d = Some True)
           in Some (take i ds @ d # drop i ds))"

lemma search_loop_stop: "\<not> i < j \<Longrightarrow> search_loop f i j = i"
  by (subst search_loop.simps) simp

lemma search_loop_right: "i < j \<Longrightarrow> \<not> f ((i + j) div 2) \<Longrightarrow> search_loop f i j = search_loop f ((i + j) div 2 + 1) j"
  by (subst search_loop.simps) (simp add: Let_def)

lemma search_loop_left: "i < j \<Longrightarrow> f ((i + j) div 2) \<Longrightarrow> search_loop f i j = search_loop f i ((i + j) div 2)"
  by (subst search_loop.simps) (simp add: Let_def)

lemma search_loop_found:
  assumes "i \<le> j" "\<And>a b. a \<le> b \<Longrightarrow> b < n \<Longrightarrow> f a \<Longrightarrow> f b" "j \<le> n"
    and "\<forall>k < i. \<not> f k" "\<forall>k. j \<le> k \<and> k < n \<longrightarrow> f k"
  shows "search_loop f i j \<le> j \<and> (\<forall>k < search_loop f i j. \<not> f k) \<and> (\<forall>k. search_loop f i j \<le> k \<and> k < n \<longrightarrow> f k)"
  using assms
proof (induction f i j rule: search_loop.induct)
  case (1 f i j)
  let ?h = "(i + j) div 2"
  consider "\<not> i < j" | "i < j" "f ?h" | "i < j" "\<not> f ?h" by blast
  then show ?case
  proof cases
    assume "\<not> i < j"
    then show ?thesis using "1.prems" by (simp add: search_loop_stop)
  next
    assume h: "i < j" "f ?h"
    have "?h \<le> j" "?h \<le> n" "i \<le> ?h" using h(1) "1.prems"(3) by auto
    moreover have "\<forall>k. ?h \<le> k \<and> k < n \<longrightarrow> f k" using h(2) "1.prems"(2) by blast
    ultimately have "search_loop f i ?h \<le> ?h \<and> (\<forall>k < search_loop f i ?h. \<not> f k) \<and>
        (\<forall>k. search_loop f i ?h \<le> k \<and> k < n \<longrightarrow> f k)"
      using "1.IH"(2) [OF h(1) refl] h(2) "1.prems"(2,4) by blast
    then show ?thesis using \<open>?h \<le> j\<close> unfolding search_loop_left [of i j f, OF h] by (meson order_trans)
  next
    assume h: "i < j" "\<not> f ?h"
    have "\<not> f k" if "k < ?h + 1" for k
    proof
      assume "f k"
      moreover have "k \<le> ?h" "?h < n" using that h(1) "1.prems"(3) by auto
      ultimately show False using "1.prems"(2) h(2) by blast
    qed
    moreover have "?h + 1 \<le> j" using h(1) by auto
    ultimately show ?thesis
      using "1.IH"(1) [OF h(1) refl h(2)] "1.prems"(2,3,5) unfolding search_loop_right [of i j f, OF h] by blast
  qed
qed

text \<open>The search finds the first index at which a monotone predicate holds.\<close>

lemma sort_Search_first:
  assumes "\<And>a b. a \<le> b \<Longrightarrow> b < n \<Longrightarrow> f a \<Longrightarrow> f b"
  shows "sort_Search n f \<le> n \<and> (\<forall>k < sort_Search n f. \<not> f k) \<and> (\<forall>k. sort_Search n f \<le> k \<and> k < n \<longrightarrow> f k)"
  unfolding sort_Search_def
proof (rule search_loop_found)
  show "f b" if "a \<le> b" "b < n" "f a" for a b using that by (rule assms)
qed auto

lemma sorter_Insert_sorted:
  fixes key :: "'d \<Rightarrow> 'k :: linorder"
  assumes sorted: "sorted_wrt (\<lambda>a b. key b \<le> key a) ds"
  shows "\<exists>ds'. sorter_Insert [\<lambda>a b. key a < key b] ds d = Some ds' \<and> mset ds' = add_mset d (mset ds) \<and>
    sorted_wrt (\<lambda>a b. key b \<le> key a) ds'"
proof -
  define i where "i = sort_Search (length ds) (\<lambda>i. key (ds ! i) < key d)"
  have mono: "key (ds ! b) < key d" if "a \<le> b" "b < length ds" "key (ds ! a) < key d" for a b
    using that sorted sorted_wrt_nth_less [OF sorted, of a b] by (cases "a = b") (auto intro: le_less_trans)
  have i: "i \<le> length ds" "\<forall>k < i. \<not> key (ds ! k) < key d" "\<forall>k. i \<le> k \<and> k < length ds \<longrightarrow> key (ds ! k) < key d"
    using sort_Search_first [of "length ds" "\<lambda>i. key (ds ! i) < key d"] mono unfolding i_def by blast+
  have before: "key d \<le> key x" if "x \<in> set (take i ds)" for x
    using that i(1,2) by (force simp: in_set_conv_nth)
  have after: "key x < key d" if "x \<in> set (drop i ds)" for x
    using that i(1,3) by (force simp: in_set_conv_nth)
  have "sorted_wrt (\<lambda>a b. key b \<le> key a) (take i ds @ drop i ds)" using sorted by simp
  then have "sorted_wrt (\<lambda>a b. key b \<le> key a) (take i ds @ d # drop i ds)"
    using before after unfolding sorted_wrt_append by (fastforce dest: less_imp_le)
  moreover have "mset (take i ds @ d # drop i ds) = add_mset d (mset ds)"
    by (metis append_take_drop_id mset.simps(2) mset_append union_mset_add_mset_right)
  ultimately show ?thesis by (simp add: sorter_Insert_def i_def Let_def)
qed

section \<open>Predicates\<close>

definition has_suffix :: "string \<Rightarrow> string \<Rightarrow> bool" where
  "has_suffix s p \<longleftrightarrow> length p \<le> length s \<and> drop (length s - length p) s = p"

record NameFilterFunc =
  nf_Eq :: string
  nf_In :: "string list"
  nf_Contains :: string
  nf_StartsWith :: string
  nf_EndsWith :: string

record GwDeviceFilter =
  flt_Name :: GoValue
  flt_Id :: string
  flt_DeviceCode :: string
  flt_DeviceType :: string

definition name_predicates :: "NameFilterFunc \<Rightarrow> (Device \<Rightarrow> bool) list" where
  "name_predicates ff =
     (if nf_Eq ff \<noteq> [] then [\<lambda>d. nf_Eq ff = GetName d] else []) @
     (if nf_In ff \<noteq> [] then [\<lambda>d. list_ex (\<lambda>name. name = GetName d) (nf_In ff)] else []) @
     (if nf_Contains ff \<noteq> [] then [\<lambda>d. str_contains (GetName d) (nf_Contains ff)] else []) @
     (if nf_StartsWith ff \<noteq> [] then [\<lambda>d. has_prefix (GetName d) (TrimSpace (nf_StartsWith ff))] else []) @
     (if nf_EndsWith ff \<noteq> [] then [\<lambda>d. has_suffix (GetName d) (TrimSpace (nf_EndsWith ff))] else [])"

definition ParseTypeFilter :: "(GoValue \<Rightarrow> NameFilterFunc) \<Rightarrow> GwDeviceFilter \<Rightarrow> (Device \<Rightarrow> bool) list" where
  "ParseTypeFilter decode flt =
     (if flt_Id flt \<noteq> [] then [\<lambda>dd. flt_Id flt = GetID dd] else []) @
     (case flt_Name flt of
        VNil \<Rightarrow> []
      | VString name \<Rightarrow> [\<lambda>d. name = GetName d]
      | value' \<Rightarrow> name_predicates (decode value'))"

text \<open>The loop over the devices: the first predicate that fails stops the check of a device.\<close>

fun all_match :: "(Device \<Rightarrow> bool) list \<Rightarrow> Device \<Rightarrow> bool" where
  "all_match [] d = True"
| "all_match (p # predicates) d = (if \<not> p d then False else all_match predicates d)"

lemma all_match_iff: "all_match ps d \<longleftrightarrow> (\<forall>p \<in> set ps. p d)"
  by (induction ps) auto

end
