(* ===== verification/Storage.thy ===== *)
theory Storage
  imports DeviceManagers
begin

text \<open>
  Model of the store: \<^verbatim>\<open>pkg/storage/store_fs.go\<close>, one file of JSON per object, and
  \<^verbatim>\<open>pkg/generic/store.go\<close> over it, which keeps the devices of the gateway in the files \<open>type.id\<close> of one
  directory. A file holds the document of a device, that is what decoding gives back, or something that
  does not decode. What the operating system may refuse is a parameter (\<open>io_fault\<close>), and so are the order
  in which the directory is walked and the number the version is advanced by. Names have no path separators
  and strings are valid UTF-8.
\<close>

section \<open>Documents\<close>

text \<open>What encoding a value of interface type as JSON and decoding it again gives: every number is a
  \<^verbatim>\<open>float64\<close> afterwards; NaN and the infinities have no JSON. The shortest decimal of a \<^verbatim>\<open>float32\<close>, read as
  a \<^verbatim>\<open>float64\<close>, is the parameter \<open>f32_text\<close>.\<close>

definition fp_finite :: "fp \<Rightarrow> bool" where
  "fp_finite v = (case v of FP_Fin _ _ _ \<Rightarrow> True | _ \<Rightarrow> False)"

fun json_value :: "(f32 \<Rightarrow> f64) \<Rightarrow> GoValue \<Rightarrow> GoValue option"
  and json_values :: "(f32 \<Rightarrow> f64) \<Rightarrow> GoValue list \<Rightarrow> GoValue list option"
  and json_members :: "(f32 \<Rightarrow> f64) \<Rightarrow> (string \<times> GoValue) list \<Rightarrow> (string \<times> GoValue) list option" where
  "json_value f32_text VNil = Some VNil"
| "json_value f32_text (VBool b) = Some (VBool b)"
| "json_value f32_text (VInt16 w) = Some (VFloat64 (f64_of_int (sint w)))"
| "json_value f32_text (VUint16 w) = Some (VFloat64 (f64_of_int (uint w)))"
| "json_value f32_text (VInt32 w) = Some (VFloat64 (f64_of_int (sint w)))"
| "json_value f32_text (VUint32 w) = Some (VFloat64 (f64_of_int (uint w)))"
| "json_value f32_text (VInt64 w) = Some (VFloat64 (f64_of_int (sint w)))"
| "json_value f32_text (VFloat32 x) = (if fp_finite (f32_val x) then Some (VFloat64 (f32_text x)) else None)"
| "json_value f32_text (VFloat64 x) = (if fp_finite (f64_val x) then Some (VFloat64 x) else None)"
| "json_value f32_text (VString s) = Some (VString s)"
| "json_value f32_text (VList vs) = map_option VList (json_values f32_text vs)"
| "json_value f32_text (VMap ms) = map_option VMap (json_members f32_text ms)"
| "json_values f32_text [] = Some []"
| "json_values f32_text (v # vs) =
     do { v' \<leftarrow> json_value f32_text v; vs' \<leftarrow> json_values f32_text vs; Some (v' # vs') }"
| "json_members f32_text [] = Some []"
| "json_members f32_text ((k, v) # ms) =
     do { v' \<leftarrow> json_value f32_text v; ms' \<leftarrow> json_members f32_text ms; Some ((k, v') # ms') }"

definition json_rate :: "f64 \<Rightarrow> f64 option" where
  "json_rate x = (if fp_finite (f64_val x) then Some x else None)"

definition json_modbus_variable :: "(f32 \<Rightarrow> f64) \<Rightarrow> ModbusVariable \<Rightarrow> ModbusVariable option" where
  "json_modbus_variable f32_text v =
     do { rate \<leftarrow> json_rate (mv_Rate v);
          defaultValue \<leftarrow> json_value f32_text (mv_DefaultValue v);
          val \<leftarrow> json_value f32_text (mv_Value v);
          Some (v\<lparr>mv_Rate := rate, mv_DefaultValue := defaultValue, mv_Value := val\<rparr>) }"

definition json_s7_variable :: "(f32 \<Rightarrow> f64) \<Rightarrow> S7Variable \<Rightarrow> S7Variable option" where
  "json_s7_variable f32_text v =
     do { rate \<leftarrow> json_rate (sv_Rate v);
          defaultValue \<leftarrow> json_value f32_text (sv_DefaultValue v);
          val \<leftarrow> json_value f32_text (sv_Value v);
          Some (v\<lparr>sv_Rate := rate, sv_DefaultValue := defaultValue, sv_Value := val\<rparr>) }"

definition json_opcua_variable :: "(f32 \<Rightarrow> f64) \<Rightarrow> OpcUaVariable \<Rightarrow> OpcUaVariable option" where
  "json_opcua_variable f32_text v =
     do { address \<leftarrow> json_value f32_text (ov_Address v);
          defaultValue \<leftarrow> json_value f32_text (ov_DefaultValue v);
          val \<leftarrow> json_value f32_text (ov_Value v);
          Some (v\<lparr>ov_Address := address, ov_DefaultValue := defaultValue, ov_Value := val\<rparr>) }"

text \<open>The document of a device. The map of the variables is not part of it (\<^verbatim>\<open>json:"-"\<close>).\<close>

fun json_document :: "(f32 \<Rightarrow> f64) \<Rightarrow> Device \<Rightarrow> Device option" where
  "json_document f32_text (ModbusDev d) =
     do { vs \<leftarrow> those (map (json_modbus_variable f32_text) (md_Variables d));
          Some (ModbusDev (d\<lparr>md_Variables := vs, md_VariablesMap := (\<lambda>_. None)\<rparr>)) }"
| "json_document f32_text (S7Dev d) =
     do { vs \<leftarrow> those (map (json_s7_variable f32_text) (sd_Variables d));
          Some (S7Dev (d\<lparr>sd_Variables := vs, sd_VariablesMap := (\<lambda>_. None)\<rparr>)) }"
| "json_document f32_text (OpcUaDev d) =
     do { vs \<leftarrow> those (map (json_opcua_variable f32_text) (od_Variables d));
          Some (OpcUaDev (d\<lparr>od_Variables := vs, od_VariablesMap := (\<lambda>_. None)\<rparr>)) }"
| "json_document f32_text (MetaDev m) = Some (MetaDev m)"

lemma json_document_meta: "json_document f d = Some d' \<Longrightarrow> dev_meta d' = dev_meta d"
  by (cases d) (auto simp: bind_eq_Some_conv)

section \<open>The file store\<close>

datatype file_content = Document Device | Unreadable

type_synonym file_dir = "string \<Rightarrow> file_content option"

datatype store_error = FsExist | FsNotExist | FsWriteConflict | FsInternal | FsMismatch | FsEncode

datatype io_fault = IoLock | IoTruncate | IoSeek | IoWrite | IoRemove

definition file_meta :: "file_content \<Rightarrow> ObjectMeta option" where
  "file_meta c = (case c of Document d \<Rightarrow> Some (dm_ObjectMeta (dev_meta d)) | Unreadable \<Rightarrow> None)"

text \<open>\<open>encode\<close> stands for \<open>json_document\<close>; what cannot be encoded leaves the file as it was opened, empty.\<close>

definition fs_Create ::
  "(Device \<Rightarrow> Device option) \<Rightarrow> io_fault option \<Rightarrow> string \<Rightarrow> Device \<Rightarrow> file_dir \<Rightarrow> (store_error + Device) \<times> file_dir" where
  "fs_Create encode fault key obj fs =
     (if fs key \<noteq> None then (Inl FsExist, fs)
      else case encode obj of
        None \<Rightarrow> (Inl FsEncode, fs(key \<mapsto> Unreadable))
      | Some doc \<Rightarrow>
          if fault = Some IoWrite then (Inl FsEncode, fs(key \<mapsto> Unreadable))
          else (Inr obj, fs(key \<mapsto> Document doc)))"

definition fs_Get :: "string \<Rightarrow> file_dir \<Rightarrow> store_error + file_content" where
  "fs_Get key fs = (case fs key of Some c \<Rightarrow> Inr c | None \<Rightarrow> Inl FsNotExist)"

definition fs_Delete ::
  "io_fault option \<Rightarrow> string \<Rightarrow> string \<Rightarrow> file_dir \<Rightarrow> (store_error + unit) \<times> file_dir" where
  "fs_Delete fault key version fs =
     (if version = [] then (Inr (), if fault = Some IoRemove then fs else fs(key := None))
      else case fs key of
        None \<Rightarrow> (Inl FsNotExist, fs)
      | Some c \<Rightarrow>
          if fault = Some IoLock then (Inl FsWriteConflict, fs)
          else case file_meta c of
            None \<Rightarrow> (Inl FsInternal, fs)
          | Some target \<Rightarrow>
              if om_Version target \<noteq> version then (Inl FsMismatch, fs)
              else if fault = Some IoRemove then (Inl FsInternal, fs)
              else (Inr (), fs(key := None)))"

text \<open>\<^verbatim>\<open>strconv.ParseUint(version, 10, 64)\<close> without its error, and the next version.\<close>

definition ParseUint :: "string \<Rightarrow> uint" where
  "ParseUint s =
     (case (if s = [] then BadSyntax else parse_digits 0 s) of
        Digits n \<Rightarrow> of_nat n
      | TooLarge \<Rightarrow> - 1
      | BadSyntax \<Rightarrow> 0)"

definition next_version :: "nat \<Rightarrow> string \<Rightarrow> string" where
  "next_version r version = show_nat (unat (ParseUint version + of_nat r))"

text \<open>\<open>Update\<close> sets the version of the object it was given before it writes; the object is returned in either
  case. A file that could not be written has been truncated.\<close>

definition fs_Update ::
  "(Device \<Rightarrow> Device option) \<Rightarrow> io_fault option \<Rightarrow> nat \<Rightarrow> string \<Rightarrow> string \<Rightarrow> Device \<Rightarrow> file_dir \<Rightarrow>
   (store_error + Device) \<times> file_dir" where
  "fs_Update encode fault r key version obj fs =
     (case fs key of
        None \<Rightarrow> (Inl FsNotExist, fs)
      | Some c \<Rightarrow>
          if fault = Some IoLock then (Inl FsWriteConflict, fs)
          else case file_meta c of
            None \<Rightarrow> (Inl FsInternal, fs)
          | Some old \<Rightarrow>
              if version \<noteq> om_Version old then (Inl FsMismatch, fs)
              else
                let obj = SetVersion (next_version r version) obj
                in if fault = Some IoTruncate then (Inl FsInternal, fs)
                   else if fault = Some IoSeek then (Inl FsInternal, fs(key \<mapsto> Unreadable))
                   else case encode obj of
                     None \<Rightarrow> (Inl FsInternal, fs(key \<mapsto> Unreadable))
                   | Some doc \<Rightarrow>
                       if fault = Some IoWrite then (Inl FsInternal, fs(key \<mapsto> Unreadable))
                       else (Inr obj, fs(key \<mapsto> Document doc)))"

section \<open>The store of the devices\<close>

definition store_key :: "Device \<Rightarrow> string" where
  "store_key obj = GetDeviceType obj @ ''.'' @ GetID obj"

definition Store_Create ::
  "(Device \<Rightarrow> Device option) \<Rightarrow> io_fault option \<Rightarrow> Device \<Rightarrow> file_dir \<Rightarrow> (store_error + Device) \<times> file_dir" where
  "Store_Create encode fault obj = fs_Create encode fault (store_key obj) obj"

definition Store_Update ::
  "(Device \<Rightarrow> Device option) \<Rightarrow> io_fault option \<Rightarrow> nat \<Rightarrow> Device \<Rightarrow> file_dir \<Rightarrow>
   (store_error + Device) \<times> file_dir" where
  "Store_Update encode fault r obj = fs_Update encode fault r (store_key obj) (GetVersion obj) obj"

definition Store_Delete ::
  "io_fault option \<Rightarrow> Device \<Rightarrow> file_dir \<Rightarrow> (store_error + Device) \<times> file_dir" where
  "Store_Delete fault obj fs =
     (case fs_Delete fault (store_key obj) (GetVersion obj) fs of
        (Inr _, fs') \<Rightarrow> (Inr obj, fs')
      | (Inl e, fs') \<Rightarrow> (Inl e, fs'))"

text \<open>\<open>LoadResource\<close> takes the type from the name of the file; a name without a period, or with a type that is
  not registered, panics. A document of another type is decoded by \<open>other\<close>; what does not decode is
  skipped.\<close>

fun device_protocol :: "Device \<Rightarrow> Protocol option" where
  "device_protocol (ModbusDev d) = Some PModbus"
| "device_protocol (S7Dev d) = Some PS7"
| "device_protocol (OpcUaDev d) = Some POpcUa"
| "device_protocol (MetaDev m) = None"

definition load_file ::
  "(Protocol \<Rightarrow> Device \<Rightarrow> Device option) \<Rightarrow> string \<Rightarrow> file_content \<Rightarrow> Device option option" where
  "load_file other fileName c =
     do { i \<leftarrow> str_last_index fileName CHR ''.'';
          p \<leftarrow> DeviceManagers (take i fileName);
          Some (case c of
                  Unreadable \<Rightarrow> None
                | Document d \<Rightarrow> if device_protocol d = Some p then Some d else other p d) }"

primrec load_files ::
  "(Protocol \<Rightarrow> Device \<Rightarrow> Device option) \<Rightarrow> file_dir \<Rightarrow> string list \<Rightarrow> Device list option" where
  "load_files other fs [] = Some []"
| "load_files other fs (name # names) =
     do { c \<leftarrow> fs name;
          r \<leftarrow> load_file other name c;
          ds \<leftarrow> load_files other fs names;
          Some (case r of Some d \<Rightarrow> d # ds | None \<Rightarrow> ds) }"

section \<open>A stored device is read back\<close>

lemma div_mult_le_int: "0 < b \<Longrightarrow> a div b * b \<le> (a :: int)"
  using pos_mod_sign [of b a] by (simp add: minus_mod_eq_div_mult [symmetric])

text \<open>An integer of 64 bits is a finite \<^verbatim>\<open>float64\<close>.\<close>

lemma fp_magnitude_int:
  assumes "0 < n" "n < 2 ^ 64"
  shows "0 \<le> fp_magnitude 52 11 n 0 \<and> fp_magnitude 52 11 n 0 \<le> 1087 * 2 ^ 52"
proof -
  let ?l = "int (bitlen n)"
  have l: "1 \<le> ?l" "?l \<le> 64" using assms bitlen_le [of n 64] bitlen_pos [of n] by simp_all
  have n: "n < 2 ^ bitlen n" using assms(1) bitlen_bounds by blast
  define m' where "m' = (if ?l - 53 \<le> 0 then n * 2 ^ nat (53 - ?l) else round_half_even n (nat (?l - 53)))"
  have mag: "fp_magnitude 52 11 n 0 = min ((?l - 53 + 1074) * 2 ^ 52 + m') ((2 ^ 11 - 1) * 2 ^ 52)"
    using l by (simp add: fp_magnitude_def fp_emin_def m'_def Let_def max_def)
  have "0 \<le> m' \<and> m' \<le> 2 ^ 53"
  proof (cases "?l - 53 \<le> 0")
    case True
    have "n * 2 ^ nat (53 - ?l) \<le> 2 ^ bitlen n * 2 ^ nat (53 - ?l)" using n by (intro mult_right_mono) auto
    also have "\<dots> = 2 ^ (bitlen n + nat (53 - ?l))" by (simp add: power_add)
    also have "bitlen n + nat (53 - ?l) = 53" using True by simp
    finally show ?thesis using assms(1) True by (simp add: m'_def)
  next
    case False
    define k where "k = nat (?l - 53)"
    have "bitlen n = 53 + k" using False by (simp add: k_def)
    then have "(2::int) ^ bitlen n = 2 ^ 53 * 2 ^ k" by (simp only: power_add)
    then have "n < 2 ^ 53 * 2 ^ k" using n by simp
    then have "n div 2 ^ k < 2 ^ 53"
      by (metis mult_less_cancel_right_pos div_mult_le_int zero_less_power zero_less_numeral order_le_less_trans)
    moreover have "0 \<le> n div 2 ^ k" using assms(1) by (simp add: pos_imp_zdiv_nonneg_iff)
    ultimately have "0 \<le> round_half_even n k \<and> round_half_even n k \<le> 2 ^ 53"
      unfolding round_half_even_def Let_def by (simp split: if_split)
    then show ?thesis using False by (simp add: m'_def k_def)
  qed
  then show ?thesis using l unfolding mag by simp
qed

lemma f64_of_int_finite:
  assumes "\<bar>i\<bar> < 2 ^ 64"
  shows "fp_finite (f64_val (f64_of_int i))"
proof -
  define b where "b = (if \<bar>i\<bar> = 0 then 0 else fp_magnitude 52 11 \<bar>i\<bar> 0)"
  have b: "0 \<le> b" "b \<le> 1087 * 2 ^ 52" using fp_magnitude_int [of "\<bar>i\<bar>"] assms by (auto simp: b_def)
  have "fp_encode 52 11 (fp_of_int i) = (if i < 0 then 2 ^ 63 else 0) + b"
    by (simp add: fp_of_int_def fp_encode_def b_def)
  moreover define e where "e = (if i < 0 then 2 ^ 63 else 0) + b"
  moreover have "uint (word_of_int e :: u64) = e"
    using b by (intro word_of_int_inverse [OF refl]) (auto simp: e_def)
  ultimately have "uint (f64_bits (f64_of_int i)) = (if i < 0 then 2 ^ 63 else 0) + b"
    by (simp add: f64_of_int_def f64_of_def)
  moreover have "((if i < 0 then 2 ^ 63 else 0) + b) div 2 ^ 52 mod 2 ^ 11 \<noteq> 2 ^ 11 - 1"
  proof -
    have "((if i < 0 then 2 ^ 63 else 0) + b) div 2 ^ 52 = (if i < 0 then 2 ^ 11 else 0) + b div 2 ^ 52"
      using div_mult_self3 [of "2 ^ 52" "2 ^ 11" b] by simp
    moreover have "0 \<le> b div 2 ^ 52" "b div 2 ^ 52 \<le> 1087" using b by auto
    ultimately show ?thesis by simp
  qed
  ultimately show ?thesis by (simp add: fp_finite_def f64_val_def fp_decode_def Let_def)
qed

lemma word_ints:
  "\<bar>sint (w :: u16)\<bar> < 2 ^ 64" "\<bar>sint (x :: u32)\<bar> < 2 ^ 64" "\<bar>sint (y :: u64)\<bar> < 2 ^ 64"
  "\<bar>uint w\<bar> < 2 ^ 64" "\<bar>uint x\<bar> < 2 ^ 64"
  using sint_ge [of w] sint_lt [of w] sint_ge [of x] sint_lt [of x] sint_ge [of y] sint_lt [of y]
    uint_bounded [of w] uint_bounded [of x] by simp_all

lemmas json_ints_finite = word_ints [THEN f64_of_int_finite]

lemma json_value_stable:
  "(\<And>x. fp_finite (f64_val (f32_text x))) \<Longrightarrow> json_value f32_text v = Some v' \<Longrightarrow> json_value f32_text v' = Some v'"
  "(\<And>x. fp_finite (f64_val (f32_text x))) \<Longrightarrow> json_values f32_text vs = Some vs' \<Longrightarrow> json_values f32_text vs' = Some vs'"
  "(\<And>x. fp_finite (f64_val (f32_text x))) \<Longrightarrow> json_members f32_text ms = Some ms' \<Longrightarrow> json_members f32_text ms' = Some ms'"
proof (induction f32_text v and f32_text vs and f32_text ms arbitrary: v' and vs' and ms'
    rule: json_value_json_values_json_members.induct)
qed (auto simp: bind_eq_Some_conv json_ints_finite split: if_splits)

lemma json_variables_stable:
  assumes "\<And>x. fp_finite (f64_val (f32_text x))"
  shows "json_modbus_variable f32_text v = Some v' \<Longrightarrow> json_modbus_variable f32_text v' = Some v'"
    "json_s7_variable f32_text w = Some w' \<Longrightarrow> json_s7_variable f32_text w' = Some w'"
    "json_opcua_variable f32_text x = Some x' \<Longrightarrow> json_opcua_variable f32_text x' = Some x'"
  by (auto simp: json_modbus_variable_def json_s7_variable_def json_opcua_variable_def json_rate_def bind_eq_Some_conv
      json_value_stable(1) [OF assms] split: if_splits)

lemma those_stable:
  "(\<And>v v'. f v = Some v' \<Longrightarrow> f v' = Some v') \<Longrightarrow> those (map f vs) = Some vs' \<Longrightarrow> those (map f vs') = Some vs'"
  by (induction vs arbitrary: vs') (auto split: option.splits)

lemma json_document_stable:
  assumes "\<And>x. fp_finite (f64_val (f32_text x))" "json_document f32_text d = Some d'"
  shows "json_document f32_text d' = Some d'"
proof (cases d)
  case (ModbusDev e)
  then obtain vs where "those (map (json_modbus_variable f32_text) (md_Variables e)) = Some vs"
    "d' = ModbusDev (e\<lparr>md_Variables := vs, md_VariablesMap := (\<lambda>_. None)\<rparr>)"
    using assms(2) by (auto simp: bind_eq_Some_conv)
  then show ?thesis using those_stable [OF json_variables_stable(1) [OF assms(1)]] by simp
next
  case (S7Dev e)
  then obtain vs where "those (map (json_s7_variable f32_text) (sd_Variables e)) = Some vs"
    "d' = S7Dev (e\<lparr>sd_Variables := vs, sd_VariablesMap := (\<lambda>_. None)\<rparr>)"
    using assms(2) by (auto simp: bind_eq_Some_conv)
  then show ?thesis using those_stable [OF json_variables_stable(2) [OF assms(1)]] by simp
next
  case (OpcUaDev e)
  then obtain vs where "those (map (json_opcua_variable f32_text) (od_Variables e)) = Some vs"
    "d' = OpcUaDev (e\<lparr>od_Variables := vs, od_VariablesMap := (\<lambda>_. None)\<rparr>)"
    using assms(2) by (auto simp: bind_eq_Some_conv)
  then show ?thesis using those_stable [OF json_variables_stable(3) [OF assms(1)]] by simp
qed (use assms(2) in auto)

lemma json_document_protocol: "json_document f32_text d = Some d' \<Longrightarrow> device_protocol d' = device_protocol d"
  by (cases d) (auto simp: bind_eq_Some_conv)




end
