(* ===== verification/Response.thy ===== *)
theory Response
  imports Constants GoStrings
begin

text \<open>
  Model of \<^verbatim>\<open>pkg/apis/response\<close>: the error codes and message templates of the HTTP interface, the
  constructors of the errors, and \<open>MultiError\<close> with its JSON form. \<open>Sprintf\<close> models what
  \<^verbatim>\<open>fmt.Sprintf\<close> does with the verbs the templates use, including the text it appends for
  arguments that no verb consumes.
\<close>

section \<open>Formatting\<close>

datatype fmt_arg = AStr string | AInt int

fun show_arg :: "fmt_arg \<Rightarrow> string" where
  "show_arg (AStr s) = s"
| "show_arg (AInt i) = show_int i"

fun extra_arg :: "fmt_arg \<Rightarrow> string" where
  "extra_arg (AStr s) = ''string='' @ s"
| "extra_arg (AInt i) = ''int='' @ show_int i"

fun join_with :: "string \<Rightarrow> string list \<Rightarrow> string" where
  "join_with sep [] = []"
| "join_with sep [s] = s"
| "join_with sep (s # t # r) = s @ sep @ join_with sep (t # r)"

fun fmt_verb :: "char \<Rightarrow> fmt_arg \<Rightarrow> string" where
  "fmt_verb v (AStr s) = (if v = CHR ''s'' then s else ''%!'' @ [v] @ ''(string='' @ s @ '')'')"
| "fmt_verb v (AInt i) = (if v = CHR ''d'' then show_int i else ''%!'' @ [v] @ ''(int='' @ show_int i @ '')'')"

fun Sprintf :: "string \<Rightarrow> fmt_arg list \<Rightarrow> string" where
  "Sprintf [] [] = []"
| "Sprintf [] (a # as) = ''%!(EXTRA '' @ join_with '', '' (map extra_arg (a # as)) @ '')''"
| "Sprintf [c] as = (if c = CHR ''%'' then ''%!(NOVERB)'' else [c]) @ Sprintf [] as"
| "Sprintf (c # v # r) as =
     (if c = CHR ''%'' then
        (if v = CHR ''%'' then CHR ''%'' # Sprintf r as
         else case as of
             [] \<Rightarrow> ''%!'' @ [v] @ ''(MISSING)'' @ Sprintf r []
           | a # rest \<Rightarrow> fmt_verb v a @ Sprintf r rest)
      else c # Sprintf (v # r) as)"

section \<open>Codes and messages\<close>

datatype ErrCode = ErrCodeMalformedJSON | ErrCodeRequestBody | ErrCodeResourceExists
  | ErrCodeResourceNotFound | ErrCodeLegalActionNotFound | ErrCodeBooleanInvalid
  | ErrCodeInteger16Invalid | ErrCodeInteger32Invalid | ErrCodeInteger64Invalid
  | ErrCodeFloat32Invalid | ErrCodeFloat64Invalid | ErrCodeDeviceNotFound
  | ErrCodeVariableNotWritable | ErrCodeDeviceNotConnect | ErrCodeDeviceOperatorUnSupported
  | ErrCodeTooManyJsonPatchOperations

text \<open>\<open>10000 + iota\<close>, the first constant being blank.\<close>

fun ErrCode_value :: "ErrCode \<Rightarrow> int" where
  "ErrCode_value ErrCodeMalformedJSON = 10001"
| "ErrCode_value ErrCodeRequestBody = 10002"
| "ErrCode_value ErrCodeResourceExists = 10003"
| "ErrCode_value ErrCodeResourceNotFound = 10004"
| "ErrCode_value ErrCodeLegalActionNotFound = 10005"
| "ErrCode_value ErrCodeBooleanInvalid = 10006"
| "ErrCode_value ErrCodeInteger16Invalid = 10007"
| "ErrCode_value ErrCodeInteger32Invalid = 10008"
| "ErrCode_value ErrCodeInteger64Invalid = 10009"
| "ErrCode_value ErrCodeFloat32Invalid = 10010"
| "ErrCode_value ErrCodeFloat64Invalid = 10011"
| "ErrCode_value ErrCodeDeviceNotFound = 10012"
| "ErrCode_value ErrCodeVariableNotWritable = 10013"
| "ErrCode_value ErrCodeDeviceNotConnect = 10014"
| "ErrCode_value ErrCodeDeviceOperatorUnSupported = 10015"
| "ErrCode_value ErrCodeTooManyJsonPatchOperations = 10016"

definition response_errors :: "ErrCode \<Rightarrow> string option" where
  "response_errors =
    [ErrCodeMalformedJSON \<mapsto> ''The JSON you provided was not well-formed or did not validate against our published format.'',
     ErrCodeRequestBody \<mapsto> ''Request body error'',
     ErrCodeLegalActionNotFound \<mapsto> ''Legal action not found.'',
     ErrCodeDeviceNotFound \<mapsto> ''Device [%s] not found.'',
     ErrCodeResourceExists \<mapsto> ''Variable [%s] already exists.'',
     ErrCodeResourceNotFound \<mapsto> ''Variable [%s] not found.'',
     ErrCodeVariableNotWritable \<mapsto> ''Variable [%s] not writable.'',
     ErrCodeDeviceNotConnect \<mapsto> ''Device [%s] not connect.'',
     ErrCodeDeviceOperatorUnSupported \<mapsto> ''Device operator [%s] not supported.'',
     ErrCodeTooManyJsonPatchOperations \<mapsto> ''Json Patch operations exceeds %d.'']"

text \<open>\<open>errors[code]\<close> as an expression: a code without a template gives the empty one.\<close>

definition error_template :: "ErrCode \<Rightarrow> string" where
  "error_template code = (case response_errors code of Some t \<Rightarrow> t | None \<Rightarrow> [])"

record responseError =
  re_Code :: int
  re_Message :: string
  re_Err :: "string option"

definition responseError_Error :: "responseError option \<Rightarrow> string" where
  "responseError_Error e =
     (case e of
        None \<Rightarrow> []
      | Some re \<Rightarrow> ''{'' @ [CHR 0x0A] @ ''    \"code\": '' @ show_int (re_Code re) @ '','' @ [CHR 0x0A] @
          ''    \"message\": '' @ re_Message re @ [CHR 0x0A] @ ''}'')"

definition responseError_GetCode :: "responseError option \<Rightarrow> int" where
  "responseError_GetCode e = (case e of None \<Rightarrow> 0 | Some re \<Rightarrow> re_Code re)"

definition generateError :: "ErrCode \<Rightarrow> fmt_arg list \<Rightarrow> responseError" where
  "generateError code s =
     \<lparr>re_Code = ErrCode_value code, re_Message = Sprintf (error_template code) s, re_Err = None\<rparr>"

definition generateErrorWrapper :: "ErrCode \<Rightarrow> string \<Rightarrow> fmt_arg list \<Rightarrow> responseError" where
  "generateErrorWrapper code err s =
     \<lparr>re_Code = ErrCode_value code, re_Message = Sprintf (error_template code) s, re_Err = Some err\<rparr>"

definition ErrMalformedJSON :: responseError where
  "ErrMalformedJSON = \<lparr>re_Code = ErrCode_value ErrCodeMalformedJSON,
     re_Message = error_template ErrCodeMalformedJSON, re_Err = None\<rparr>"

definition ErrRequestBody :: responseError where
  "ErrRequestBody = \<lparr>re_Code = ErrCode_value ErrCodeRequestBody,
     re_Message = error_template ErrCodeRequestBody, re_Err = None\<rparr>"

definition ErrLegalActionNotFound :: responseError where
  "ErrLegalActionNotFound = \<lparr>re_Code = ErrCode_value ErrCodeLegalActionNotFound,
     re_Message = error_template ErrCodeLegalActionNotFound, re_Err = None\<rparr>"

definition ErrResourceExists :: "string \<Rightarrow> responseError" where
  "ErrResourceExists resource = generateError ErrCodeResourceExists [AStr resource]"

definition ErrResourceNotFound :: "string \<Rightarrow> responseError" where
  "ErrResourceNotFound resource = generateError ErrCodeResourceNotFound [AStr resource]"

definition ErrDeviceNotFound :: "string \<Rightarrow> responseError" where
  "ErrDeviceNotFound resource = generateError ErrCodeDeviceNotFound [AStr resource]"

definition ErrDeviceNotConnect :: "string \<Rightarrow> responseError" where
  "ErrDeviceNotConnect resource = generateError ErrCodeDeviceNotConnect [AStr resource]"

definition ErrDeviceOperatorUnSupported :: "string \<Rightarrow> responseError" where
  "ErrDeviceOperatorUnSupported operator = generateError ErrCodeDeviceOperatorUnSupported [AStr operator]"

definition ErrTooManyJsonPatchOperations :: "int \<Rightarrow> responseError" where
  "ErrTooManyJsonPatchOperations m = generateError ErrCodeTooManyJsonPatchOperations [AInt m]"

text \<open>The variadic constructors append an empty argument to a single one.\<close>

definition invalid_infos :: "string list \<Rightarrow> fmt_arg list" where
  "invalid_infos infos = map AStr (if length infos = 1 then infos @ [[]] else infos)"

definition ErrBooleanInvalid :: "string list \<Rightarrow> responseError" where
  "ErrBooleanInvalid infos = generateError ErrCodeBooleanInvalid (invalid_infos infos)"

definition ErrInteger16Invalid :: "string list \<Rightarrow> responseError" where
  "ErrInteger16Invalid infos = generateError ErrCodeInteger16Invalid (invalid_infos infos)"

definition ErrInteger32Invalid :: "string list \<Rightarrow> responseError" where
  "ErrInteger32Invalid infos = generateError ErrCodeInteger32Invalid (invalid_infos infos)"

definition ErrInteger64Invalid :: "string list \<Rightarrow> responseError" where
  "ErrInteger64Invalid infos = generateError ErrCodeInteger64Invalid (invalid_infos infos)"

definition ErrFloat32Invalid :: "string list \<Rightarrow> responseError" where
  "ErrFloat32Invalid infos = generateError ErrCodeFloat32Invalid (invalid_infos infos)"

definition ErrFloat64Invalid :: "string list \<Rightarrow> responseError" where
  "ErrFloat64Invalid infos = generateError ErrCodeFloat64Invalid (invalid_infos infos)"

section \<open>MultiError\<close>

text \<open>An element of the list: a \<open>*responseError\<close> (possibly nil), or any other error, of which only its
  text is known; such an error marshals to \<open>{}\<close>, having no exported field.\<close>

datatype any_error = ErrResponse "responseError option" | ErrPlain string

record MultiError =
  me_errors :: "any_error list"

definition NewMultiError :: "any_error list \<Rightarrow> MultiError" where
  "NewMultiError err = \<lparr>me_errors = err\<rparr>"

definition MultiError_Add :: "MultiError \<Rightarrow> any_error list \<Rightarrow> MultiError" where
  "MultiError_Add e err = e\<lparr>me_errors := me_errors e @ err\<rparr>"

definition MultiError_Len :: "MultiError option \<Rightarrow> nat" where
  "MultiError_Len e = (case e of None \<Rightarrow> 0 | Some m \<Rightarrow> length (me_errors m))"

definition MultiError_Errors :: "MultiError \<Rightarrow> any_error list" where
  "MultiError_Errors e = me_errors e"

fun any_error_text :: "any_error \<Rightarrow> string" where
  "any_error_text (ErrResponse e) = responseError_Error e"
| "any_error_text (ErrPlain s) = s"

definition MultiError_Error :: "MultiError \<Rightarrow> string" where
  "MultiError_Error e = join_with ''; '' (map any_error_text (me_errors e))"

fun any_error_json :: "any_error \<Rightarrow> json" where
  "any_error_json (ErrResponse (Some re)) =
     JObject [(''code'', JNumber (re_Code re)), (''message'', JString (re_Message re))]"
| "any_error_json (ErrResponse None) = JNull"
| "any_error_json (ErrPlain s) = JObject []"

text \<open>A slice that nothing was added to is nil and marshals to \<open>null\<close>.\<close>

definition MultiError_MarshalJSON :: "MultiError \<Rightarrow> json" where
  "MultiError_MarshalJSON e =
     JObject [(''errors'',
       if me_errors e = [] then JNull else JArray (map any_error_json (me_errors e)))]"

text \<open>\<^verbatim>\<open>encoding/json\<close> into a \<open>responseError\<close>: the two tagged fields; other keys are skipped.\<close>

fun decode_error_fields :: "(string \<times> json) list \<Rightarrow> responseError \<Rightarrow> responseError option" where
  "decode_error_fields [] re = Some re"
| "decode_error_fields ((k, j) # r) re =
     (if k = ''code'' then
        (case j of JNumber n \<Rightarrow> decode_error_fields r (re\<lparr>re_Code := n\<rparr>)
         | JNull \<Rightarrow> decode_error_fields r re | _ \<Rightarrow> None)
      else if k = ''message'' then
        (case j of JString s \<Rightarrow> decode_error_fields r (re\<lparr>re_Message := s\<rparr>)
         | JNull \<Rightarrow> decode_error_fields r re | _ \<Rightarrow> None)
      else decode_error_fields r re)"

definition decode_error :: "json \<Rightarrow> responseError option option" where
  "decode_error j =
     (case j of
        JObject fs \<Rightarrow> map_option Some (decode_error_fields fs \<lparr>re_Code = 0, re_Message = [], re_Err = None\<rparr>)
      | JNull \<Rightarrow> Some None
      | _ \<Rightarrow> None)"

primrec decode_errors :: "json list \<Rightarrow> responseError option list option" where
  "decode_errors [] = Some []"
| "decode_errors (j # js) = do { e \<leftarrow> decode_error j; es \<leftarrow> decode_errors js; Some (e # es) }"

fun decode_errors_member :: "(string \<times> json) list \<Rightarrow> responseError option list \<Rightarrow> responseError option list option" where
  "decode_errors_member [] es = Some es"
| "decode_errors_member ((k, j) # r) es =
     (if k = ''errors'' then
        (case j of JArray js \<Rightarrow> Option.bind (decode_errors js) (decode_errors_member r)
         | JNull \<Rightarrow> decode_errors_member r [] | _ \<Rightarrow> None)
      else decode_errors_member r es)"

definition MultiError_UnmarshalJSON :: "MultiError \<Rightarrow> json \<Rightarrow> MultiError option" where
  "MultiError_UnmarshalJSON e j =
     (case j of
        JObject fs \<Rightarrow> map_option (\<lambda>es. MultiError_Add e (map ErrResponse es)) (decode_errors_member fs [])
      | JNull \<Rightarrow> Some e
      | _ \<Rightarrow> None)"

text \<open>What survives the JSON form of an error: the code and the message of a response error.\<close>

fun json_visible :: "any_error \<Rightarrow> any_error" where
  "json_visible (ErrResponse (Some re)) = ErrResponse (Some (re\<lparr>re_Err := None\<rparr>))"
| "json_visible (ErrResponse None) = ErrResponse None"
| "json_visible (ErrPlain s) = ErrResponse (Some \<lparr>re_Code = 0, re_Message = [], re_Err = None\<rparr>)"

lemma decode_error_json: "\<exists>e'. decode_error (any_error_json e) = Some e' \<and> ErrResponse e' = json_visible e"
  by (cases e rule: any_error_json.cases) (auto simp: decode_error_def)

lemma decode_errors_json:
  "\<exists>es'. decode_errors (map any_error_json es) = Some es' \<and> map ErrResponse es' = map json_visible es"
proof (induction es)
  case (Cons e es)
  with decode_error_json [of e] show ?case by auto
qed simp

text \<open>Unmarshalling the JSON form of a \<open>MultiError\<close> into an empty one gives the errors in their order
  with code and message intact; only wrapped causes and errors of other types are flattened.\<close>

theorem MultiError_json_roundtrip:
  "MultiError_UnmarshalJSON \<lparr>me_errors = []\<rparr> (MultiError_MarshalJSON e) =
     Some \<lparr>me_errors = map json_visible (me_errors e)\<rparr>"
proof -
  obtain es' where es': "decode_errors (map any_error_json (me_errors e)) = Some es'"
    "map ErrResponse es' = map json_visible (me_errors e)"
    using decode_errors_json by blast
  then show ?thesis
    by (auto simp: MultiError_UnmarshalJSON_def MultiError_MarshalJSON_def MultiError_Add_def)
qed

text \<open>The errors for a value of the wrong type have codes without a template, so their message is
  the complaint of \<^verbatim>\<open>fmt\<close> about its unused arguments, with no word on what is wrong; the errors
  that do have a template mention the resource in it.\<close>

theorem invalid_value_message:
  "f \<in> {ErrBooleanInvalid, ErrInteger16Invalid, ErrInteger32Invalid, ErrInteger64Invalid,
       ErrFloat32Invalid, ErrFloat64Invalid} \<Longrightarrow>
   re_Message (f [name]) = ''%!(EXTRA string='' @ name @ '', string=)''"
  by (auto simp: ErrBooleanInvalid_def ErrInteger16Invalid_def ErrInteger32Invalid_def
      ErrInteger64Invalid_def ErrFloat32Invalid_def ErrFloat64Invalid_def generateError_def
      error_template_def response_errors_def invalid_infos_def)

lemma invalid_value_message_witness:
  "re_Message (ErrBooleanInvalid [''valve'']) = ''%!(EXTRA string=valve, string=)''"
  using invalid_value_message [of ErrBooleanInvalid "''valve''"] by simp

lemma ErrCode_value_inj: "ErrCode_value c = ErrCode_value d \<longleftrightarrow> c = d"
  by (cases c; cases d) simp_all

end
