(* ===== verification/DeviceManager.thy ===== *)
theory DeviceManager
  imports DeviceFilter Storage Response
begin

text \<open>
  Model of \<^verbatim>\<open>pkg/device/manager.go\<close>, the manager of the devices: the operations of the HTTP handlers, and the
  goroutines that probe the devices that could not be reached, that switch the state of a device, that take
  the results of the brokers to MQTT, and that stop a deleted device. Devices are objects of a heap, because
  the table of the devices, the table of the probed ones and the brokers share them; each operation is one
  step. A broker is known by the session it was started with: the channel of its results with its one
  buffered result. What \<^verbatim>\<open>NewBroker\<close> of a protocol returns is the parameter \<open>nb\<close>: \<open>None\<close> is a panic. The values
  the brokers write to the variables of the objects are not followed.
\<close>

section \<open>State\<close>

record ParseVariableResult =
  pvr_VariableSlice :: "VariableValue list"
  pvr_Err :: "any_error list"

record session =
  ses_device :: string
  ses_topic :: string
  ses_buffer :: "ParseVariableResult option"
  ses_closed :: bool

type_synonym new_broker = "Device \<Rightarrow> (broker_error + unit) option"

text \<open>What is published for a result: the names and the values of its variables, under the topic.\<close>

type_synonym point_data = "string \<times> GoValue"

record Manager =
  gm_gatewayID :: string
  gm_objects :: "Device list"
  gm_devices :: "string \<Rightarrow> nat option"
  gm_heartBeat :: "string \<Rightarrow> nat option"
  gm_store :: file_dir
  gm_brokers :: "string \<Rightarrow> nat option"
  gm_sessions :: "session list"
  gm_statusCh :: "string list"
  gm_cancels :: "string list"
  gm_published :: "(string \<times> point_data list) list"

datatype manager_error = MStore store_error | MBroker broker_error | MResponse responseError

abbreviation "ErrNotExist \<equiv> MStore FsNotExist"
abbreviation "ErrMismatch \<equiv> MStore FsMismatch"

definition NewManager :: "string \<Rightarrow> file_dir \<Rightarrow> Manager" where
  "NewManager gatewayID store =
     \<lparr>gm_gatewayID = gatewayID, gm_objects = [], gm_devices = (\<lambda>_. None), gm_heartBeat = (\<lambda>_. None),
      gm_store = store, gm_brokers = (\<lambda>_. None), gm_sessions = [], gm_statusCh = [], gm_cancels = [],
      gm_published = []\<rparr>"

definition obj_at :: "Manager \<Rightarrow> nat \<Rightarrow> Device" where
  "obj_at m a = gm_objects m ! a"

definition map_obj :: "(Device \<Rightarrow> Device) \<Rightarrow> nat \<Rightarrow> Manager \<Rightarrow> Manager" where
  "map_obj f a m = m\<lparr>gm_objects := (gm_objects m)[a := f (obj_at m a)]\<rparr>"

definition set_status :: "CollectStatus \<Rightarrow> nat \<Rightarrow> Manager \<Rightarrow> Manager" where
  "set_status status = map_obj (SetCollectStatus (collect_status_name status))"

section \<open>Starting and stopping the collection\<close>

text \<open>\<open>cancelCollect\<close> of an object with that identity, apart from the state it sets on it.\<close>

definition close_session :: "nat \<Rightarrow> session list \<Rightarrow> session list" where
  "close_session k ss = ss[k := (ss ! k)\<lparr>ses_closed := True\<rparr>]"

definition cancel_id :: "string \<Rightarrow> Manager \<Rightarrow> Manager" where
  "cancel_id ident m =
     (let m = m\<lparr>gm_heartBeat := (gm_heartBeat m)(ident := None)\<rparr>
      in case gm_brokers m ident of
           Some k \<Rightarrow> m\<lparr>gm_sessions := close_session k (gm_sessions m), gm_brokers := (gm_brokers m)(ident := None)\<rparr>
         | None \<Rightarrow> m)"

definition cancelCollect :: "nat \<Rightarrow> Manager \<Rightarrow> Manager" where
  "cancelCollect a m = cancel_id (GetID (obj_at m a)) (set_status Stopped a m)"

text \<open>The part of \<open>readyCollect\<close> behind a successful \<^verbatim>\<open>NewBroker\<close>.\<close>

definition default_topic :: "string \<Rightarrow> string \<Rightarrow> string" where
  "default_topic gatewayID ident = Sprintf ''data/%s/v1/%s'' [AStr gatewayID, AStr ident]"

definition install_broker :: "nat \<Rightarrow> Manager \<Rightarrow> Manager" where
  "install_broker a m =
     (let m = set_status Collecting a m;
          ident = GetID (obj_at m a);
          m = m\<lparr>gm_brokers := (gm_brokers m)(ident \<mapsto> length (gm_sessions m))\<rparr>;
          topic = (if GetTopic (obj_at m a) = [] then default_topic (gm_gatewayID m) ident else GetTopic (obj_at m a));
          m = (if GetTopic (obj_at m a) = [] then map_obj (SetTopic topic) a m else m)
      in m\<lparr>gm_sessions := gm_sessions m @
           [\<lparr>ses_device = ident, ses_topic = topic, ses_buffer = None, ses_closed = False\<rparr>]\<rparr>)"

definition readyCollect ::
  "new_broker \<Rightarrow> nat \<Rightarrow> Manager \<Rightarrow> (broker_error option \<times> Manager) option" where
  "readyCollect nb a m =
     do { made \<leftarrow> nb (obj_at m a);
          Some (case made of
             Inl ErrConnectDevice \<Rightarrow> (Some ErrConnectDevice, set_status Unconnected a m)
           | Inl ErrDeviceEmptyVariable \<Rightarrow> (None, set_status EmptyVariable a m)
           | Inl e \<Rightarrow> (Some e, m)
           | Inr broker \<Rightarrow> (None, install_broker a m)) }"

text \<open>The lines that follow every call but the one of the heart beat: a device that cannot be reached is
  probed from then on.\<close>

definition begin_collect ::
  "new_broker \<Rightarrow> nat \<Rightarrow> Manager \<Rightarrow> (broker_error option \<times> Manager) option" where
  "begin_collect nb a m =
     do { (err, m) \<leftarrow> readyCollect nb a m;
          Some (if err = Some ErrConnectDevice
                then (None, m\<lparr>gm_heartBeat := (gm_heartBeat m)(GetID (obj_at m a) \<mapsto> a)\<rparr>)
                else (err, m)) }"

section \<open>Operations\<close>

definition new_object :: "Device \<Rightarrow> Manager \<Rightarrow> Manager" where
  "new_object d m = m\<lparr>gm_objects := gm_objects m @ [d]\<rparr>"

definition store_device :: "string \<Rightarrow> nat \<Rightarrow> Manager \<Rightarrow> Manager" where
  "store_device ident a m = m\<lparr>gm_devices := (gm_devices m)(ident \<mapsto> a)\<rparr>"

text \<open>\<open>Init\<close> registers and starts the devices that were loaded.\<close>

definition init_device ::
  "new_broker \<Rightarrow> Device \<Rightarrow> Manager \<Rightarrow> Manager option" where
  "init_device nb object m =
     (let a = length (gm_objects m);
          m = store_device (GetID object) a (new_object (IndexDevice object) m)
      in map_option snd (begin_collect nb a m))"

primrec init_devices ::
  "new_broker \<Rightarrow> Device list \<Rightarrow> Manager \<Rightarrow> Manager option" where
  "init_devices nb [] m = Some m"
| "init_devices nb (object # objects) m = Option.bind (init_device nb object m) (init_devices nb objects)"

definition Manager_Init ::
  "(Protocol \<Rightarrow> Device \<Rightarrow> Device option) \<Rightarrow> string list \<Rightarrow> new_broker \<Rightarrow>
   Manager \<Rightarrow> Manager option" where
  "Manager_Init other names nb m =
     do { devices \<leftarrow> load_files other (gm_store m) names; init_devices nb devices m }"

definition Manager_CreateDevice ::
  "(Device \<Rightarrow> Device option) \<Rightarrow> io_fault option \<Rightarrow> new_broker \<Rightarrow> stamp \<Rightarrow>
   V1Device \<Rightarrow> Manager \<Rightarrow> ((manager_error + nat) \<times> Manager) option" where
  "Manager_CreateDevice encode fault nb stamp object m =
     do { made \<leftarrow> manager_CreateDevice (v1_GetDeviceType object) stamp object;
          (case made of
             Inl e \<Rightarrow> Some (Inl (MBroker e), m)
           | Inr device \<Rightarrow>
               (case Store_Create encode fault device (gm_store m) of
                  (Inl e, fs) \<Rightarrow> Some (Inl (MStore e), m\<lparr>gm_store := fs\<rparr>)
                | (Inr rd, fs) \<Rightarrow>
                    let a = length (gm_objects m);
                        m = store_device (GetID rd) a (new_object rd (m\<lparr>gm_store := fs\<rparr>))
                    in do { (err, m) \<leftarrow> begin_collect nb a m;
                            Some (case err of Some e \<Rightarrow> (Inl (MBroker e), m) | None \<Rightarrow> (Inr a, m)) })) }"

definition foldDevice :: "Device \<Rightarrow> Device" where
  "foldDevice device = MetaDev
     \<lparr>dm_ObjectMeta = \<lparr>om_Name = GetName device, om_ID = GetID device, om_Version = GetVersion device,
        om_ModTime = GetModTime device\<rparr>,
      dm_PublishMeta = \<lparr>pm_Topic = ''''\<rparr>,
      dm_DeviceCode = GetDeviceCode device, dm_DeviceType = GetDeviceType device,
      dm_DeviceModel = GetDeviceModel device, dm_CollectStatus = GetCollectStatus device\<rparr>"

definition GetDeviceById :: "string \<Rightarrow> bool \<Rightarrow> Manager \<Rightarrow> manager_error + Device" where
  "GetDeviceById ident exploded m =
     (case gm_devices m ident of
        None \<Rightarrow> Inl ErrNotExist
      | Some a \<Rightarrow> Inr (if exploded then obj_at m a else foldDevice (obj_at m a)))"

text \<open>The failure of the store is only logged; the goroutine that stops the collection is left to run. The
  object it is given is the folded copy, so no state is set on the device.\<close>

definition Manager_DeleteDevice ::
  "io_fault option \<Rightarrow> string \<Rightarrow> string \<Rightarrow> Manager \<Rightarrow> ((manager_error + Device) \<times> Manager) option" where
  "Manager_DeleteDevice fault ident version m =
     (case GetDeviceById ident False m of
        Inl e \<Rightarrow> Some (Inl e, m)
      | Inr device \<Rightarrow>
          if GetVersion device \<noteq> version then Some (Inl ErrMismatch, m)
          else do {
            d \<leftarrow> manager_DeleteDevice (GetDeviceType device) device;
            Some (Inr device,
              m\<lparr>gm_store := snd (Store_Delete fault d (gm_store m)),
                gm_cancels := gm_cancels m @ [GetID device],
                gm_devices := (gm_devices m)(GetID device := None)\<rparr>) })"

definition UpdateDeviceById ::
  "(Device \<Rightarrow> Device option) \<Rightarrow> io_fault option \<Rightarrow> nat \<Rightarrow> (string list \<Rightarrow> string list) \<Rightarrow> string \<Rightarrow> string \<Rightarrow>
   V1Device \<Rightarrow> Manager \<Rightarrow> ((manager_error + Device) \<times> Manager) option" where
  "UpdateDeviceById encode fault r order ident version newObj m =
     (case GetDeviceById ident True m of
        Inl e \<Rightarrow> Some (Inl e, m)
      | Inr d \<Rightarrow>
          if version \<noteq> GetVersion d then Some (Inl ErrMismatch, m)
          else do {
            made \<leftarrow> manager_UpdateDevice (GetDeviceType d) order newObj (DeepCopyObject d);
            Some (case made of
               Inl e \<Rightarrow> (Inl (MBroker e), m)
             | Inr device \<Rightarrow>
                 (case Store_Update encode fault r device (gm_store m) of
                    (Inl e, fs) \<Rightarrow> (Inl (MStore e), m\<lparr>gm_store := fs\<rparr>)
                  | (Inr rd, fs) \<Rightarrow>
                      (Inr rd, store_device (GetID rd) (length (gm_objects m)) (new_object rd (m\<lparr>gm_store := fs\<rparr>))))) })"

text \<open>\<open>ListDevices\<close>: the devices come in the order \<open>keys\<close> in which the map is ranged over.\<close>

definition byModTime :: "Device \<Rightarrow> Device \<Rightarrow> bool" where
  "byModTime d1 d2 \<longleftrightarrow> GetModTime d1 < GetModTime d2"

primrec list_insert ::
  "(Device \<Rightarrow> bool) list \<Rightarrow> Device list \<Rightarrow> Device list \<Rightarrow> Device list option" where
  "list_insert predicates [] rds = Some rds"
| "list_insert predicates (v # vs) rds =
     (if all_match predicates v
      then Option.bind (sorter_Insert [byModTime] rds v) (list_insert predicates vs)
      else list_insert predicates vs rds)"

definition ListDevices ::
  "(GoValue \<Rightarrow> NameFilterFunc) \<Rightarrow> GwDeviceFilter \<Rightarrow> bool \<Rightarrow> string list \<Rightarrow> Manager \<Rightarrow> Device list option" where
  "ListDevices decode flt exploded keys m =
     do { rds \<leftarrow> list_insert (ParseTypeFilter decode flt) (map (obj_at m) (List.map_filter (gm_devices m) keys)) [];
          Some (if exploded then rds else map foldDevice rds) }"

text \<open>\<open>SwitchDeviceStatus\<close> sends on an unbuffered channel: until the goroutine behind it takes the text, the
  sender waits.\<close>

definition SwitchDeviceStatus :: "string \<Rightarrow> string \<Rightarrow> Manager \<Rightarrow> manager_error option \<times> Manager" where
  "SwitchDeviceStatus ident status m =
     (case GetDeviceById ident True m of
        Inl e \<Rightarrow> (Some e, m)
      | Inr _ \<Rightarrow>
          if StringToDeviceStatusCh status = None
          then (Some (MResponse (ErrDeviceOperatorUnSupported status)), m)
          else (None, m\<lparr>gm_statusCh := gm_statusCh m @ [ident @ ''-'' @ status]\<rparr>))"

definition switchDeviceStatus ::
  "new_broker \<Rightarrow> nat \<Rightarrow> string \<Rightarrow> Manager \<Rightarrow> Manager option" where
  "switchDeviceStatus nb a status m =
     (let cs = GetCollectStatus (obj_at m a); restart = (\<lambda>m. map_option snd (begin_collect nb a m))
      in case collect_status_of cs of
           Collecting \<Rightarrow>
             (case device_status_ch_of status of
                Start \<Rightarrow> Some m
              | Restart \<Rightarrow> restart (cancelCollect a m)
              | Stop \<Rightarrow> Some (cancelCollect a m))
         | Stopped \<Rightarrow>
             (case device_status_ch_of status of
                Restart \<Rightarrow> restart m
              | Start \<Rightarrow> restart m
              | Stop \<Rightarrow> Some m)
         | _ \<Rightarrow>
             (case device_status_ch_of status of
                Restart \<Rightarrow> restart (cancelCollect a m)
              | Start \<Rightarrow> restart (cancelCollect a m)
              | Stop \<Rightarrow> Some (cancelCollect a m)))"

text \<open>One round of \<open>listeningDeviceStatusCh\<close>. A device that is not found is only logged, and the type assertion on
  the nil interface panics in a goroutine without recover.\<close>

definition listen_status :: "new_broker \<Rightarrow> string \<Rightarrow> Manager \<Rightarrow> Manager option" where
  "listen_status nb statusCh m =
     do { let split = str_split CHR ''-'' statusCh;
          deviceId \<leftarrow> index_at split 0;
          status \<leftarrow> index_at split 1;
          a \<leftarrow> gm_devices m deviceId;
          switchDeviceStatus nb a status m }"

text \<open>One tick of \<open>heartBeatDetection\<close>: the first device that still fails ends the range over the map.\<close>

fun heart_range ::
  "new_broker \<Rightarrow> string list \<Rightarrow> string list \<Rightarrow> Manager \<Rightarrow>
   (string list \<times> Manager) option" where
  "heart_range nb [] resume m = Some (resume, m)"
| "heart_range nb (key # keys) resume m =
     (case gm_heartBeat m key of
        None \<Rightarrow> heart_range nb keys resume m
      | Some a \<Rightarrow>
          (case readyCollect nb a m of
             None \<Rightarrow> None
           | Some (None, m) \<Rightarrow> heart_range nb keys (resume @ [key]) m
           | Some (Some e, m) \<Rightarrow> Some (resume, m)))"

definition heart_tick ::
  "new_broker \<Rightarrow> string list \<Rightarrow> Manager \<Rightarrow> Manager option" where
  "heart_tick nb keys m =
     do { (resume, m) \<leftarrow> heart_range nb keys [] m;
          Some (m\<lparr>gm_heartBeat := foldl (\<lambda>h key. h(key := None)) (gm_heartBeat m) resume\<rparr>) }"

section \<open>Results\<close>

text \<open>A broker puts a result into the channel of its session, which holds one; the goroutine of the session
  takes it, also when the channel has been closed in the meantime.\<close>

definition send_result :: "nat \<Rightarrow> ParseVariableResult \<Rightarrow> Manager \<Rightarrow> Manager" where
  "send_result k pvr m = m\<lparr>gm_sessions := (gm_sessions m)[k := (gm_sessions m ! k)\<lparr>ses_buffer := Some pvr\<rparr>]\<rparr>"

definition take_result :: "nat \<Rightarrow> Manager \<Rightarrow> Manager" where
  "take_result k m =
     (case ses_buffer (gm_sessions m ! k) of
        None \<Rightarrow> m
      | Some pvr \<Rightarrow>
          let m = m\<lparr>gm_sessions := (gm_sessions m)[k := (gm_sessions m ! k)\<lparr>ses_buffer := None\<rparr>]\<rparr>
          in case gm_devices m (ses_device (gm_sessions m ! k)) of
               None \<Rightarrow> m
             | Some a \<Rightarrow>
                 if pvr_Err pvr = [] then
                   let m = (if GetCollectStatus (obj_at m a) \<noteq> collect_status_name Collecting
                            then set_status Collecting a m else m)
                   in m\<lparr>gm_published := gm_published m @
                        [(ses_topic (gm_sessions m ! k), map (\<lambda>v. (GetVariableName v, GetValue v)) (pvr_VariableSlice pvr))]\<rparr>
                 else set_status CollectingError a m)"

section \<open>Writing\<close>

text \<open>The loop of \<open>DeliverAction\<close> over the entries of the requested actions; the map of the legal ones is the list of
  its entries.\<close>

definition check_action ::
  "Device \<Rightarrow> (string \<times> GoValue) list \<times> any_error list \<Rightarrow> string \<times> GoValue \<Rightarrow>
   (string \<times> GoValue) list \<times> any_error list" where
  "check_action device acc kv =
     (case (acc, kv) of ((legalActions, errs), (k, v)) \<Rightarrow>
        if map_of legalActions k \<noteq> None then (legalActions, errs @ [ErrResponse (Some (ErrResourceExists k))])
        else case GetVariable device k of
          None \<Rightarrow> (legalActions, errs @ [ErrResponse (Some (ErrResourceNotFound k))])
        | Some var \<Rightarrow>
            if GetVariableAccessMode var \<noteq> AccessModeReadWrite
            then (legalActions, errs @ [ErrResponse (Some (ErrResourceNotFound k))])
            else (legalActions @ [(k, v)], errs))"

text \<open>\<open>deliver\<close> is the \<open>DeliverAction\<close> of the broker of a session; a missing broker is a nil interface, and
  calling it panics.\<close>

definition Manager_DeliverAction ::
  "(nat \<Rightarrow> (string \<times> GoValue) list \<Rightarrow> 'r option) \<Rightarrow> string \<Rightarrow> (string \<times> GoValue) list list \<Rightarrow> Manager \<Rightarrow>
   (MultiError + 'r) option" where
  "Manager_DeliverAction deliver ident actions m =
     (case GetDeviceById ident True m of
        Inl _ \<Rightarrow> Some (Inl (NewMultiError [ErrResponse (Some (ErrDeviceNotFound ident))]))
      | Inr device \<Rightarrow>
          (case foldl (check_action device) ([], []) (concat actions) of
             (legalActions, errs) \<Rightarrow>
               if errs \<noteq> [] then Some (Inl (MultiError_Add (NewMultiError []) errs))
               else if legalActions = [] then Some (Inl (NewMultiError [ErrResponse (Some ErrLegalActionNotFound)]))
               else if GetCollectStatus device = collect_status_name Unconnected
               then Some (Inl (NewMultiError [ErrResponse (Some (ErrDeviceNotConnect ident))]))
               else do { k \<leftarrow> gm_brokers m ident; map_option Inr (deliver k legalActions) }))"

section \<open>Shutting down\<close>

text \<open>Every broker is destroyed; the dependencies are closed in the reverse order of their registration.\<close>

definition Manager_Shutdown :: "(string \<times> string option) list \<Rightarrow> Manager \<Rightarrow> string option \<times> Manager" where
  "Manager_Shutdown closers m =
     (let ss = map (\<lambda>k. if k \<in> ran (gm_brokers m) then (gm_sessions m ! k)\<lparr>ses_closed := True\<rparr> else gm_sessions m ! k)
             [0..<length (gm_sessions m)];
          errs = List.map_filter snd (rev closers)
      in (if errs \<noteq> [] then Some (''Failed to shutdown server: ['' @ join_with '','' errs @ '']'' @ [CHR 0x0A]) else None,
          m\<lparr>gm_sessions := ss\<rparr>))"


section \<open>Runs\<close>

text \<open>The operations in any order. Every call of \<^verbatim>\<open>NewBroker\<close> may turn out differently, so each step has its own
  \<open>nb\<close>; the identity of a new device is one no device has had.\<close>

inductive gm_step :: "(Device \<Rightarrow> Device option) \<Rightarrow> Manager \<Rightarrow> Manager \<Rightarrow> bool" for encode where
  create: "st_ID stamp \<notin> GetID ` set (gm_objects m) \<Longrightarrow>
    Manager_CreateDevice encode fault nb stamp object m = Some (r, m') \<Longrightarrow> gm_step encode m m'"
| delete: "Manager_DeleteDevice fault ident version m = Some (r, m') \<Longrightarrow> gm_step encode m m'"
| update: "UpdateDeviceById encode fault inc order ident version newObj m = Some (r, m') \<Longrightarrow> gm_step encode m m'"
| switch: "SwitchDeviceStatus ident status m = (r, m') \<Longrightarrow> gm_step encode m m'"
| listen: "gm_statusCh m = before @ statusCh # after \<Longrightarrow>
    listen_status nb statusCh (m\<lparr>gm_statusCh := before @ after\<rparr>) = Some m' \<Longrightarrow> gm_step encode m m'"
| cancel: "gm_cancels m = before @ ident # after \<Longrightarrow>
    gm_step encode m (cancel_id ident (m\<lparr>gm_cancels := before @ after\<rparr>))"
| heart: "distinct keys \<Longrightarrow> set keys = dom (gm_heartBeat m) \<Longrightarrow> heart_tick nb keys m = Some m' \<Longrightarrow>
    gm_step encode m m'"
| send: "k < length (gm_sessions m) \<Longrightarrow> \<not> ses_closed (gm_sessions m ! k) \<Longrightarrow>
    ses_buffer (gm_sessions m ! k) = None \<Longrightarrow> gm_step encode m (send_result k pvr m)"
| receive: "k < length (gm_sessions m) \<Longrightarrow> gm_step encode m (take_result k m)"

definition session_live :: "Manager \<Rightarrow> string \<Rightarrow> nat \<Rightarrow> bool" where
  "session_live m i k \<longleftrightarrow>
     k < length (gm_sessions m) \<and> ses_device (gm_sessions m ! k) = i \<and> \<not> ses_closed (gm_sessions m ! k)"

definition is_stopped :: "Device \<Rightarrow> bool" where
  "is_stopped d \<longleftrightarrow> GetCollectStatus d = collect_status_name Stopped"

text \<open>The tables name objects by their identity; the brokers of the table are exactly those that have not been
  destroyed; a device is not both collected and probed (apart from those of \<open>except\<close>), and a stopped one is
  neither.\<close>

definition addresses_ok :: "Device list \<Rightarrow> (string \<Rightarrow> nat option) \<Rightarrow> bool" where
  "addresses_ok objs tab \<longleftrightarrow> (\<forall>i a. tab i = Some a \<longrightarrow> a < length objs \<and> GetID (objs ! a) = i)"

definition sessions_ok :: "Manager \<Rightarrow> bool" where
  "sessions_ok m \<longleftrightarrow> (\<forall>i k. gm_brokers m i = Some k \<longleftrightarrow> session_live m i k) \<and>
     dom (gm_brokers m) \<subseteq> GetID ` set (gm_objects m)"

definition stopped_ok :: "Manager \<Rightarrow> bool" where
  "stopped_ok m \<longleftrightarrow> (\<forall>i a. gm_devices m i = Some a \<and> is_stopped (obj_at m a) \<longrightarrow>
     gm_heartBeat m i = None \<and> gm_brokers m i = None)"

definition gm_inv_but :: "string set \<Rightarrow> Manager \<Rightarrow> bool" where
  "gm_inv_but except m \<longleftrightarrow>
     addresses_ok (gm_objects m) (gm_devices m) \<and> addresses_ok (gm_objects m) (gm_heartBeat m) \<and>
     sessions_ok m \<and> stopped_ok m \<and> (\<forall>i. gm_heartBeat m i \<noteq> None \<and> gm_brokers m i \<noteq> None \<longrightarrow> i \<in> except)"

abbreviation "gm_inv \<equiv> gm_inv_but {}"

lemmas gm_inv_parts = gm_inv_but_def addresses_ok_def sessions_ok_def stopped_ok_def session_live_def

lemma meta_set [simp]:
  "GetID (SetCollectStatus s d) = GetID d" "GetID (SetTopic t d) = GetID d" "GetID (SetVersion v d) = GetID d"
  "GetCollectStatus (SetCollectStatus s d) = s" "GetCollectStatus (SetTopic t d) = GetCollectStatus d"
  "GetCollectStatus (SetVersion v d) = GetCollectStatus d"
  by (simp_all add: dev_access)

lemma is_stopped_set [simp]:
  "is_stopped (SetCollectStatus (collect_status_name st) d) \<longleftrightarrow> st = Stopped"
  "is_stopped (SetTopic t d) \<longleftrightarrow> is_stopped d" "is_stopped (SetVersion v d) \<longleftrightarrow> is_stopped d"
  by (simp_all add: is_stopped_def)


text \<open>What the parts of the operations change, seen through the tables.\<close>

lemma map_obj_simps [simp]:
  "gm_devices (map_obj f a m) = gm_devices m" "gm_heartBeat (map_obj f a m) = gm_heartBeat m"
  "gm_brokers (map_obj f a m) = gm_brokers m" "gm_sessions (map_obj f a m) = gm_sessions m"
  "gm_store (map_obj f a m) = gm_store m" "gm_gatewayID (map_obj f a m) = gm_gatewayID m"
  "length (gm_objects (map_obj f a m)) = length (gm_objects m)"
  by (simp_all add: map_obj_def)

lemma nth_update_if: "xs[a := y] ! b = (if a = b \<and> a < length xs then y else xs ! b)"
  by (cases "a < length xs") (auto simp: nth_list_update list_update_beyond)

lemma obj_at_map_obj:
  "obj_at (map_obj f a m) b = (if a = b \<and> a < length (gm_objects m) then f (obj_at m a) else obj_at m b)"
  by (simp add: map_obj_def obj_at_def nth_update_if)

lemma GetIDs_map_obj: "(\<And>d. GetID (f d) = GetID d) \<Longrightarrow> GetID ` set (gm_objects (map_obj f a m)) = GetID ` set (gm_objects m)"
proof -
  assume f: "\<And>d. GetID (f d) = GetID d"
  have "map GetID ((gm_objects m)[a := f (obj_at m a)]) = map GetID (gm_objects m)"
    by (simp add: list_eq_iff_nth_eq nth_update_if f obj_at_def)
  then show ?thesis by (simp add: map_obj_def flip: set_map)
qed

lemma addresses_ok_map_obj:
  "(\<And>d. GetID (f d) = GetID d) \<Longrightarrow> addresses_ok (gm_objects (map_obj f a m)) tab \<longleftrightarrow> addresses_ok (gm_objects m) tab"
  by (auto simp: addresses_ok_def map_obj_def nth_update_if obj_at_def)

lemma sessions_ok_map_obj:
  "(\<And>d. GetID (f d) = GetID d) \<Longrightarrow> sessions_ok (map_obj f a m) \<longleftrightarrow> sessions_ok m"
  by (simp add: sessions_ok_def session_live_def GetIDs_map_obj)

lemma inv_map_obj:
  assumes "gm_inv_but R m" "\<And>d. GetID (f d) = GetID d" "\<And>d. is_stopped (f d) \<Longrightarrow> is_stopped d"
  shows "gm_inv_but R (map_obj f a m)"
  using assms(1) by (auto simp: gm_inv_but_def addresses_ok_map_obj sessions_ok_map_obj stopped_ok_def obj_at_map_obj
      assms(2) dest: assms(3) split: if_splits)

lemma set_status_simps [simp]:
  "gm_devices (set_status st a m) = gm_devices m" "gm_heartBeat (set_status st a m) = gm_heartBeat m"
  "gm_brokers (set_status st a m) = gm_brokers m" "gm_sessions (set_status st a m) = gm_sessions m"
  "gm_store (set_status st a m) = gm_store m" "gm_gatewayID (set_status st a m) = gm_gatewayID m"
  "length (gm_objects (set_status st a m)) = length (gm_objects m)"
  by (simp_all add: set_status_def)

lemma GetID_at_set_status [simp]: "GetID (obj_at (set_status st a m) b) = GetID (obj_at m b)"
  by (simp add: set_status_def obj_at_map_obj)

lemma inv_set_status: "gm_inv_but R m \<Longrightarrow> st \<noteq> Stopped \<Longrightarrow> gm_inv_but R (set_status st a m)"
  unfolding set_status_def by (rule inv_map_obj) simp_all

lemma cancel_id_simps [simp]:
  "gm_objects (cancel_id i m) = gm_objects m" "gm_devices (cancel_id i m) = gm_devices m"
  "gm_heartBeat (cancel_id i m) = (gm_heartBeat m)(i := None)" "gm_brokers (cancel_id i m) = (gm_brokers m)(i := None)"
  "gm_store (cancel_id i m) = gm_store m" "obj_at (cancel_id i m) b = obj_at m b"
  "length (gm_sessions (cancel_id i m)) = length (gm_sessions m)"
  by (auto simp: cancel_id_def obj_at_def close_session_def Let_def split: option.split)

lemma session_live_cancel_id:
  assumes "\<And>j n. session_live m j n \<longleftrightarrow> gm_brokers m j = Some n"
  shows "session_live (cancel_id i m) j n \<longleftrightarrow> session_live m j n \<and> i \<noteq> j"
proof (cases "gm_brokers m i")
  case None
  then show ?thesis using assms [of i n] by (auto simp: cancel_id_def session_live_def)
next
  case (Some k)
  then have "session_live m i k" by (simp add: assms)
  moreover have "session_live m j n \<Longrightarrow> i = j \<Longrightarrow> n = k" using Some by (simp add: assms)
  ultimately show ?thesis using Some
    by (auto simp: cancel_id_def session_live_def close_session_def nth_update_if)
qed

lemma sessions_ok_live: "sessions_ok m \<Longrightarrow> session_live m i k \<longleftrightarrow> gm_brokers m i = Some k"
  by (simp add: sessions_ok_def)

lemma sessions_ok_cancel_id: "sessions_ok m \<Longrightarrow> sessions_ok (cancel_id i m)"
proof -
  assume ok: "sessions_ok m"
  have "session_live (cancel_id i m) j n \<longleftrightarrow> session_live m j n \<and> i \<noteq> j" for j n
    by (rule session_live_cancel_id) (rule sessions_ok_live [OF ok])
  then show ?thesis using ok by (auto simp: sessions_ok_def)
qed

lemma inv_cancel_id: "gm_inv_but R m \<Longrightarrow> gm_inv_but R (cancel_id i m)"
  by (auto simp: gm_inv_but_def sessions_ok_cancel_id stopped_ok_def addresses_ok_def)


definition topic_of :: "nat \<Rightarrow> Manager \<Rightarrow> string" where
  "topic_of a m = (if GetTopic (obj_at m a) = [] then default_topic (gm_gatewayID m) (GetID (obj_at m a))
     else GetTopic (obj_at m a))"

lemma GetTopic_SetCollectStatus [simp]: "GetTopic (SetCollectStatus s d) = GetTopic d"
  by (simp add: dev_access)

lemma install_broker_eq:
  "install_broker a m =
     (let m' = set_status Collecting a m;
          m'' = (if GetTopic (obj_at m a) = [] then map_obj (SetTopic (topic_of a m)) a m' else m')
      in m''\<lparr>gm_brokers := (gm_brokers m)(GetID (obj_at m a) \<mapsto> length (gm_sessions m)),
             gm_sessions := gm_sessions m @ [\<lparr>ses_device = GetID (obj_at m a), ses_topic = topic_of a m,
               ses_buffer = None, ses_closed = False\<rparr>]\<rparr>)"
  by (simp add: install_broker_def Let_def topic_of_def set_status_def obj_at_map_obj map_obj_def obj_at_def nth_update_if)

lemma install_broker_simps [simp]:
  "gm_devices (install_broker a m) = gm_devices m" "gm_heartBeat (install_broker a m) = gm_heartBeat m"
  "gm_brokers (install_broker a m) = (gm_brokers m)(GetID (obj_at m a) \<mapsto> length (gm_sessions m))"
  "gm_store (install_broker a m) = gm_store m"
  "length (gm_objects (install_broker a m)) = length (gm_objects m)"
  by (simp_all add: install_broker_eq Let_def)

lemma session_live_tables [simp]:
  "session_live (m\<lparr>gm_brokers := b\<rparr>) i k = session_live m i k"
  "session_live (m\<lparr>gm_heartBeat := h\<rparr>) i k = session_live m i k"
  "session_live (m\<lparr>gm_devices := t\<rparr>) i k = session_live m i k"
  "session_live (m\<lparr>gm_objects := os\<rparr>) i k = session_live m i k"
  "session_live (map_obj f a m) i k = session_live m i k"
  "session_live (set_status st a m) i k = session_live m i k"
  by (simp_all add: session_live_def)

lemma obj_at_more [simp]:
  "obj_at (m\<lparr>gm_brokers := b\<rparr>) c = obj_at m c" "obj_at (m\<lparr>gm_heartBeat := h\<rparr>) c = obj_at m c"
  "obj_at (m\<lparr>gm_devices := t\<rparr>) c = obj_at m c" "obj_at (m\<lparr>gm_sessions := ss\<rparr>) c = obj_at m c"
  "obj_at (m\<lparr>gm_store := fs\<rparr>) c = obj_at m c" "obj_at (m\<lparr>gm_cancels := cs\<rparr>) c = obj_at m c"
  "obj_at (m\<lparr>gm_statusCh := q\<rparr>) c = obj_at m c" "obj_at (m\<lparr>gm_published := ps\<rparr>) c = obj_at m c"
  by (simp_all add: obj_at_def)

lemma session_live_install:
  "session_live (install_broker a m) i k \<longleftrightarrow>
     session_live m i k \<or> i = GetID (obj_at m a) \<and> k = length (gm_sessions m)"
  by (auto simp: install_broker_eq Let_def session_live_def nth_append)

lemma GetID_install [simp]: "GetID (obj_at (install_broker a m) b) = GetID (obj_at m b)"
  by (simp add: install_broker_eq Let_def obj_at_map_obj)

lemma is_stopped_install:
  "a < length (gm_objects m) \<Longrightarrow> is_stopped (obj_at (install_broker a m) b) \<longleftrightarrow> a \<noteq> b \<and> is_stopped (obj_at m b)"
  by (simp add: install_broker_eq Let_def obj_at_map_obj set_status_def)

lemma GetIDs_install: "GetID ` set (gm_objects (install_broker a m)) = GetID ` set (gm_objects m)"
  by (simp add: install_broker_eq Let_def GetIDs_map_obj set_status_def)

lemma addresses_ok_iff:
  "addresses_ok (gm_objects m) tab \<longleftrightarrow> (\<forall>i a. tab i = Some a \<longrightarrow> a < length (gm_objects m) \<and> GetID (obj_at m a) = i)"
  by (simp add: addresses_ok_def obj_at_def)

lemma GetID_in: "a < length (gm_objects m) \<Longrightarrow> GetID (obj_at m a) \<in> GetID ` set (gm_objects m)"
  by (simp add: obj_at_def)

lemma inv_install_broker:
  assumes inv: "gm_inv_but R m" and a: "a < length (gm_objects m)" "i = GetID (obj_at m a)"
    and free: "gm_brokers m i = None" "gm_heartBeat m i \<noteq> None \<longrightarrow> i \<in> R"
    and fresh: "\<And>b. gm_devices m i = Some b \<Longrightarrow> b \<noteq> a \<Longrightarrow> \<not> is_stopped (obj_at m b)"
  shows "gm_inv_but R (install_broker a m)"
proof -
  have live: "session_live m j n \<longleftrightarrow> gm_brokers m j = Some n" for j n
    using inv by (simp add: gm_inv_but_def sessions_ok_def)
  have ids: "dom (gm_brokers m) \<subseteq> GetID ` set (gm_objects m)"
    using inv by (simp add: gm_inv_but_def sessions_ok_def)
  have "sessions_ok (install_broker a m)"
    using a free(1) ids GetID_in [OF a(1)] by (auto simp: sessions_ok_def session_live_install GetIDs_install live)
  moreover have "stopped_ok (install_broker a m)"
    using inv a fresh by (auto simp: gm_inv_but_def stopped_ok_def is_stopped_install addresses_ok_iff)
  moreover have "\<forall>i. gm_heartBeat m i \<noteq> None \<and> gm_brokers (install_broker a m) i \<noteq> None \<longrightarrow> i \<in> R"
    using inv a free by (auto simp: gm_inv_but_def)
  ultimately show ?thesis using inv by (simp add: gm_inv_but_def addresses_ok_iff)
qed


lemma sessions_ok_more [simp]:
  "sessions_ok (m\<lparr>gm_heartBeat := h\<rparr>) = sessions_ok m" "sessions_ok (m\<lparr>gm_devices := t\<rparr>) = sessions_ok m"
  "sessions_ok (m\<lparr>gm_statusCh := q\<rparr>) = sessions_ok m" "sessions_ok (m\<lparr>gm_cancels := cs\<rparr>) = sessions_ok m"
  "sessions_ok (m\<lparr>gm_store := fs\<rparr>) = sessions_ok m" "sessions_ok (m\<lparr>gm_published := ps\<rparr>) = sessions_ok m"
  by (simp_all add: sessions_ok_def session_live_def)

lemma inv_more [simp]:
  "gm_inv_but R (m\<lparr>gm_statusCh := q\<rparr>) = gm_inv_but R m" "gm_inv_but R (m\<lparr>gm_cancels := cs\<rparr>) = gm_inv_but R m"
  "gm_inv_but R (m\<lparr>gm_store := fs\<rparr>) = gm_inv_but R m" "gm_inv_but R (m\<lparr>gm_published := ps\<rparr>) = gm_inv_but R m"
  by (simp_all add: gm_inv_but_def stopped_ok_def)

definition fresh_start :: "nat \<Rightarrow> Manager \<Rightarrow> bool" where
  "fresh_start a m \<longleftrightarrow> a < length (gm_objects m) \<and> gm_brokers m (GetID (obj_at m a)) = None \<and>
     (\<forall>b. gm_devices m (GetID (obj_at m a)) = Some b \<and> b \<noteq> a \<longrightarrow> \<not> is_stopped (obj_at m b))"

lemma inv_readyCollect:
  assumes inv: "gm_inv_but R m" and fresh: "fresh_start a m"
    and heart: "gm_heartBeat m (GetID (obj_at m a)) \<noteq> None \<longrightarrow> GetID (obj_at m a) \<in> R"
    and ready: "readyCollect nb a m = Some (e, m')"
  shows "gm_inv_but R m' \<and> gm_heartBeat m' = gm_heartBeat m \<and> gm_devices m' = gm_devices m \<and>
    length (gm_objects m') = length (gm_objects m) \<and> (\<forall>b. GetID (obj_at m' b) = GetID (obj_at m b)) \<and>
    (e \<noteq> None \<longrightarrow> gm_brokers m' = gm_brokers m) \<and>
    (\<forall>j. j \<noteq> GetID (obj_at m a) \<longrightarrow> gm_brokers m' j = gm_brokers m j) \<and>
    (\<forall>b. is_stopped (obj_at m' b) \<longrightarrow> is_stopped (obj_at m b)) \<and>
    (e = Some ErrConnectDevice \<longrightarrow> \<not> is_stopped (obj_at m' a))"
proof -
  have stopped: "is_stopped (obj_at (set_status st a m) b) \<longleftrightarrow> (if b = a then st = Stopped else is_stopped (obj_at m b))" for st b
    using fresh by (auto simp: fresh_start_def set_status_def obj_at_map_obj)
  obtain made where made: "nb (obj_at m a) = Some made" using ready by (auto simp: readyCollect_def bind_eq_Some_conv)
  show ?thesis
  proof (cases made)
    case (Inl err)
    then show ?thesis using ready made inv
      by (cases err) (auto simp: readyCollect_def stopped intro!: inv_set_status split: if_splits)
  next
    case (Inr broker)
    then have m': "m' = install_broker a m" "e = None" using ready made by (auto simp: readyCollect_def)
    have "gm_inv_but R m'" unfolding m'
      using inv fresh heart by (intro inv_install_broker) (auto simp: fresh_start_def)
    then show ?thesis using fresh by (simp add: m' is_stopped_install fresh_start_def)
  qed
qed

text \<open>The probed object is the one the table of the devices has, or the device is not stopped.\<close>

lemma inv_begin_collect:
  assumes inv: "gm_inv m" and fresh: "fresh_start a m"
    and heart: "gm_heartBeat m (GetID (obj_at m a)) = None"
    and start: "begin_collect nb a m = Some (e, m')"
  shows "gm_inv m'"
proof -
  let ?i = "GetID (obj_at m a)"
  obtain e1 m1 where r: "readyCollect nb a m = Some (e1, m1)"
    and m1: "m' = (if e1 = Some ErrConnectDevice
      then m1\<lparr>gm_heartBeat := (gm_heartBeat m1)(GetID (obj_at m1 a) \<mapsto> a)\<rparr> else m1)"
    using start by (force simp: begin_collect_def bind_eq_Some_conv split: if_splits prod.splits)
  have "gm_heartBeat m ?i \<noteq> None \<longrightarrow> ?i \<in> {}" using heart by simp
  note r1 = inv_readyCollect [OF inv fresh this r]
  have m': "m' = (if e1 = Some ErrConnectDevice then m1\<lparr>gm_heartBeat := (gm_heartBeat m1)(?i \<mapsto> a)\<rparr> else m1)"
    using m1 r1 by simp
  show ?thesis
  proof (cases "e1 = Some ErrConnectDevice")
    case True
    have "stopped_ok (m1\<lparr>gm_heartBeat := (gm_heartBeat m1)(?i \<mapsto> a)\<rparr>)"
      using r1 True fresh by (auto simp: gm_inv_but_def stopped_ok_def fresh_start_def)
    moreover have "gm_brokers m1 ?i = None" using r1 True fresh by (simp add: fresh_start_def)
    ultimately show ?thesis using r1 True fresh
      by (auto simp: m' gm_inv_but_def addresses_ok_iff fresh_start_def)
  qed (use r1 m' in simp)
qed


lemma gm_inv_devices: "gm_inv_but R m \<Longrightarrow> gm_devices m i = Some a \<Longrightarrow> a < length (gm_objects m) \<and> GetID (obj_at m a) = i"
  by (simp add: gm_inv_but_def addresses_ok_iff)

lemma gm_inv_heart: "gm_inv_but R m \<Longrightarrow> gm_heartBeat m i = Some a \<Longrightarrow> a < length (gm_objects m) \<and> GetID (obj_at m a) = i"
  by (simp add: gm_inv_but_def addresses_ok_iff)

lemma GetID_cancelCollect [simp]: "GetID (obj_at (cancelCollect a m) b) = GetID (obj_at m b)"
  by (simp add: cancelCollect_def)

lemma cancelCollect_simps [simp]:
  "gm_heartBeat (cancelCollect a m) = (gm_heartBeat m)(GetID (obj_at m a) := None)"
  "gm_brokers (cancelCollect a m) = (gm_brokers m)(GetID (obj_at m a) := None)"
  "gm_devices (cancelCollect a m) = gm_devices m"
  "length (gm_objects (cancelCollect a m)) = length (gm_objects m)"
  by (simp_all add: cancelCollect_def)

lemma inv_cancelCollect:
  assumes inv: "gm_inv m" and a: "a < length (gm_objects m)"
  shows "gm_inv (cancelCollect a m)"
proof -
  let ?i = "GetID (obj_at m a)"
  have "sessions_ok (cancelCollect a m)"
    using inv unfolding cancelCollect_def
    by (intro sessions_ok_cancel_id) (simp add: gm_inv_but_def set_status_def sessions_ok_map_obj)
  moreover have "stopped_ok (cancelCollect a m)"
    using inv by (auto simp: cancelCollect_def stopped_ok_def gm_inv_but_def set_status_def obj_at_map_obj
        addresses_ok_iff split: if_splits)
  ultimately show ?thesis using inv by (auto simp: gm_inv_but_def addresses_ok_iff)
qed

lemma fresh_start_devices: "gm_inv_but R m \<Longrightarrow> gm_devices m i = Some a \<Longrightarrow> gm_brokers m i = None \<Longrightarrow> fresh_start a m"
  using gm_inv_devices [of R m i a] by (auto simp: fresh_start_def)

lemma inv_switchDeviceStatus:
  assumes inv: "gm_inv m" and a: "gm_devices m i = Some a" and switch: "switchDeviceStatus nb a status m = Some m'"
  shows "gm_inv m'"
proof -
  note ia = gm_inv_devices [OF inv a]
  have cancelled: "gm_inv (cancelCollect a m)" using inv ia by (simp add: inv_cancelCollect)
  have restart: "gm_inv m''" if "map_option snd (begin_collect nb a (cancelCollect a m)) = Some m''" for m''
    using that ia a cancelled
    by (auto intro!: inv_begin_collect [OF cancelled] fresh_start_devices [OF cancelled])
  have start: "gm_inv m''" if "map_option snd (begin_collect nb a m) = Some m''" "is_stopped (obj_at m a)" for m''
  proof -
    have "gm_heartBeat m i = None \<and> gm_brokers m i = None"
      using inv a that(2) by (simp add: gm_inv_but_def stopped_ok_def)
    then show ?thesis using that(1) ia a
      by (auto intro!: inv_begin_collect [OF inv] fresh_start_devices [OF inv])
  qed
  have stopped: "is_stopped (obj_at m a)" if "collect_status_of (GetCollectStatus (obj_at m a)) = Stopped"
    using that by (auto simp: is_stopped_def collect_status_of_def collect_status_name_def status_names.inverse split: option.splits)
  show ?thesis
    using switch inv cancelled restart start stopped unfolding switchDeviceStatus_def Let_def
    by (cases "collect_status_of (GetCollectStatus (obj_at m a))"; cases "device_status_ch_of status") auto
qed

lemma inv_listen_status: "gm_inv m \<Longrightarrow> listen_status nb statusCh m = Some m' \<Longrightarrow> gm_inv m'"
  by (auto simp: listen_status_def Let_def bind_eq_Some_conv intro: inv_switchDeviceStatus)


lemma gm_inv_but_mono: "gm_inv_but R m \<Longrightarrow> R \<subseteq> S \<Longrightarrow> gm_inv_but S m"
  by (auto simp: gm_inv_but_def)

lemma inv_heart_range:
  "gm_inv_but (set resume) m \<Longrightarrow> distinct keys \<Longrightarrow> set keys \<inter> set resume = {} \<Longrightarrow>
   heart_range nb keys resume m = Some (resume', m') \<Longrightarrow>
   gm_inv_but (set resume') m'"
proof (induction nb keys resume m arbitrary: resume' m' rule: heart_range.induct)
  case (2 nb key keys resume m)
  show ?case
  proof (cases "gm_heartBeat m key")
    case None
    then show ?thesis using 2 by simp
  next
    case (Some a)
    note ka = gm_inv_heart [OF "2.prems"(1) Some]
    have fresh: "fresh_start a m"
      using "2.prems"(1,3) Some ka by (auto simp: fresh_start_def gm_inv_but_def stopped_ok_def)
    obtain e m1 where r: "readyCollect nb a m = Some (e, m1)" using "2.prems"(4) Some by (auto split: option.splits)
    have r1: "gm_inv_but (set (resume @ [key])) m1"
      "e \<noteq> None \<Longrightarrow> gm_brokers m1 = gm_brokers m" "gm_heartBeat m1 = gm_heartBeat m"
      using inv_readyCollect [OF gm_inv_but_mono [OF "2.prems"(1)] fresh _ r, of "set (resume @ [key])"] ka by auto
    show ?thesis
    proof (cases e)
      case None
      then have "heart_range nb keys (resume @ [key]) m1 = Some (resume', m')"
        using "2.prems"(4) Some r by simp
      then show ?thesis
        using "2.IH"(2) [OF Some r [unfolded None] refl] r1(1) "2.prems"(2,3) None by auto
    next
      case (Some err)
      then have "resume' = resume" "m' = m1" using "2.prems"(4) \<open>gm_heartBeat m key = Some a\<close> r by simp_all
      moreover have "\<forall>i. gm_heartBeat m1 i \<noteq> None \<and> gm_brokers m1 i \<noteq> None \<longrightarrow> i \<in> set resume"
        using Some r1(2,3) "2.prems"(1) by (auto simp: gm_inv_but_def)
      ultimately show ?thesis using r1(1) by (auto simp: gm_inv_but_def)
    qed
  qed
qed simp

lemma foldl_delete: "foldl (\<lambda>h key. h(key := None)) h ks = (\<lambda>i. if i \<in> set ks then None else h i)"
  by (induction ks arbitrary: h) auto

lemma inv_heart_tick: "gm_inv m \<Longrightarrow> distinct keys \<Longrightarrow> heart_tick nb keys m = Some m' \<Longrightarrow> gm_inv m'"
proof -
  assume inv: "gm_inv m" and keys: "distinct keys" and tick: "heart_tick nb keys m = Some m'"
  obtain resume m1 where range: "heart_range nb keys [] m = Some (resume, m1)"
    and m': "m' = m1\<lparr>gm_heartBeat := foldl (\<lambda>h key. h(key := None)) (gm_heartBeat m1) resume\<rparr>"
    using tick by (auto simp: heart_tick_def bind_eq_Some_conv)
  have "gm_inv_but (set resume) m1" using inv_heart_range [OF _ keys _ range] inv by simp
  then show ?thesis unfolding m' foldl_delete
    by (auto simp: gm_inv_but_def addresses_ok_def stopped_ok_def)
qed

lemma new_object_simps [simp]:
  "gm_objects (new_object d m) = gm_objects m @ [d]" "gm_devices (new_object d m) = gm_devices m"
  "gm_heartBeat (new_object d m) = gm_heartBeat m" "gm_brokers (new_object d m) = gm_brokers m"
  "gm_sessions (new_object d m) = gm_sessions m" "gm_store (new_object d m) = gm_store m"
  "obj_at (new_object d m) (length (gm_objects m)) = d"
  "a < length (gm_objects m) \<Longrightarrow> obj_at (new_object d m) a = obj_at m a"
  by (simp_all add: new_object_def obj_at_def nth_append)

lemma store_device_simps [simp]:
  "gm_objects (store_device i a m) = gm_objects m" "gm_devices (store_device i a m) = (gm_devices m)(i \<mapsto> a)"
  "gm_heartBeat (store_device i a m) = gm_heartBeat m" "gm_brokers (store_device i a m) = gm_brokers m"
  "gm_sessions (store_device i a m) = gm_sessions m" "gm_store (store_device i a m) = gm_store m"
  "obj_at (store_device i a m) b = obj_at m b"
  by (simp_all add: store_device_def obj_at_def)

lemma inv_new_device:
  assumes inv: "gm_inv m"
    and stopped: "is_stopped d \<longrightarrow> gm_heartBeat m (GetID d) = None \<and> gm_brokers m (GetID d) = None"
  shows "gm_inv (store_device (GetID d) (length (gm_objects m)) (new_object d m))"
proof -
  let ?m = "store_device (GetID d) (length (gm_objects m)) (new_object d m)"
  have old: "a < length (gm_objects m) \<Longrightarrow> obj_at ?m a = obj_at m a" for a by simp
  have "sessions_ok ?m"
    using inv by (auto simp: gm_inv_but_def sessions_ok_def session_live_def)
  moreover have "stopped_ok ?m"
    using inv stopped gm_inv_devices [OF inv] old
    by (auto simp: gm_inv_but_def stopped_ok_def split: if_splits)
  moreover have "addresses_ok (gm_objects ?m) (gm_devices ?m)" "addresses_ok (gm_objects ?m) (gm_heartBeat ?m)"
    using inv by (auto simp: gm_inv_but_def addresses_ok_def nth_append intro: less_SucI)
  ultimately show ?thesis using inv by (simp add: gm_inv_but_def)
qed


lemma created_device:
  assumes "manager_CreateDevice t stamp object = Some (Inr d)"
  shows "GetID d = st_ID stamp" "dev_meta d = new_meta stamp (v1_meta object)"
  using assms
  by (auto simp: manager_CreateDevice_def Modbus_CreateDevice_def S7_CreateDevice_def OpcUa_CreateDevice_def
      new_meta_def GetID_def Let_def bind_eq_Some_conv split: option.splits Protocol.splits V1Device.splits if_splits)

lemma dev_meta_DeepCopyObject [simp]: "dev_meta (DeepCopyObject d) = dev_meta d"
  by (cases d) simp_all

lemma updated_device_meta:
  assumes "manager_UpdateDevice t order newObj d = Some (Inr d')"
  shows "dev_meta d' = update_meta (v1_meta newObj) (dev_meta d)"
  using assms
  by (auto simp: manager_UpdateDevice_def Modbus_UpdateDevice_def S7_UpdateDevice_def OpcUa_UpdateDevice_def
      Let_def bind_eq_Some_conv split: option.splits Protocol.splits V1Device.splits Device.splits if_splits)

lemma updated_device_keeps:
  assumes "manager_UpdateDevice t order newObj (DeepCopyObject d) = Some (Inr d')"
  shows "GetID d' = GetID d" "GetVersion d' = GetVersion d" "GetCollectStatus d' = GetCollectStatus d"
  using updated_device_meta [OF assms] by (simp_all add: dev_access update_meta_def)

lemma Store_Create_obj: "Store_Create encode fault d fs = (Inr rd, fs') \<Longrightarrow> rd = d"
  by (auto simp: Store_Create_def fs_Create_def split: if_splits option.splits)

lemma Store_Update_obj:
  "Store_Update encode fault r d fs = (Inr rd, fs') \<Longrightarrow> rd = SetVersion (next_version r (GetVersion d)) d"
  by (auto simp: Store_Update_def fs_Update_def Let_def split: if_splits option.splits)

lemma unused_identity:
  assumes inv: "gm_inv_but R m" and i: "i \<notin> GetID ` set (gm_objects m)"
  shows "gm_heartBeat m i = None" "gm_brokers m i = None"
proof -
  show "gm_heartBeat m i = None"
    using gm_inv_heart [OF inv, of i] GetID_in [of _ m] i by (cases "gm_heartBeat m i") auto
  show "gm_brokers m i = None"
    using inv i unfolding gm_inv_but_def sessions_ok_def by blast
qed

lemma inv_CreateDevice:
  assumes inv: "gm_inv m" and fresh: "st_ID stamp \<notin> GetID ` set (gm_objects m)"
    and create: "Manager_CreateDevice encode fault nb stamp object m = Some (res, m')"
  shows "gm_inv m'"
proof -
  obtain made where made: "manager_CreateDevice (v1_GetDeviceType object) stamp object = Some made"
    using create by (auto simp: Manager_CreateDevice_def bind_eq_Some_conv)
  show ?thesis
  proof (cases made)
    case (Inl e)
    then show ?thesis using create made inv by (simp add: Manager_CreateDevice_def)
  next
    case (Inr d)
    then have i: "GetID d = st_ID stamp" using created_device(1) made by simp
    obtain r fs where st: "Store_Create encode fault d (gm_store m) = (r, fs)" by fastforce
    show ?thesis
    proof (cases r)
      case (Inl e)
      then have "m' = m\<lparr>gm_store := fs\<rparr>" using create made Inr st by (simp add: Manager_CreateDevice_def)
      then show ?thesis using inv by simp
    next
      case rd: (Inr rd)
      then have rd_d: "rd = d" using Store_Create_obj st by simp
      have none: "gm_heartBeat m (GetID d) = None" "gm_brokers m (GetID d) = None"
        using unused_identity [OF inv] fresh i by simp_all
      let ?m = "store_device (GetID d) (length (gm_objects m)) (new_object d (m\<lparr>gm_store := fs\<rparr>))"
      have "gm_inv (store_device (GetID d) (length (gm_objects (m\<lparr>gm_store := fs\<rparr>))) (new_object d (m\<lparr>gm_store := fs\<rparr>)))"
        using inv none by (intro inv_new_device) simp_all
      then have inv': "gm_inv ?m" by simp
      have at: "obj_at ?m (length (gm_objects m)) = d"
        by (simp add: store_device_def new_object_def obj_at_def)
      obtain e m1 where b: "begin_collect nb (length (gm_objects m)) ?m = Some (e, m1)" and m1: "m' = m1"
        using create made Inr st rd rd_d
        by (fastforce simp: Manager_CreateDevice_def Let_def bind_eq_Some_conv split: option.splits)
      have "fresh_start (length (gm_objects m)) ?m" using none at by (simp add: fresh_start_def)
      then show ?thesis using inv_begin_collect [OF inv' _ _ b] none at m1 by simp
    qed
  qed
qed

lemma inv_DeleteDevice: "gm_inv m \<Longrightarrow> Manager_DeleteDevice fault ident version m = Some (r, m') \<Longrightarrow> gm_inv m'"
  by (auto simp: Manager_DeleteDevice_def gm_inv_but_def addresses_ok_def stopped_ok_def
      bind_eq_Some_conv split: sum.splits if_splits)

lemma inv_UpdateDeviceById:
  assumes inv: "gm_inv m"
    and update: "UpdateDeviceById encode fault inc order ident version newObj m = Some (res, m')"
  shows "gm_inv m'"
proof (cases "gm_devices m ident")
  case None
  then show ?thesis using update inv by (simp add: UpdateDeviceById_def GetDeviceById_def)
next
  case (Some a)
  let ?d = "obj_at m a"
  show ?thesis
  proof (cases "version = GetVersion ?d")
    case False
    then show ?thesis using update inv Some by (simp add: UpdateDeviceById_def GetDeviceById_def)
  next
    case True
    then obtain made where made: "manager_UpdateDevice (GetDeviceType ?d) order newObj (DeepCopyObject ?d) = Some made"
      using update Some by (auto simp: UpdateDeviceById_def GetDeviceById_def bind_eq_Some_conv)
    show ?thesis
    proof (cases made)
      case (Inl e)
      then show ?thesis using update inv Some True made by (simp add: UpdateDeviceById_def GetDeviceById_def)
    next
      case (Inr d)
      obtain r fs where st: "Store_Update encode fault inc d (gm_store m) = (r, fs)" by fastforce
      show ?thesis
      proof (cases r)
        case (Inl e)
        then show ?thesis using update inv Some True made Inr st by (auto simp: UpdateDeviceById_def GetDeviceById_def)
      next
        case rd: (Inr rd)
        have m': "m' = store_device (GetID rd) (length (gm_objects m)) (new_object rd (m\<lparr>gm_store := fs\<rparr>))"
          using update Some True made Inr st rd by (simp add: UpdateDeviceById_def GetDeviceById_def)
        have keeps: "GetID rd = GetID ?d" "is_stopped rd \<longleftrightarrow> is_stopped ?d"
          using Store_Update_obj [of encode fault inc d "gm_store m" rd fs] updated_device_keeps [of _ order newObj ?d d]
            made Inr st rd by (simp_all add: is_stopped_def)
        have "is_stopped rd \<longrightarrow> gm_heartBeat m (GetID rd) = None \<and> gm_brokers m (GetID rd) = None"
          using keeps inv Some gm_inv_devices [OF inv Some] by (auto simp: gm_inv_but_def stopped_ok_def)
        then show ?thesis
          using inv_new_device [of "m\<lparr>gm_store := fs\<rparr>" rd] inv by (simp add: m')
      qed
    qed
  qed
qed


lemma sessions_ok_buffer:
  "sessions_ok (m\<lparr>gm_sessions := (gm_sessions m)[k := (gm_sessions m ! k)\<lparr>ses_buffer := b\<rparr>]\<rparr>) = sessions_ok m"
  by (simp add: sessions_ok_def session_live_def nth_update_if cong: conj_cong)

lemma inv_buffer [simp]:
  "gm_inv_but R (m\<lparr>gm_sessions := (gm_sessions m)[k := (gm_sessions m ! k)\<lparr>ses_buffer := b\<rparr>]\<rparr>) = gm_inv_but R m"
  by (simp add: gm_inv_but_def sessions_ok_buffer stopped_ok_def)

lemma inv_take_result: "gm_inv m \<Longrightarrow> gm_inv (take_result k m)"
  by (auto simp: take_result_def Let_def inv_set_status split: option.split)

lemma inv_SwitchDeviceStatus: "gm_inv m \<Longrightarrow> SwitchDeviceStatus ident status m = (r, m') \<Longrightarrow> gm_inv m'"
  by (auto simp: SwitchDeviceStatus_def split: sum.splits if_splits)

lemma gm_step_inv: "gm_step encode m m' \<Longrightarrow> gm_inv m \<Longrightarrow> gm_inv m'"
proof (induction rule: gm_step.induct)
  case (listen m before statusCh after nb m')
  then show ?case using inv_listen_status [of "m\<lparr>gm_statusCh := before @ after\<rparr>"] by simp
next
  case (cancel m before ident after)
  then show ?case by (intro inv_cancel_id) simp
next
  case (send k m pvr)
  then show ?case by (simp add: send_result_def)
qed (erule (2) inv_CreateDevice inv_heart_tick | erule (1) inv_DeleteDevice inv_UpdateDeviceById inv_SwitchDeviceStatus | erule inv_take_result)+

interpretation device_manager: bounded_invariant "gm_step encode" "\<lambda>_. True" gm_inv for encode
  by unfold_locales (auto intro: gm_step_inv)

text \<open>Starting up, from a store whose devices have distinct identities.\<close>

lemma inv_NewManager: "gm_inv (NewManager gatewayID fs)"
  by (simp add: gm_inv_but_def addresses_ok_def sessions_ok_def session_live_def stopped_ok_def NewManager_def)

lemma GetID_IndexDevice [simp]: "GetID (IndexDevice d) = GetID d"
  by (cases d) (simp_all add: dev_access ModBus_IndexDevice_def S7_IndexDevice_def OpcUa_IndexDevice_def)

lemma begin_collect_outcome:
  assumes "begin_collect nb a m = Some (e, m')"
  shows "nb (obj_at m a) = Some (Inl ErrConnectDevice) \<and> e = None \<and>
      m' = (set_status Unconnected a m)\<lparr>gm_heartBeat := (gm_heartBeat m)(GetID (obj_at m a) \<mapsto> a)\<rparr> \<or>
    nb (obj_at m a) = Some (Inl ErrDeviceEmptyVariable) \<and> e = None \<and> m' = set_status EmptyVariable a m \<or>
    (\<exists>err. nb (obj_at m a) = Some (Inl err) \<and> e = Some err \<and> m' = m) \<or>
    nb (obj_at m a) = Some (Inr ()) \<and> e = None \<and> m' = install_broker a m"
proof -
  obtain made where made: "nb (obj_at m a) = Some made"
    using assms by (auto simp: begin_collect_def readyCollect_def bind_eq_Some_conv)
  show ?thesis
  proof (cases made)
    case (Inl err)
    then show ?thesis using assms made by (cases err) (simp_all add: begin_collect_def readyCollect_def)
  qed (use assms made in \<open>simp add: begin_collect_def readyCollect_def\<close>)
qed

lemma begin_collect_objects:
  assumes "begin_collect nb a m = Some (e, m')"
  shows "GetID ` set (gm_objects m') = GetID ` set (gm_objects m)"
proof -
  have status: "GetID ` set (gm_objects (set_status st a m)) = GetID ` set (gm_objects m)" for st
    unfolding set_status_def by (rule GetIDs_map_obj) simp
  show ?thesis using begin_collect_outcome [OF assms] by (elim disjE exE conjE) (simp_all add: status GetIDs_install)
qed

lemma inv_init_devices:
  "gm_inv m \<Longrightarrow> distinct (map GetID ds) \<Longrightarrow> GetID ` set ds \<inter> GetID ` set (gm_objects m) = {} \<Longrightarrow>
   init_devices nb ds m = Some m' \<Longrightarrow> gm_inv m'"
proof (induction ds arbitrary: m)
  case (Cons d ds)
  let ?m = "store_device (GetID (IndexDevice d)) (length (gm_objects m)) (new_object (IndexDevice d) m)"
  have none: "gm_heartBeat m (GetID d) = None" "gm_brokers m (GetID d) = None"
    using unused_identity [OF Cons.prems(1)] Cons.prems(3) by auto
  then have inv: "gm_inv ?m" using Cons.prems(1) by (intro inv_new_device) simp_all
  obtain e m1 where b: "begin_collect nb (length (gm_objects m)) ?m = Some (e, m1)"
    and rest: "init_devices nb ds m1 = Some m'"
    using Cons.prems(4) by (auto simp: init_device_def Let_def bind_eq_Some_conv)
  have "fresh_start (length (gm_objects m)) ?m" using none by (simp add: fresh_start_def)
  then have "gm_inv m1" using none by (intro inv_begin_collect [OF inv _ _ b]) simp_all
  moreover have "GetID ` set ds \<inter> GetID ` set (gm_objects m1) = {}"
    using begin_collect_objects [OF b] Cons.prems(2,3) by auto
  ultimately show ?case using Cons.IH Cons.prems(2) rest by simp
qed simp

end
