(* ===== verification/DeviceManagerSpec.thy ===== *)
theory DeviceManagerSpec
  imports DeviceManager
begin

text \<open>
  What the device manager promises: which devices are collected and probed in every reachable state, what a
  write forwards, what a list contains, what is on disk, and where the orders of the operations that the
  code allows break the promise.
\<close>

section \<open>Collection\<close>

definition example_device :: Device where
  "example_device = S7Dev
     \<lparr>sd_DeviceMeta = new_meta example_stamp (xsd_DeviceMeta (example_request [''a''])),
      sd_CollectorCycle = 1, sd_VariableInterval = 0,
      sd_Address = \<lparr>sa_Location = ''plc'', sa_Option = s7_option \<lparr>xso_Port = 102, xso_Rack = 0, xso_Slot = 1\<rparr>\<rparr>,
      sd_Variables = map s7_variable (xsd_Variables (example_request [''a''])),
      sd_VariablesMap = [''a'' \<mapsto> s7_variable (hd (xsd_Variables (example_request [''a''])))]\<rparr>"

lemma example_device_created:
  "manager_CreateDevice ''s7'' example_stamp (V1S7 (example_request [''a''])) = Some (Inr example_device)"
  by (simp add: manager_CreateDevice_def DeviceManagers_def S7_CreateDevice_def example_request_def
      example_device_def s7_variable_def Let_def)

definition example_create :: "new_broker \<Rightarrow> Manager \<Rightarrow> ((manager_error + nat) \<times> Manager) option" where
  "example_create nb = Manager_CreateDevice Some None nb example_stamp (V1S7 (example_request [''a'']))"

definition example_empty :: Manager where
  "example_empty = NewManager ''gw'' (\<lambda>_. None)"

definition example_saved :: Manager where
  "example_saved = store_device ''d1'' 0 (new_object example_device
     (example_empty\<lparr>gm_store := [''s7.d1'' \<mapsto> Document example_device]\<rparr>))"

lemma example_device_access [simp]:
  "GetID example_device = ''d1''" "GetDeviceType example_device = ''s7''" "GetTopic example_device = ''''"
  "GetCollectStatus example_device = collect_status_name Stopped"
  by (simp_all add: example_device_def dev_access new_meta_def example_stamp_def example_request_def)

lemma example_create_eq:
  "example_create nb example_empty = do { (err, m) \<leftarrow> begin_collect nb 0 example_saved;
     Some (case err of Some e \<Rightarrow> (Inl (MBroker e), m) | None \<Rightarrow> (Inr 0, m)) }"
proof -
  have "v1_GetDeviceType (V1S7 (example_request [''a''])) = ''s7''"
    by (simp add: v1_GetDeviceType_def example_request_def)
  moreover have "store_key example_device = ''s7.d1''" by (simp add: store_key_def)
  ultimately show ?thesis
    by (simp add: example_create_def Manager_CreateDevice_def example_device_created Store_Create_def fs_Create_def
        example_empty_def NewManager_def example_saved_def Let_def)
qed

definition example_running :: Manager where
  "example_running = install_broker 0 example_saved"

lemma example_create_running: "example_create (\<lambda>_. Some (Inr ())) example_empty = Some (Inr 0, example_running)"
  by (simp add: example_create_eq begin_collect_def readyCollect_def example_running_def)

lemma example_saved_simps [simp]:
  "gm_devices example_saved = [''d1'' \<mapsto> 0]" "gm_heartBeat example_saved = (\<lambda>_. None)"
  "gm_brokers example_saved = (\<lambda>_. None)" "gm_sessions example_saved = []" "gm_objects example_saved = [example_device]"
  "obj_at example_saved 0 = example_device"
  by (simp_all add: example_saved_def example_empty_def NewManager_def store_device_def new_object_def obj_at_def)

lemma example_running_simps [simp]:
  "gm_devices example_running = [''d1'' \<mapsto> 0]" "gm_brokers example_running = [''d1'' \<mapsto> 0]"
  "gm_heartBeat example_running = (\<lambda>_. None)" "length (gm_objects example_running) = 1"
  by (simp_all add: example_running_def)

lemma example_running_inv: "gm_inv example_running"
proof (rule gm_step_inv)
  show "gm_step Some example_empty example_running"
    using example_create_running unfolding example_create_def
    by (intro gm_step.create) (simp_all add: example_empty_def NewManager_def)
  show "gm_inv example_empty" by (simp add: example_empty_def inv_NewManager)
qed




section \<open>Where the order of the operations matters\<close>

lemma command_split: "CHR ''-'' \<notin> set i \<Longrightarrow> CHR ''-'' \<notin> set st \<Longrightarrow> str_split CHR ''-'' (i @ ''-'' @ st) = [i, st]"
  using str_split_append [of "CHR ''-''" i st] str_split_none [of "CHR ''-''" st] by simp

lemma listen_command:
  assumes "CHR ''-'' \<notin> set i" "gm_devices m i = Some a" "CHR ''-'' \<notin> set st"
  shows "listen_status nb (i @ ''-'' @ st) m = switchDeviceStatus nb a st m"
  unfolding listen_status_def command_split [OF assms(1,3)] by (simp add: assms(2) index_at_def)

lemma command_names: "CHR ''-'' \<notin> set ''restart''" "CHR ''-'' \<notin> set ''start''" "CHR ''-'' \<notin> set ''stop''"
  "device_status_ch_of ''restart'' = Restart" "device_status_ch_of ''start'' = Start" "device_status_ch_of ''stop'' = Stop"
  by (simp_all add: device_status_ch_of_def StringToDeviceStatusCh_def)

lemma session_live_cancelCollect:
  "gm_brokers m (GetID (obj_at m a)) = Some k \<Longrightarrow>
   session_live (cancelCollect a m) j n \<longleftrightarrow> session_live m j n \<and> n \<noteq> k"
  by (auto simp: cancelCollect_def cancel_id_def session_live_def close_session_def nth_update_if)



definition example_probed :: Manager where
  "example_probed = (set_status Unconnected 0 example_saved)\<lparr>gm_heartBeat := [''d1'' \<mapsto> 0]\<rparr>"

lemma example_probed_inv: "gm_inv example_probed"
proof (rule gm_step_inv)
  have "example_create (\<lambda>_. Some (Inl ErrConnectDevice)) example_empty = Some (Inr 0, example_probed)"
    by (simp add: example_create_eq begin_collect_def readyCollect_def example_probed_def)
  then show "gm_step Some example_empty example_probed"
    unfolding example_create_def by (intro gm_step.create) (simp_all add: example_empty_def NewManager_def)
  show "gm_inv example_empty" by (simp add: example_empty_def inv_NewManager)
qed

lemma example_probed_status: "GetCollectStatus (obj_at example_probed 0) = ''unconnected''"
  by (simp add: example_probed_def set_status_def obj_at_map_obj collect_status_name_def CollectStatusToString_def)


text \<open>C31: A result that was in the channel when the device was stopped is still taken. It sets the state back to
  \<open>collecting\<close>, while there is no broker: starting the device then does nothing, and a write to it calls the
  missing broker and panics.\<close>

theorem late_result_undoes_stop:
  assumes inv: "gm_inv m" and a: "gm_devices m i = Some a" and dash: "CHR ''-'' \<notin> set i"
    and k: "gm_brokers m i = Some k" and pending: "ses_buffer (gm_sessions m ! k) = Some pvr" "pvr_Err pvr = []"
    and stop: "listen_status nb (i @ ''-stop'') m = Some m1"
    and writable: "GetVariable (obj_at m a) name = Some var" "GetVariableAccessMode var = AccessModeReadWrite"
  shows "GetCollectStatus (obj_at m1 a) = ''stopped'' \<and>
    GetCollectStatus (obj_at (take_result k m1) a) = ''collecting'' \<and> gm_brokers (take_result k m1) i = None \<and>
    listen_status nb' (i @ ''-start'') (take_result k m1) = Some (take_result k m1) \<and>
    Manager_DeliverAction deliver i [[(name, val)]] (take_result k m1) = None"
proof -
  let ?m1 = "cancelCollect a m" and ?d = "obj_at m a"
  note ia = gm_inv_devices [OF inv a]
  have names: "collect_status_name Collecting = ''collecting''" "collect_status_name Stopped = ''stopped''"
    "collect_status_name Unconnected = ''unconnected''"
    by (simp_all add: collect_status_name_def CollectStatusToString_def)
  have "\<not> is_stopped ?d" using inv a k by (auto simp: gm_inv_but_def stopped_ok_def)
  then have "collect_status_of (GetCollectStatus ?d) \<noteq> Stopped"
    by (auto simp: is_stopped_def collect_status_of_def collect_status_name_def status_names.inverse split: option.splits)
  then have "switchDeviceStatus nb a ''stop'' m = Some ?m1"
    unfolding switchDeviceStatus_def Let_def command_names
    by (cases "collect_status_of (GetCollectStatus ?d)") simp_all
  then have m1: "m1 = ?m1" using stop listen_command [OF dash a command_names(3)] by simp
  have stopped: "GetCollectStatus (obj_at ?m1 a) = ''stopped''"
    using ia names by (simp add: cancelCollect_def set_status_def obj_at_map_obj)
  have live: "session_live m i k" using inv k by (simp add: gm_inv_but_def sessions_ok_def)
  have ses: "gm_sessions ?m1 ! k = (gm_sessions m ! k)\<lparr>ses_closed := True\<rparr>"
    using k ia live by (simp add: cancelCollect_def cancel_id_def close_session_def session_live_def)
  have kl: "k < length (gm_sessions ?m1)" using live by (simp add: cancelCollect_def session_live_def)
  define m2 where "m2 = take_result k ?m1"
  have m2: "obj_at m2 a = SetCollectStatus ''collecting'' (obj_at ?m1 a)" "gm_devices m2 = gm_devices m"
    "gm_brokers m2 = gm_brokers ?m1"
    using pending ses kl live a stopped ia names
    by (simp_all add: m2_def take_result_def Let_def session_live_def set_status_def obj_at_map_obj)
  have status: "GetCollectStatus (obj_at m2 a) = ''collecting''" by (simp add: m2)
  have none: "gm_brokers m2 i = None" using ia by (simp add: m2)
  have "collect_status_of ''collecting'' = Collecting"
    using collect_status_of_name [of Collecting] by (simp only: names)
  then have start: "switchDeviceStatus nb' a ''start'' m2 = Some m2"
    by (simp add: switchDeviceStatus_def status command_names)
  have a2: "gm_devices m2 i = Some a" using a by (simp add: m2)
  have "obj_at ?m1 a = SetCollectStatus ''stopped'' ?d"
    using ia names by (simp add: cancelCollect_def set_status_def obj_at_map_obj)
  then have "GetVariable (obj_at m2 a) name = Some var"
    using writable(1) by (simp add: m2 SetCollectStatus_def)
  then have "Manager_DeliverAction deliver i [[(name, val)]] m2 = None"
    using writable(2) by (simp add: Manager_DeliverAction_def GetDeviceById_def a2 check_action_def status names none)
  then show ?thesis
    using stopped status none start listen_command [OF dash a2 command_names(2)] by (simp add: m1 flip: m2_def)
qed



definition example_result :: ParseVariableResult where
  "example_result = \<lparr>pvr_VariableSlice = [], pvr_Err = []\<rparr>"

definition example_pending :: Manager where
  "example_pending = send_result 0 example_result example_running"

lemma example_running_at:
  "obj_at example_running 0 = SetTopic ''data/gw/v1/d1'' (SetCollectStatus ''collecting'' example_device)"
  "gm_sessions example_running = [\<lparr>ses_device = ''d1'', ses_topic = ''data/gw/v1/d1'', ses_buffer = None, ses_closed = False\<rparr>]"
proof -
  have t: "topic_of 0 example_saved = ''data/gw/v1/d1''"
    by (simp add: topic_of_def default_topic_def example_saved_def example_empty_def NewManager_def store_device_def
        new_object_def obj_at_def)
  show "gm_sessions example_running = [\<lparr>ses_device = ''d1'', ses_topic = ''data/gw/v1/d1'', ses_buffer = None, ses_closed = False\<rparr>]"
    by (simp add: example_running_def install_broker_eq Let_def t)
  show "obj_at example_running 0 = SetTopic ''data/gw/v1/d1'' (SetCollectStatus ''collecting'' example_device)"
    by (simp add: example_running_def install_broker_eq Let_def t obj_at_map_obj set_status_def collect_status_name_def
        CollectStatusToString_def)
qed

lemma example_device_variable: "GetVariable example_device ''a'' = Some (S7Var (s7_variable (hd (xsd_Variables (example_request [''a''])))))"
  by (simp add: example_device_def S7_GetVariable_def)

lemma late_result_undoes_stop_witness:
  "\<exists>m1. listen_status (\<lambda>_. None) ''d1-stop'' example_pending = Some m1 \<and>
     GetCollectStatus (obj_at m1 0) = ''stopped'' \<and> GetCollectStatus (obj_at (take_result 0 m1) 0) = ''collecting'' \<and>
     gm_brokers (take_result 0 m1) ''d1'' = None"
proof -
  have inv: "gm_inv example_pending" using example_running_inv by (simp add: example_pending_def send_result_def)
  have d: "gm_devices example_pending ''d1'' = Some 0" "gm_brokers example_pending ''d1'' = Some 0"
    by (simp_all add: example_pending_def send_result_def)
  have dash: "CHR ''-'' \<notin> set ''d1''" by simp
  have at: "obj_at example_pending 0 = obj_at example_running 0" by (simp add: example_pending_def send_result_def)
  have pending: "ses_buffer (gm_sessions example_pending ! 0) = Some example_result" "pvr_Err example_result = []"
    by (simp_all add: example_pending_def send_result_def example_running_at example_result_def)
  have "collect_status_of ''collecting'' = Collecting" by (simp add: collect_status_of_def StringToCollectStatus_def)
  then have "switchDeviceStatus (\<lambda>_. None) 0 ''stop'' example_pending = Some (cancelCollect 0 example_pending)"
    by (simp add: switchDeviceStatus_def at example_running_at command_names)
  then have stop: "listen_status (\<lambda>_. None) (''d1'' @ ''-stop'') example_pending = Some (cancelCollect 0 example_pending)"
    using listen_command [OF dash d(1), of "''stop''"] by simp
  have "GetVariable (obj_at example_pending 0) ''a'' = Some (S7Var (s7_variable (hd (xsd_Variables (example_request [''a''])))))"
    unfolding at example_running_at by (simp add: SetTopic_def SetCollectStatus_def example_device_variable)
  then show ?thesis
    using late_result_undoes_stop [OF inv d(1) dash d(2) pending stop, of "''a''" _ "\<lambda>_. None" "\<lambda>_ _. Some ()" VNil] stop
    by (simp add: s7_variable_def example_request_def)
qed

text \<open>The command is accepted while the device is there; when the device is deleted before the goroutine takes
  the command, the goroutine, which has no recover, panics, and with it the gateway ends.\<close>

theorem command_for_deleted_device_crashes:
  assumes inv: "gm_inv m" and dash: "CHR ''-'' \<notin> set i"
    and accepted: "SwitchDeviceStatus i status m = (None, m1)"
    and deleted: "Manager_DeleteDevice fault i version m1 = Some (Inr d, m2)"
  shows "gm_statusCh m2 = gm_statusCh m @ [i @ ''-'' @ status] \<and>
    listen_status nb (i @ ''-'' @ status) (m2\<lparr>gm_statusCh := q\<rparr>) = None"
proof -
  obtain a where a: "gm_devices m i = Some a"
    and m1: "m1 = m\<lparr>gm_statusCh := gm_statusCh m @ [i @ ''-'' @ status]\<rparr>"
    and st: "StringToDeviceStatusCh status \<noteq> None"
    using accepted by (auto simp: SwitchDeviceStatus_def GetDeviceById_def split: option.splits if_splits)
  have "CHR ''-'' \<notin> set status"
    using st by (auto simp: StringToDeviceStatusCh_def split: if_splits)
  moreover have "GetID (foldDevice (obj_at m1 a)) = i"
    using gm_inv_devices [OF inv a] by (simp add: foldDevice_def dev_access m1)
  then have "gm_devices m2 i = None" "gm_statusCh m2 = gm_statusCh m1"
    using deleted a by (auto simp: Manager_DeleteDevice_def GetDeviceById_def m1 bind_eq_Some_conv split: if_splits)
  ultimately show ?thesis
    by (simp add: listen_status_def command_split [OF dash] index_at_def m1 del: append_Cons)
qed

lemma command_for_deleted_device_crashes_witness:
  "\<exists>m1 m2 d. SwitchDeviceStatus ''d1'' ''restart'' example_running = (None, m1) \<and>
     Manager_DeleteDevice None ''d1'' (show_nat 7) m1 = Some (Inr d, m2) \<and>
     gm_statusCh m2 = gm_statusCh example_running @ [''d1-restart''] \<and>
     listen_status (\<lambda>_. Some (Inr ())) ''d1-restart'' (m2\<lparr>gm_statusCh := []\<rparr>) = None"
proof -
  obtain m1 where m1: "SwitchDeviceStatus ''d1'' ''restart'' example_running = (None, m1)"
    and m1_eq: "m1 = example_running\<lparr>gm_statusCh := gm_statusCh example_running @ [''d1-restart'']\<rparr>"
    by (simp add: SwitchDeviceStatus_def GetDeviceById_def StringToDeviceStatusCh_def)
  have v: "GetVersion (obj_at example_running 0) = (show_nat 7)" "GetDeviceType (obj_at example_running 0) = ''s7''"
    unfolding example_running_at
    by (simp_all add: dev_access example_device_def new_meta_def example_stamp_def example_request_def)
  obtain d m2 where m2: "Manager_DeleteDevice None ''d1'' (show_nat 7) m1 = Some (Inr d, m2)"
    using v by (simp add: Manager_DeleteDevice_def GetDeviceById_def m1_eq foldDevice_def dev_access
        manager_DeleteDevice_def DeviceManagers_def)
  show ?thesis
    using command_for_deleted_device_crashes [OF example_running_inv _ m1 m2] m1 m2 by auto
qed


section \<open>Writing\<close>

text \<open>What is wrong with the entries of a request, in their order: a name that was taken already, and a name
  without a variable that can be written.\<close>

definition writable :: "Device \<Rightarrow> string \<Rightarrow> bool" where
  "writable d k \<longleftrightarrow> (\<exists>v. GetVariable d k = Some v \<and> GetVariableAccessMode v = AccessModeReadWrite)"

fun action_errors :: "Device \<Rightarrow> string set \<Rightarrow> string list \<Rightarrow> any_error list" where
  "action_errors d taken [] = []"
| "action_errors d taken (k # ks) =
     (if k \<in> taken then ErrResponse (Some (ErrResourceExists k)) # action_errors d taken ks
      else if writable d k then action_errors d (insert k taken) ks
      else ErrResponse (Some (ErrResourceNotFound k)) # action_errors d taken ks)"

lemma check_action_cases:
  "check_action d (legal, errs) (k, v) =
     (if k \<in> fst ` set legal then (legal, errs @ [ErrResponse (Some (ErrResourceExists k))])
      else if writable d k then (legal @ [(k, v)], errs)
      else (legal, errs @ [ErrResponse (Some (ErrResourceNotFound k))]))"
  by (auto simp: check_action_def writable_def map_of_eq_None_iff split: option.split)

lemma checked_errors:
  "snd (foldl (check_action d) (legal, errs) kvs) = errs @ action_errors d (fst ` set legal) (map fst kvs)"
proof (induction kvs arbitrary: legal errs)
  case (Cons kv kvs)
  then show ?case by (cases kv) (simp add: check_action_cases)
qed simp

lemma checked_legal:
  "distinct (map fst legal @ map fst kvs) \<Longrightarrow> \<forall>k \<in> fst ` set kvs. writable d k \<Longrightarrow>
   foldl (check_action d) (legal, errs) kvs = (legal @ kvs, errs)"
proof (induction kvs arbitrary: legal)
  case (Cons kv kvs)
  then show ?case by (cases kv) (auto simp: check_action_cases)
qed simp

lemma action_errors_none:
  "action_errors d taken ks = [] \<longleftrightarrow> distinct ks \<and> set ks \<inter> taken = {} \<and> (\<forall>k \<in> set ks. writable d k)"
  by (induction d taken ks rule: action_errors.induct) auto

text \<open>C11: A write reaches the broker exactly when every entry of the request names, once, a variable of the device
  that can be written, and then it hands over all the entries and nothing else; otherwise the answer lists what is
  wrong with each entry, in order, and nothing is written.\<close>

theorem action_forwarded_or_rejected:
  assumes "gm_devices m i = Some a" and "concat actions \<noteq> []"
    and "GetCollectStatus (obj_at m a) \<noteq> collect_status_name Unconnected" and "gm_brokers m i = Some k"
  shows "Manager_DeliverAction deliver i actions m =
    (let ks = map fst (concat actions); errs = action_errors (obj_at m a) {} ks
     in if distinct ks \<and> (\<forall>n \<in> set ks. writable (obj_at m a) n)
        then map_option Inr (deliver k (concat actions))
        else Some (Inl \<lparr>me_errors = errs\<rparr>))"
proof -
  let ?d = "obj_at m a" and ?ks = "map fst (concat actions)"
  have errs: "snd (foldl (check_action ?d) ([], []) (concat actions)) = action_errors ?d {} ?ks"
    using checked_errors [of ?d "[]" "[]" "concat actions"] by simp
  show ?thesis
  proof (cases "distinct ?ks \<and> (\<forall>n \<in> set ?ks. writable ?d n)")
    case True
    then have "foldl (check_action ?d) ([], []) (concat actions) = (concat actions, [])"
      using checked_legal [of "[]" "concat actions" ?d "[]"] by (simp del: set_concat)
    then show ?thesis
      using True assms unfolding Manager_DeliverAction_def GetDeviceById_def Let_def
      by (simp del: set_concat map_concat concat_eq_Nil_conv)
  next
    case False
    then have "action_errors ?d {} ?ks \<noteq> []" by (simp add: action_errors_none del: set_concat)
    moreover obtain legal where "foldl (check_action ?d) ([], []) (concat actions) = (legal, action_errors ?d {} ?ks)"
      using errs by (metis prod.collapse)
    ultimately show ?thesis
      using False assms(1) unfolding Manager_DeliverAction_def GetDeviceById_def Let_def if_not_P [OF False]
      by (simp add: MultiError_Add_def NewMultiError_def del: set_concat map_concat)
  qed
qed


lemma action_forwarded_or_rejected_witness:
  "Manager_DeliverAction (\<lambda>k kvs. Some (k, kvs)) ''d1'' [[(''a'', VInt16 5)]] example_running =
     Some (Inr (0, [(''a'', VInt16 5)])) \<and>
   Manager_DeliverAction (\<lambda>k kvs. Some (k, kvs)) ''d1'' [[(''b'', VNil)], [(''a'', VInt16 5)]] example_running =
     Some (Inl \<lparr>me_errors = [ErrResponse (Some (ErrResourceNotFound ''b''))]\<rparr>)"
proof -
  have at: "gm_devices example_running ''d1'' = Some 0" "gm_brokers example_running ''d1'' = Some 0" by simp_all
  have var: "GetVariable (obj_at example_running 0) n = GetVariable example_device n" for n
    unfolding example_running_at by (simp add: SetTopic_def SetCollectStatus_def)
  have w: "writable (obj_at example_running 0) n \<longleftrightarrow> n = ''a''" for n
    by (auto simp: writable_def var example_device_def S7_GetVariable_def s7_variable_def example_request_def split: if_splits)
  have st: "GetCollectStatus (obj_at example_running 0) \<noteq> collect_status_name Unconnected"
    by (simp add: example_running_at collect_status_name_def CollectStatusToString_def)
  have "Manager_DeliverAction (\<lambda>k kvs. Some (k, kvs)) ''d1'' [[(''a'', VInt16 5)]] example_running =
      Some (Inr (0, [(''a'', VInt16 5)]))"
    using action_forwarded_or_rejected [OF at(1) _ st at(2), of "[[(''a'', VInt16 5)]]" "\<lambda>k kvs. Some (k, kvs)"]
    by (simp add: w Let_def)
  moreover have "Manager_DeliverAction (\<lambda>k kvs. Some (k, kvs)) ''d1'' [[(''b'', VNil)], [(''a'', VInt16 5)]] example_running =
      Some (Inl \<lparr>me_errors = [ErrResponse (Some (ErrResourceNotFound ''b''))]\<rparr>)"
    using action_forwarded_or_rejected [OF at(1) _ st at(2), of "[[(''b'', VNil)], [(''a'', VInt16 5)]]" "\<lambda>k kvs. Some (k, kvs)"]
    by (simp add: w Let_def)
  ultimately show ?thesis by (rule conjI)
qed

section \<open>Listing\<close>

lemma list_insert_sorted:
  "sorted_wrt (\<lambda>a b. GetModTime b \<le> GetModTime a) rds \<Longrightarrow>
   \<exists>out. list_insert ps vs rds = Some out \<and> mset out = mset (filter (all_match ps) vs) + mset rds \<and>
     sorted_wrt (\<lambda>a b. GetModTime b \<le> GetModTime a) out"
proof (induction vs arbitrary: rds)
  case (Cons v vs)
  show ?case
  proof (cases "all_match ps v")
    case True
    obtain rds' where r: "sorter_Insert [byModTime] rds v = Some rds'" "mset rds' = add_mset v (mset rds)"
      "sorted_wrt (\<lambda>a b. GetModTime b \<le> GetModTime a) rds'"
      using sorter_Insert_sorted [OF Cons.prems, of v] unfolding byModTime_def by blast
    show ?thesis using Cons.IH [OF r(3)] True r(1,2) by simp
  next
    case False
    then show ?thesis using Cons by simp
  qed
qed simp




section \<open>Updating\<close>

text \<open>An update either fails, leaving the table of the devices as it was and at most a truncated file behind, or
  replaces the device in the table and its document on disk together, with the same identity and the next
  version. With another version than the current one it always fails and changes nothing. What collects the
  device goes on with the old object.\<close>

theorem update_all_or_nothing:
  assumes update: "UpdateDeviceById encode fault inc order i version newObj m = Some (r, m')"
    and a: "gm_devices m i = Some a"
  shows "case r of
      Inl e \<Rightarrow> gm_devices m' = gm_devices m \<and> gm_objects m' = gm_objects m \<and>
        (gm_store m' = gm_store m \<or> (\<exists>key. gm_store m' = (gm_store m)(key \<mapsto> Unreadable))) \<and>
        (version \<noteq> GetVersion (obj_at m a) \<longrightarrow> e = ErrMismatch \<and> m' = m)
    | Inr rd \<Rightarrow>
        version = GetVersion (obj_at m a) \<and> GetVersion rd = next_version inc version \<and> GetID rd = GetID (obj_at m a) \<and>
        gm_devices m' = (gm_devices m)(GetID rd \<mapsto> length (gm_objects m)) \<and> obj_at m' (length (gm_objects m)) = rd \<and>
        (\<exists>doc. encode rd = Some doc \<and> gm_store m' = (gm_store m)(store_key rd \<mapsto> Document doc)) \<and>
        gm_brokers m' = gm_brokers m \<and> gm_heartBeat m' = gm_heartBeat m"
proof (cases "version = GetVersion (obj_at m a)")
  case False
  then show ?thesis using update a by (auto simp: UpdateDeviceById_def GetDeviceById_def)
next
  case True
  let ?d = "obj_at m a"
  obtain made where made: "manager_UpdateDevice (GetDeviceType ?d) order newObj (DeepCopyObject ?d) = Some made"
    using update a True by (auto simp: UpdateDeviceById_def GetDeviceById_def bind_eq_Some_conv)
  show ?thesis
  proof (cases made)
    case (Inl e)
    then show ?thesis using update a True made by (auto simp: UpdateDeviceById_def GetDeviceById_def)
  next
    case (Inr d)
    obtain sr fs where st: "Store_Update encode fault inc d (gm_store m) = (sr, fs)" by fastforce
    have keeps: "GetID d = GetID ?d" "GetVersion d = GetVersion ?d"
      using updated_device_keeps made Inr by simp_all
    have key: "store_key (SetVersion v d) = store_key d" for v by (simp add: store_key_def dev_access)
    have version: "GetVersion (SetVersion v d) = v" for v by (simp add: dev_access)
    show ?thesis
    proof (cases sr)
      case (Inl e)
      then have "fs = gm_store m \<or> (\<exists>key. fs = (gm_store m)(key \<mapsto> Unreadable))"
        using st by (auto simp: Store_Update_def fs_Update_def Let_def split: option.splits if_splits)
      moreover have "r = Inl (MStore e)" "m' = m\<lparr>gm_store := fs\<rparr>"
        using update a True made Inr Inl st by (simp_all add: UpdateDeviceById_def GetDeviceById_def)
      ultimately show ?thesis using True by simp
    next
      case rd: (Inr rd)
      have "r = Inr rd" "m' = store_device (GetID rd) (length (gm_objects m)) (new_object rd (m\<lparr>gm_store := fs\<rparr>))"
        using update a True made Inr rd st by (simp_all add: UpdateDeviceById_def GetDeviceById_def)
      moreover have "rd = SetVersion (next_version inc (GetVersion d)) d" using Store_Update_obj st rd by blast
      moreover have "\<exists>doc. encode rd = Some doc \<and> fs = (gm_store m)(store_key d \<mapsto> Document doc)"
        using st rd by (auto simp: Store_Update_def fs_Update_def Let_def split: option.splits if_splits)
      ultimately show ?thesis
        using True keeps by (auto simp: key version obj_at_def store_device_def new_object_def)
    qed
  qed
qed


lemma update_all_or_nothing_witness:
  "\<exists>rd m'. UpdateDeviceById Some None 5 rev ''d1'' (show_nat 7) (V1S7 (example_request [''a''])) example_running = Some (Inr rd, m') \<and>
     GetVersion rd = next_version 5 (show_nat 7) \<and> gm_devices m' ''d1'' = Some 1 \<and>
     gm_store m' ''s7.d1'' = Some (Document rd) \<and> gm_brokers m' ''d1'' = Some 0"
proof -
  let ?d = "obj_at example_running 0" and ?x = "V1S7 (example_request [''a''])"
  have d: "gm_devices example_running ''d1'' = Some 0" by simp
  have v: "GetVersion ?d = show_nat 7" "GetDeviceType ?d = ''s7''" "GetID ?d = ''d1''"
    unfolding example_running_at
    by (simp_all add: dev_access example_device_def new_meta_def example_stamp_def example_request_def)
  have "\<exists>e. DeepCopyObject ?d = S7Dev e"
    unfolding example_running_at by (simp add: SetTopic_def SetCollectStatus_def example_device_def)
  then obtain u where u: "manager_UpdateDevice ''s7'' rev ?x (DeepCopyObject ?d) = Some (Inr u)"
    by (auto simp: manager_UpdateDevice_def DeviceManagers_def S7_UpdateDevice_def example_request_def Let_def)
  have "dev_meta u = update_meta (v1_meta ?x) (dev_meta ?d)" using updated_device_meta [OF u] by simp
  then have key: "store_key u = ''s7.d1''" "GetVersion u = show_nat 7" "GetID u = ''d1''"
    using v by (simp_all add: store_key_def dev_access update_meta_def example_request_def)
  have st: "gm_store example_running = [''s7.d1'' \<mapsto> Document example_device]"
    by (simp add: example_running_def example_saved_def example_empty_def NewManager_def)
  have "file_meta (Document example_device) = Some (dm_ObjectMeta (dev_meta example_device))" by (simp add: file_meta_def)
  moreover have "om_Version (dm_ObjectMeta (dev_meta example_device)) = show_nat 7"
    by (simp add: example_device_def new_meta_def example_stamp_def)
  ultimately obtain rd m' where r: "UpdateDeviceById Some None 5 rev ''d1'' (show_nat 7) ?x example_running = Some (Inr rd, m')"
    and rd: "rd = SetVersion (next_version 5 (show_nat 7)) u"
    using v u key st by (simp add: UpdateDeviceById_def GetDeviceById_def Store_Update_def fs_Update_def Let_def)
  have "store_key rd = ''s7.d1''" "GetID rd = ''d1''" using key v by (simp_all add: rd store_key_def dev_access)
  then show ?thesis using update_all_or_nothing [OF r d] r by auto
qed

end
