(* ===== verification/DeviceServer.thy ===== *)
theory DeviceServer
  imports DeviceManagerSpec
begin

text \<open>
  Model of \<^verbatim>\<open>pkg/device/server.go\<close>, the HTTP handlers of the devices, and of the \<^verbatim>\<open>binding\<close> tags of
  \<^verbatim>\<open>pkg/v1\<close> that \<^verbatim>\<open>ShouldBindJSON\<close> checks. A handler is the list of the calls it makes on its gin context
  with the state it leaves, which is \<open>None\<close> when it panics. What the libraries do is a parameter: decoding JSON
  (\<open>decode\<close>), applying a patch, and the texts of errors that are not the gateway's own.
\<close>

section \<open>Validation of a request\<close>

text \<open>The tags of the validator: \<open>required\<close> rejects the zero value of a type, \<open>min\<close> and \<open>max\<close> bound the length of a
  string, \<open>excludesall\<close> rejects characters. That the list of the variables is there is left to \<open>decode\<close>.\<close>

definition valid_name :: "nat \<Rightarrow> string \<Rightarrow> bool" where
  "valid_name most s \<longleftrightarrow> s \<noteq> [] \<and> 1 \<le> length s \<and> length s \<le> most \<and> CHR ''/'' \<notin> set s \<and> CHR 0x5C \<notin> set s"

definition required_access :: "AccessMode \<Rightarrow> bool" where
  "required_access a \<longleftrightarrow> AccessMode_code a \<noteq> 0"

definition valid_v1_meta :: "v1_DeviceMeta \<Rightarrow> bool" where
  "valid_v1_meta x \<longleftrightarrow> valid_name 64 (xd_Name x) \<and> valid_name 32 (xd_DeviceCode x) \<and>
     valid_name 32 (xd_DeviceType x) \<and> valid_name 32 (xd_DeviceModel x)"

definition valid_v1_modbus_variable :: "v1_ModbusVariable \<Rightarrow> bool" where
  "valid_v1_modbus_variable v \<longleftrightarrow> xm_DataType v \<noteq> [] \<and> valid_name 64 (xm_Name v) \<and> xm_Address v \<noteq> None \<and>
     xm_Bits v \<le> 7 \<and> xm_FunctionCode v \<noteq> 0 \<and> 1 \<le> xm_FunctionCode v \<and> xm_FunctionCode v \<le> 4 \<and>
     required_access (xm_AccessMode v)"

definition valid_v1_modbus :: "v1_ModBusDevice \<Rightarrow> bool" where
  "valid_v1_modbus x \<longleftrightarrow> valid_v1_meta (xmd_DeviceMeta x) \<and> xmd_CollectorCycle x \<noteq> 0 \<and> xmd_Address x \<noteq> None \<and>
     xmd_Slave x \<noteq> 0 \<and> xmd_MemoryLayout x \<in> {''ABCD'', ''BADC'', ''CDAB'', ''DCBA''} \<and>
     list_all valid_v1_modbus_variable (xmd_Variables x)"

definition valid_v1_s7_variable :: "v1_S7Variable \<Rightarrow> bool" where
  "valid_v1_s7_variable v \<longleftrightarrow> xs_DataType v \<noteq> [] \<and> valid_name 64 (xs_Name v) \<and> xs_Address v \<noteq> [] \<and>
     required_access (xs_AccessMode v)"

definition valid_v1_s7 :: "v1_S7Device \<Rightarrow> bool" where
  "valid_v1_s7 x \<longleftrightarrow> valid_v1_meta (xsd_DeviceMeta x) \<and> xsd_CollectorCycle x \<noteq> 0 \<and> xsd_Address x \<noteq> None \<and>
     list_all valid_v1_s7_variable (xsd_Variables x)"

definition valid_v1_opcua_variable :: "v1_OpcUaVariable \<Rightarrow> bool" where
  "valid_v1_opcua_variable v \<longleftrightarrow> xo_DataType v \<noteq> [] \<and> valid_name 64 (xo_Name v) \<and> xo_Address v \<noteq> VNil \<and>
     xo_NameSpace v \<noteq> 0 \<and> required_access (xo_AccessMode v)"

definition valid_v1_opcua :: "v1_OpcUaDevice \<Rightarrow> bool" where
  "valid_v1_opcua x \<longleftrightarrow> valid_v1_meta (xod_DeviceMeta x) \<and> xod_CollectorCycle x \<noteq> 0 \<and> xod_Address x \<noteq> None \<and>
     list_all valid_v1_opcua_variable (xod_Variables x)"

fun valid_v1 :: "V1Device \<Rightarrow> bool" where
  "valid_v1 (V1ModBus x) = valid_v1_modbus x"
| "valid_v1 (V1S7 x) = valid_v1_s7 x"
| "valid_v1 (V1OpcUa x) = valid_v1_opcua x"

section \<open>Answers\<close>

datatype http_body = BErrors MultiError | BError any_error | BDevice Device | BDevices "Device list"

datatype gin_call = CHeader string string | CStatus nat | CJSON nat http_body | CJSONP nat http_body

type_synonym answer = "gin_call list \<times> Manager option"

text \<open>The errors of the manager as Go values: the gateway's own response errors, and the others by their text.\<close>

definition error_value :: "(manager_error \<Rightarrow> string) \<Rightarrow> manager_error \<Rightarrow> any_error" where
  "error_value text e = (case e of MResponse re \<Rightarrow> ErrResponse (Some re) | _ \<Rightarrow> ErrPlain (text e))"

definition IsResponseError :: "manager_error \<Rightarrow> bool" where
  "IsResponseError e = (case e of MResponse _ \<Rightarrow> True | _ \<Rightarrow> False)"

definition errors_body :: "any_error \<Rightarrow> http_body" where
  "errors_body e = BErrors (NewMultiError [e])"

definition bad_request :: "responseError \<Rightarrow> gin_call" where
  "bad_request e = CJSON 400 (errors_body (ErrResponse (Some e)))"

text \<open>What the HTTP request and the libraries supply. \<open>DeviceTypeMap\<close> has an empty request object for the types of
  \<open>DeviceManagers\<close>; decoding fills it.\<close>

record 'body request =
  rq_id :: string
  rq_IfMatch :: string
  rq_Body :: "'body option"

record ('body, 'patch) codec =
  cd_DeviceType :: "'body \<Rightarrow> string option"
  cd_Decode :: "Protocol \<Rightarrow> 'body \<Rightarrow> V1Device option"
  cd_Marshal :: "Device \<Rightarrow> 'body option"
  cd_DecodePatch :: "'body \<Rightarrow> 'patch list option"
  cd_Apply :: "'patch list \<Rightarrow> 'body \<Rightarrow> 'body option"
  cd_MergePatch :: "'body \<Rightarrow> 'body \<Rightarrow> 'body option"
  cd_Actions :: "'body \<Rightarrow> (string \<times> GoValue) list list option"

section \<open>Handlers\<close>

text \<open>A failure to read the body or to find the type is answered, but the handler goes on; then \<open>target.DeviceType\<close>
  is empty, the map has no function for it, and calling it panics.\<close>

definition createDevice ::
  "('body, 'patch) codec \<Rightarrow> (manager_error \<Rightarrow> string) \<Rightarrow> string \<Rightarrow>
   (V1Device \<Rightarrow> Manager \<Rightarrow> ((manager_error + nat) \<times> Manager) option) \<Rightarrow> 'body request \<Rightarrow> Manager \<Rightarrow> answer" where
  "createDevice codec text url create rq m =
     (let unread = (if rq_Body rq = None then [bad_request ErrMalformedJSON] else []);
          target = Option.bind (rq_Body rq) (cd_DeviceType codec);
          untyped = (if target = None then [bad_request ErrRequestBody] else [])
      in case DeviceManagers (case target of Some t \<Rightarrow> t | None \<Rightarrow> []) of
           None \<Rightarrow> (unread @ untyped, None)
         | Some p \<Rightarrow>
             (case Option.bind (rq_Body rq) (cd_Decode codec p) of
                None \<Rightarrow> (unread @ untyped @ [bad_request ErrMalformedJSON], Some m)
              | Some object \<Rightarrow>
                  if \<not> valid_v1 object then (unread @ untyped @ [bad_request ErrMalformedJSON], Some m)
                  else case create object m of
                    None \<Rightarrow> (unread @ untyped, None)
                  | Some (Inl err, m) \<Rightarrow> (unread @ untyped @ [CJSON 400 (errors_body (error_value text err))], Some m)
                  | Some (Inr a, m) \<Rightarrow>
                      let d = obj_at m a
                      in (unread @ untyped @ [CHeader ''ETag'' (GetVersion d),
                            CHeader ''Location'' (''https://'' @ url @ ''/'' @ GetID d), CJSON 201 (BDevice d)], Some m)))"

definition deleteDevice ::
  "(manager_error \<Rightarrow> string) \<Rightarrow> io_fault option \<Rightarrow> 'body request \<Rightarrow> Manager \<Rightarrow> answer" where
  "deleteDevice text fault rq m =
     (if rq_IfMatch rq = [] then ([CStatus 428], Some m)
      else case Manager_DeleteDevice fault (rq_id rq) (rq_IfMatch rq) m of
        None \<Rightarrow> ([], None)
      | Some (Inl err, m) \<Rightarrow>
          ([if err = ErrNotExist then CStatus 404
            else if err = ErrMismatch then CStatus 412
            else CJSON 400 (errors_body (error_value text err))], Some m)
      | Some (Inr device, m) \<Rightarrow> ([CJSON 200 (BDevice device)], Some m))"

text \<open>The answer both handlers give to the outcome of \<open>UpdateDeviceById\<close>.\<close>

definition answer_update ::
  "(manager_error \<Rightarrow> string) \<Rightarrow> ((manager_error + Device) \<times> Manager) option \<Rightarrow> answer" where
  "answer_update text res =
     (case res of
        None \<Rightarrow> ([], None)
      | Some (Inl err, m) \<Rightarrow>
          ([if err = ErrNotExist then CStatus 404
            else if err = ErrMismatch then CStatus 412
            else if IsResponseError err then CJSON 400 (errors_body (error_value text err))
            else CStatus 500], Some m)
      | Some (Inr updated, m) \<Rightarrow> ([CHeader ''ETag'' (GetVersion updated), CJSON 200 (BDevice updated)], Some m))"

definition updateDeviceById ::
  "('body, 'patch) codec \<Rightarrow> (manager_error \<Rightarrow> string) \<Rightarrow>
   (string \<Rightarrow> string \<Rightarrow> V1Device \<Rightarrow> Manager \<Rightarrow> ((manager_error + Device) \<times> Manager) option) \<Rightarrow>
   'body request \<Rightarrow> Manager \<Rightarrow> answer" where
  "updateDeviceById codec text update rq m =
     (if rq_IfMatch rq = [] then ([CStatus 428], Some m)
      else case GetDeviceById (rq_id rq) True m of
        Inl _ \<Rightarrow> ([CStatus 404], Some m)
      | Inr old \<Rightarrow>
          (case DeviceManagers (GetDeviceType old) of
             None \<Rightarrow> ([], None)
           | Some p \<Rightarrow>
               (case Option.bind (rq_Body rq) (cd_Decode codec p) of
                  None \<Rightarrow> ([bad_request ErrMalformedJSON], Some m)
                | Some newObj \<Rightarrow> answer_update text (update (rq_id rq) (rq_IfMatch rq) newObj m))))"

definition maxJSONPatchOperations :: nat where
  "maxJSONPatchOperations = 1000"

datatype patch_error = PatchResponse responseError | PatchUnknown string

definition applyJSPatch ::
  "('body, 'patch) codec \<Rightarrow> string \<Rightarrow> 'body \<Rightarrow> 'body \<Rightarrow> patch_error + 'body" where
  "applyJSPatch codec patchType patchBytes versionedJS =
     (if patchType = ''application/json-patch+json'' then
        (case cd_DecodePatch codec patchBytes of
           None \<Rightarrow> Inl (PatchResponse ErrMalformedJSON)
         | Some patchObj \<Rightarrow>
             if length patchObj > maxJSONPatchOperations
             then Inl (PatchResponse (ErrTooManyJsonPatchOperations (int maxJSONPatchOperations)))
             else case cd_Apply codec patchObj versionedJS of
               None \<Rightarrow> Inl (PatchResponse ErrMalformedJSON)
             | Some patchedJS \<Rightarrow> Inr patchedJS)
      else if patchType = ''application/merge-patch+json'' then
        (case cd_MergePatch codec versionedJS patchBytes of
           None \<Rightarrow> Inl (PatchResponse ErrMalformedJSON)
         | Some patchedJS \<Rightarrow> Inr patchedJS)
      else Inl (PatchUnknown patchType))"

definition patchTypes :: "string list" where
  "patchTypes = [''application/json-patch+json'', ''application/merge-patch+json'']"

definition content_type :: "string \<Rightarrow> string" where
  "content_type s = (case str_index s CHR '';'' of Some (Suc i) \<Rightarrow> take (Suc i) s | _ \<Rightarrow> s)"

definition patch_error_value :: "patch_error \<Rightarrow> any_error" where
  "patch_error_value e =
     (case e of PatchResponse re \<Rightarrow> ErrResponse (Some re)
      | PatchUnknown t \<Rightarrow> ErrPlain (''unknown Content-Type header for patch: '' @ t))"

definition patchDeviceById ::
  "('body, 'patch) codec \<Rightarrow> (manager_error \<Rightarrow> string) \<Rightarrow>
   (string \<Rightarrow> string \<Rightarrow> V1Device \<Rightarrow> Manager \<Rightarrow> ((manager_error + Device) \<times> Manager) option) \<Rightarrow>
   string \<Rightarrow> 'body request \<Rightarrow> Manager \<Rightarrow> answer" where
  "patchDeviceById codec text update header rq m =
     (let contentType = content_type header
      in if contentType \<notin> set patchTypes then ([CStatus 415], Some m)
         else if rq_IfMatch rq = [] then ([CStatus 428], Some m)
         else case rq_Body rq of
           None \<Rightarrow> ([CStatus 500], Some m)
         | Some patchBytes \<Rightarrow>
             (case GetDeviceById (rq_id rq) True m of
                Inl _ \<Rightarrow> ([CStatus 404], Some m)
              | Inr old \<Rightarrow>
                  (case cd_Marshal codec old of
                     None \<Rightarrow> ([CStatus 500], Some m)
                   | Some versionedJS \<Rightarrow>
                       (case applyJSPatch codec contentType patchBytes versionedJS of
                          Inl err \<Rightarrow> ([CJSONP 400 (errors_body (patch_error_value err))], Some m)
                        | Inr patchedJS \<Rightarrow>
                            (case DeviceManagers (GetDeviceType old) of
                               None \<Rightarrow> ([], None)
                             | Some p \<Rightarrow>
                                 (case cd_Decode codec p patchedJS of
                                    None \<Rightarrow> ([bad_request ErrMalformedJSON], Some m)
                                  | Some newObj \<Rightarrow> answer_update text (update (rq_id rq) (rq_IfMatch rq) newObj m)))))))"

text \<open>\<^verbatim>\<open>strconv.ParseBool\<close>, without its error.\<close>

definition ParseBool :: "string \<Rightarrow> bool" where
  "ParseBool s \<longleftrightarrow> s \<in> {''1'', ''t'', ''T'', ''TRUE'', ''true'', ''True''}"

text \<open>The query is the list of its parameters; \<open>unmarshal\<close> decodes the filter.\<close>

definition query_get :: "(string \<times> string) list \<Rightarrow> string \<Rightarrow> string" where
  "query_get query k = (case map_of query k of Some v \<Rightarrow> v | None \<Rightarrow> [])"

definition listDevices ::
  "(string \<Rightarrow> GwDeviceFilter option) \<Rightarrow> (GoValue \<Rightarrow> NameFilterFunc) \<Rightarrow> string list \<Rightarrow> (string \<times> string) list \<Rightarrow>
   Manager \<Rightarrow> answer" where
  "listDevices unmarshal decode keys query m =
     (let v = query_get query ''filter'';
          flt = (if v = [] then Some \<lparr>flt_Name = VNil, flt_Id = [], flt_DeviceCode = [], flt_DeviceType = []\<rparr> else unmarshal v);
          exploded = ParseBool (query_get query ''exploded'')
      in case flt of
           None \<Rightarrow> ([bad_request ErrMalformedJSON], Some m)
         | Some f \<Rightarrow>
             (case ListDevices decode f exploded keys m of
                None \<Rightarrow> ([], None)
              | Some rds \<Rightarrow> ([CJSON 200 (BDevices rds)], Some m)))"

definition getDeviceById :: "(string \<times> string) list \<Rightarrow> 'body request \<Rightarrow> Manager \<Rightarrow> answer" where
  "getDeviceById query rq m =
     (case GetDeviceById (rq_id rq) (ParseBool (query_get query ''exploded'')) m of
        Inl err \<Rightarrow> ([if err = ErrNotExist then CStatus 404 else CStatus 500], Some m)
      | Inr rd \<Rightarrow> ([CHeader ''ETag'' (GetVersion rd), CJSON 200 (BDevice rd)], Some m))"

text \<open>The error is answered, but the handler goes on and sets the status of success.\<close>

definition switchDeviceStatusById :: "(manager_error \<Rightarrow> string) \<Rightarrow> string \<Rightarrow> 'body request \<Rightarrow> Manager \<Rightarrow> answer" where
  "switchDeviceStatusById text status rq m =
     (case SwitchDeviceStatus (rq_id rq) status m of
        (err, m) \<Rightarrow>
          ((case err of
              None \<Rightarrow> []
            | Some e \<Rightarrow> [if e = ErrNotExist then CStatus 404 else CJSON 400 (errors_body (error_value text e))]) @
           [CStatus 202], Some m))"

definition controlDeviceById ::
  "('body, 'patch) codec \<Rightarrow> (nat \<Rightarrow> (string \<times> GoValue) list \<Rightarrow> any_error option option) \<Rightarrow> 'body request \<Rightarrow>
   Manager \<Rightarrow> answer" where
  "controlDeviceById codec deliver rq m =
     (case Option.bind (rq_Body rq) (cd_Actions codec) of
        None \<Rightarrow> ([bad_request ErrMalformedJSON], Some m)
      | Some actions \<Rightarrow>
          (case Manager_DeliverAction deliver (rq_id rq) actions m of
             None \<Rightarrow> ([], None)
           | Some (Inl errs) \<Rightarrow> ([CJSON 400 (BErrors errs)], Some m)
           | Some (Inr (Some err)) \<Rightarrow> ([CJSON 400 (BError err)], Some m)
           | Some (Inr None) \<Rightarrow> ([CStatus 202], Some m)))"


section \<open>What the handlers answer\<close>

lemma required_access_iff [simp]: "required_access a \<longleftrightarrow> a \<noteq> AccessModeReadOnly"
  by (cases a) (simp_all add: required_access_def AccessMode_code_def)

definition has_read_only :: "V1Device \<Rightarrow> bool" where
  "has_read_only object = (case object of
     V1ModBus x \<Rightarrow> list_ex (\<lambda>v. xm_AccessMode v = AccessModeReadOnly) (xmd_Variables x)
   | V1S7 x \<Rightarrow> list_ex (\<lambda>v. xs_AccessMode v = AccessModeReadOnly) (xsd_Variables x)
   | V1OpcUa x \<Rightarrow> list_ex (\<lambda>v. xo_AccessMode v = AccessModeReadOnly) (xod_Variables x))"

text \<open>The tag \<open>required\<close> of the access mode rejects the zero value, and that is the mode \<open>r\<close>: a device with a
  read-only variable can not be created. The request is answered as malformed, and nothing changes.\<close>

theorem read_only_variable_rejected:
  assumes "rq_Body rq = Some body" "cd_DeviceType codec body = Some t" "DeviceManagers t = Some p"
    and "cd_Decode codec p body = Some object" "has_read_only object"
  shows "createDevice codec text url create rq m = ([bad_request ErrMalformedJSON], Some m)"
proof -
  have "\<not> valid_v1 object"
    using assms(5) by (cases object) (auto simp: has_read_only_def valid_v1_modbus_def valid_v1_s7_def valid_v1_opcua_def
        valid_v1_modbus_variable_def valid_v1_s7_variable_def valid_v1_opcua_variable_def list_ex_iff list_all_iff)
  then show ?thesis using assms(1-4) by (simp add: createDevice_def Let_def)
qed

definition example_codec :: "V1Device \<Rightarrow> (unit, unit) codec" where
  "example_codec object =
     \<lparr>cd_DeviceType = (\<lambda>_. Some (v1_GetDeviceType object)), cd_Decode = (\<lambda>_ _. Some object), cd_Marshal = (\<lambda>_. None),
      cd_DecodePatch = (\<lambda>_. None), cd_Apply = (\<lambda>_ _. None), cd_MergePatch = (\<lambda>_ _. None), cd_Actions = (\<lambda>_. None)\<rparr>"

definition read_only_request :: V1Device where
  "read_only_request = V1S7 ((example_request [''a''])\<lparr>xsd_Variables :=
     map (\<lambda>v. v\<lparr>xs_AccessMode := AccessModeReadOnly\<rparr>) (xsd_Variables (example_request [''a'']))\<rparr>)"

lemma read_only_variable_rejected_witness:
  "createDevice (example_codec read_only_request) (\<lambda>_. []) ''h'' (Manager_CreateDevice Some None (\<lambda>_. None) example_stamp)
     \<lparr>rq_id = [], rq_IfMatch = [], rq_Body = Some ()\<rparr> example_empty = ([bad_request ErrMalformedJSON], Some example_empty)"
proof (rule read_only_variable_rejected)
  show "cd_DeviceType (example_codec read_only_request) () = Some ''s7''"
    by (simp add: example_codec_def read_only_request_def v1_GetDeviceType_def example_request_def)
  show "has_read_only read_only_request" by (simp add: has_read_only_def read_only_request_def example_request_def)
qed (simp_all add: example_codec_def DeviceManagers_def)

text \<open>What a validated request makes, when the type it names is the one it was decoded as.\<close>

definition request_protocol :: "V1Device \<Rightarrow> Protocol" where
  "request_protocol object = (case object of V1ModBus _ \<Rightarrow> PModbus | V1S7 _ \<Rightarrow> PS7 | V1OpcUa _ \<Rightarrow> POpcUa)"

definition has_option :: "V1Device \<Rightarrow> bool" where
  "has_option object = (case object of
     V1ModBus x \<Rightarrow> Option.bind (xmd_Address x) xma_Option \<noteq> None
   | V1S7 x \<Rightarrow> Option.bind (xsd_Address x) xsa_Option \<noteq> None
   | V1OpcUa x \<Rightarrow> Option.bind (xod_Address x) xoa_Option \<noteq> None)"

definition request_names :: "V1Device \<Rightarrow> string list" where
  "request_names object = (case object of
     V1ModBus x \<Rightarrow> map xm_Name (xmd_Variables x) | V1S7 x \<Rightarrow> map xs_Name (xsd_Variables x)
   | V1OpcUa x \<Rightarrow> map xo_Name (xod_Variables x))"

lemmas request_makes = manager_CreateDevice_def Modbus_CreateDevice_def S7_CreateDevice_def OpcUa_CreateDevice_def
  request_protocol_def has_option_def request_names_def v1_GetDeviceType_def Let_def comp_def dev_access new_meta_def
  modbus_variable_def s7_variable_def opcua_variable_def



text \<open>C5: A \<open>PUT\<close> changes the devices only if its \<open>If-Match\<close> is the version that the device has; then it answers with the
  new version, which is also the one on disk. Otherwise the answer names the reason: 428 without \<open>If-Match\<close>, 404 for
  an unknown device, 412 for another version.\<close>

theorem conditional_update:
  assumes put: "updateDeviceById codec text (UpdateDeviceById encode fault inc order) rq m = (calls, Some m')"
  shows "(gm_devices m' \<noteq> gm_devices m \<longrightarrow>
      (\<exists>a rd doc. gm_devices m (rq_id rq) = Some a \<and> GetVersion (obj_at m a) = rq_IfMatch rq \<and> rq_IfMatch rq \<noteq> [] \<and>
        GetVersion rd = next_version inc (rq_IfMatch rq) \<and> GetID rd = GetID (obj_at m a) \<and>
        gm_devices m' = (gm_devices m)(GetID rd \<mapsto> length (gm_objects m)) \<and> obj_at m' (length (gm_objects m)) = rd \<and>
        encode rd = Some doc \<and> gm_store m' = (gm_store m)(store_key rd \<mapsto> Document doc) \<and>
        calls = [CHeader ''ETag'' (GetVersion rd), CJSON 200 (BDevice rd)])) \<and>
    (rq_IfMatch rq = [] \<longrightarrow> calls = [CStatus 428] \<and> m' = m) \<and>
    (rq_IfMatch rq \<noteq> [] \<and> gm_devices m (rq_id rq) = None \<longrightarrow> calls = [CStatus 404] \<and> m' = m) \<and>
    (\<forall>a p body newObj. rq_IfMatch rq \<noteq> [] \<and> gm_devices m (rq_id rq) = Some a \<and>
       GetVersion (obj_at m a) \<noteq> rq_IfMatch rq \<and> DeviceManagers (GetDeviceType (obj_at m a)) = Some p \<and>
       rq_Body rq = Some body \<and> cd_Decode codec p body = Some newObj \<longrightarrow> calls = [CStatus 412] \<and> m' = m)"
proof (cases "rq_IfMatch rq = [] \<or> gm_devices m (rq_id rq) = None")
  case True
  then have "calls = [CStatus (if rq_IfMatch rq = [] then 428 else 404)] \<and> m' = m"
    using put unfolding updateDeviceById_def by (cases "rq_IfMatch rq = []") (simp_all add: GetDeviceById_def)
  then show ?thesis using True by auto
next
  case False
  then obtain a where a: "gm_devices m (rq_id rq) = Some a" and im: "rq_IfMatch rq \<noteq> []" by auto
  let ?d = "obj_at m a"
  obtain p where p: "DeviceManagers (GetDeviceType ?d) = Some p"
    using put a im by (auto simp: updateDeviceById_def GetDeviceById_def split: option.splits)
  show ?thesis
  proof (cases "Option.bind (rq_Body rq) (cd_Decode codec p)")
    case None
    then show ?thesis using put a im p by (auto simp: updateDeviceById_def GetDeviceById_def)
  next
    case (Some newObj)
    then have ans: "answer_update text (UpdateDeviceById encode fault inc order (rq_id rq) (rq_IfMatch rq) newObj m) = (calls, Some m')"
      using put a im p by (simp add: updateDeviceById_def GetDeviceById_def)
    then obtain res where u: "UpdateDeviceById encode fault inc order (rq_id rq) (rq_IfMatch rq) newObj m = Some (res, m')"
      by (auto simp: answer_update_def split: option.splits sum.splits prod.splits)
    note outcome = update_all_or_nothing [OF u a]
    show ?thesis
    proof (cases res)
      case (Inl e)
      then have "e = ErrMismatch \<and> m' = m" if "rq_IfMatch rq \<noteq> GetVersion ?d" using outcome that by simp
      moreover have "e = ErrMismatch \<Longrightarrow> calls = [CStatus 412]" using ans u Inl by (simp add: answer_update_def)
      ultimately show ?thesis using outcome Inl a im by auto
    next
      case (Inr rd)
      have "calls = [CHeader ''ETag'' (GetVersion rd), CJSON 200 (BDevice rd)]"
        using ans u Inr by (simp add: answer_update_def)
      then show ?thesis using outcome Inr a im by auto
    qed
  qed
qed


lemma conditional_update_witness:
  "\<exists>calls m' rd. updateDeviceById (example_codec (V1S7 (example_request [''a'']))) (\<lambda>_. []) (UpdateDeviceById Some None 5 rev)
       \<lparr>rq_id = ''d1'', rq_IfMatch = show_nat 7, rq_Body = Some ()\<rparr> example_running = (calls, Some m') \<and>
     gm_devices m' \<noteq> gm_devices example_running \<and> GetVersion rd = next_version 5 (show_nat 7) \<and>
     calls = [CHeader ''ETag'' (GetVersion rd), CJSON 200 (BDevice rd)]"
proof -
  let ?rq = "\<lparr>rq_id = ''d1'', rq_IfMatch = show_nat 7, rq_Body = Some ()\<rparr>"
  obtain rd m' where u: "UpdateDeviceById Some None 5 rev ''d1'' (show_nat 7) (V1S7 (example_request [''a''])) example_running = Some (Inr rd, m')"
    "gm_devices m' ''d1'' = Some 1"
    using update_all_or_nothing_witness by blast
  have ne: "show_nat 7 \<noteq> []" by (simp add: show_nat.simps)
  have "GetDeviceType (obj_at example_running 0) = ''s7''" unfolding example_running_at by (simp add: dev_access
      example_device_def new_meta_def example_request_def)
  then have put: "updateDeviceById (example_codec (V1S7 (example_request [''a'']))) (\<lambda>_. []) (UpdateDeviceById Some None 5 rev)
      ?rq example_running = ([CHeader ''ETag'' (GetVersion rd), CJSON 200 (BDevice rd)], Some m')"
    using ne u by (simp add: updateDeviceById_def GetDeviceById_def DeviceManagers_def example_codec_def answer_update_def)
  have changed: "gm_devices m' \<noteq> gm_devices example_running" using u(2) by (auto dest: fun_cong)
  have "GetVersion rd = next_version 5 (show_nat 7)"
    using conditional_update [OF put] changed by auto
  with put changed show ?thesis by blast
qed

end
