(* ===== verification/Crc16.thy ===== *)
theory Crc16
  imports BinUtil
begin

text \<open>
  Model of \<^verbatim>\<open>pkg/utils/crcutil/crc16.go\<close>: the table-driven CRC-16 of the Modbus frames, its
  equivalence with the bit-by-bit definition of the CRC (reflected polynomial 0xA001, initial
  value 0xFFFF), and what it detects.
\<close>

section \<open>The code\<close>

definition crcHi :: "byte list" where
  "crcHi =
    [0, 193, 129, 64, 1, 192, 128, 65, 1, 192, 128, 65, 0, 193, 129, 64,
     1, 192, 128, 65, 0, 193, 129, 64, 0, 193, 129, 64, 1, 192, 128, 65,
     1, 192, 128, 65, 0, 193, 129, 64, 0, 193, 129, 64, 1, 192, 128, 65,
     0, 193, 129, 64, 1, 192, 128, 65, 1, 192, 128, 65, 0, 193, 129, 64,
     1, 192, 128, 65, 0, 193, 129, 64, 0, 193, 129, 64, 1, 192, 128, 65,
     0, 193, 129, 64, 1, 192, 128, 65, 1, 192, 128, 65, 0, 193, 129, 64,
     0, 193, 129, 64, 1, 192, 128, 65, 1, 192, 128, 65, 0, 193, 129, 64,
     1, 192, 128, 65, 0, 193, 129, 64, 0, 193, 129, 64, 1, 192, 128, 65,
     1, 192, 128, 65, 0, 193, 129, 64, 0, 193, 129, 64, 1, 192, 128, 65,
     0, 193, 129, 64, 1, 192, 128, 65, 1, 192, 128, 65, 0, 193, 129, 64,
     0, 193, 129, 64, 1, 192, 128, 65, 1, 192, 128, 65, 0, 193, 129, 64,
     1, 192, 128, 65, 0, 193, 129, 64, 0, 193, 129, 64, 1, 192, 128, 65,
     0, 193, 129, 64, 1, 192, 128, 65, 1, 192, 128, 65, 0, 193, 129, 64,
     1, 192, 128, 65, 0, 193, 129, 64, 0, 193, 129, 64, 1, 192, 128, 65,
     1, 192, 128, 65, 0, 193, 129, 64, 0, 193, 129, 64, 1, 192, 128, 65,
     0, 193, 129, 64, 1, 192, 128, 65, 1, 192, 128, 65, 0, 193, 129, 64]"

definition crcLo :: "byte list" where
  "crcLo =
    [0, 192, 193, 1, 195, 3, 2, 194, 198, 6, 7, 199, 5, 197, 196, 4,
     204, 12, 13, 205, 15, 207, 206, 14, 10, 202, 203, 11, 201, 9, 8, 200,
     216, 24, 25, 217, 27, 219, 218, 26, 30, 222, 223, 31, 221, 29, 28, 220,
     20, 212, 213, 21, 215, 23, 22, 214, 210, 18, 19, 211, 17, 209, 208, 16,
     240, 48, 49, 241, 51, 243, 242, 50, 54, 246, 247, 55, 245, 53, 52, 244,
     60, 252, 253, 61, 255, 63, 62, 254, 250, 58, 59, 251, 57, 249, 248, 56,
     40, 232, 233, 41, 235, 43, 42, 234, 238, 46, 47, 239, 45, 237, 236, 44,
     228, 36, 37, 229, 39, 231, 230, 38, 34, 226, 227, 35, 225, 33, 32, 224,
     160, 96, 97, 161, 99, 163, 162, 98, 102, 166, 167, 103, 165, 101, 100, 164,
     108, 172, 173, 109, 175, 111, 110, 174, 170, 106, 107, 171, 105, 169, 168, 104,
     120, 184, 185, 121, 187, 123, 122, 186, 190, 126, 127, 191, 125, 189, 188, 124,
     180, 116, 117, 181, 119, 183, 182, 118, 114, 178, 179, 115, 177, 113, 112, 176,
     80, 144, 145, 81, 147, 83, 82, 146, 150, 86, 87, 151, 85, 149, 148, 84,
     156, 92, 93, 157, 95, 159, 158, 94, 90, 154, 155, 91, 153, 89, 88, 152,
     136, 72, 73, 137, 75, 139, 138, 74, 78, 142, 143, 79, 141, 77, 76, 140,
     68, 132, 133, 69, 135, 71, 70, 134, 130, 66, 67, 131, 65, 129, 128, 64]"

text \<open>One round of the loop of \<open>CheckCrc16sum\<close> on the pair \<open>(crcH, crcL)\<close>.\<close>

definition crc_round :: "byte \<times> byte \<Rightarrow> byte \<Rightarrow> byte \<times> byte" where
  "crc_round st x =
     (let index = fst st XOR x
      in (snd st XOR crcHi ! unat index, crcLo ! unat index))"

definition crc_run :: "byte \<times> byte \<Rightarrow> byte list \<Rightarrow> byte \<times> byte" where
  "crc_run st bytes = foldl crc_round st bytes"

definition CheckCrc16sum :: "byte list \<Rightarrow> u16" where
  "CheckCrc16sum bytes =
     (let st = crc_run (0xFF, 0xFF) bytes
      in push_bit 8 (ucast (fst st)) OR ucast (snd st))"

section \<open>Reference: the CRC one bit at a time\<close>

definition crc_bit :: "u16 \<Rightarrow> u16" where
  "crc_bit c = (if bit c 0 then drop_bit 1 c XOR 0xA001 else drop_bit 1 c)"

definition crc_byte :: "u16 \<Rightarrow> byte \<Rightarrow> u16" where
  "crc_byte c x = (crc_bit ^^ 8) (c XOR ucast x)"

definition crc16_modbus :: "byte list \<Rightarrow> u16" where
  "crc16_modbus bytes = foldl crc_byte 0xFFFF bytes"

section \<open>The reference CRC\<close>

lemma xor_cancel: "(a::'a::len word) XOR k = b XOR k \<longleftrightarrow> a = b"
  by (metis xor.assoc xor.right_neutral xor_self_eq)

lemma xor_cancel_left: "(k::'a::len word) XOR a = k XOR b \<longleftrightarrow> a = b"
  by (simp only: xor.commute [of k] xor_cancel)

lemma crc_bit_xor: "crc_bit (c XOR d) = crc_bit c XOR crc_bit d"
  by (rule bit_word_eqI) (auto simp: crc_bit_def bit_simps)

lemma crc_bits_xor: "(crc_bit ^^ n) (c XOR d) = (crc_bit ^^ n) c XOR (crc_bit ^^ n) d"
  by (induction n) (auto simp: crc_bit_xor)

lemma crc_bit_shift: "\<not> bit c 0 \<Longrightarrow> crc_bit c = drop_bit 1 c"
  by (simp add: crc_bit_def)

lemma crc_bits_shift: "(\<And>k. k < n \<Longrightarrow> \<not> bit c k) \<Longrightarrow> (crc_bit ^^ n) c = drop_bit n c"
proof (induction n)
  case (Suc n)
  then have "(crc_bit ^^ n) c = drop_bit n c" by simp
  moreover have "\<not> bit (drop_bit n c) 0" using Suc.prems [of n] by (simp add: bit_simps)
  ultimately show ?case by (simp add: crc_bit_shift ac_simps)
qed simp

text \<open>A byte in the upper half is only shifted down by eight rounds.\<close>

lemma crc_bits_high: "(crc_bit ^^ 8) (push_bit 8 (ucast (l::byte))) = ucast l"
proof (subst crc_bits_shift)
  show "drop_bit 8 (push_bit 8 (ucast l)) = (ucast l :: u16)"
  proof (rule bit_word_eqI)
    fix n
    show "bit (drop_bit 8 (push_bit 8 (ucast l :: u16))) n = bit (ucast l :: u16) n"
      by (cases "n < 8") (auto simp: bit_simps byte_bit_high)
  qed
qed (auto simp: bit_simps)

text \<open>One round loses nothing: bit 15 of the result is the bit that was shifted out.\<close>

lemma bit_15_crc_bit: "bit (crc_bit c) 15 \<longleftrightarrow> bit c 0"
  by (auto simp: crc_bit_def bit_simps dest: bit_imp_le_length)

lemma crc_bit_inj: "crc_bit c = crc_bit d \<Longrightarrow> c = d"
proof -
  assume eq: "crc_bit c = crc_bit d"
  then have b0: "bit c 0 \<longleftrightarrow> bit d 0" using bit_15_crc_bit by metis
  have "drop_bit 1 c = drop_bit 1 d"
    using eq b0 by (auto simp: crc_bit_def xor_cancel split: if_splits)
  then have "bit c (Suc n) \<longleftrightarrow> bit d (Suc n)" for n
    by (metis bit_drop_bit_eq comp_apply plus_1_eq_Suc)
  with b0 show "c = d" by (intro bit_word_eqI) (metis not0_implies_Suc)
qed

lemma crc_bits_inj: "(crc_bit ^^ n) c = (crc_bit ^^ n) d \<Longrightarrow> c = d"
  by (induction n) (auto dest: crc_bit_inj)

lemma crc_byte_inj_state: "crc_byte c x = crc_byte d x \<Longrightarrow> c = d"
  unfolding crc_byte_def by (drule crc_bits_inj) (simp add: xor_cancel)

lemma ucast_byte_inj: "ucast (x::byte) = (ucast y :: u16) \<longleftrightarrow> x = y"
proof
  assume eq: "ucast x = (ucast y :: u16)"
  show "x = y"
  proof (rule bit_word_eqI)
    fix n assume "n < LENGTH(8)"
    then show "bit x n = bit y n"
      using arg_cong [OF eq, of "\<lambda>w. bit w n"] by (simp add: bit_simps)
  qed
qed simp

lemma crc_byte_inj_byte: "crc_byte c x = crc_byte c y \<Longrightarrow> x = y"
  unfolding crc_byte_def by (drule crc_bits_inj) (simp add: xor_cancel_left ucast_byte_inj)

lemma crc_fold_inj: "foldl crc_byte c bs = foldl crc_byte d bs \<Longrightarrow> c = d"
  by (induction bs arbitrary: c d) (auto dest: crc_byte_inj_state)

section \<open>The tables are eight reference rounds\<close>

lemma length_crcHi: "length crcHi = 256"
  by (simp add: crcHi_def)

lemma length_crcLo: "length crcLo = 256"
  by (simp add: crcLo_def)

lemma crc_bit_eval:
  "crc_bit 0 = 0"
  "crc_bit 1 = 0xA001"
  "crc_bit (numeral (num.Bit0 n)) = drop_bit 1 (numeral (num.Bit0 n))"
  "crc_bit (numeral (num.Bit1 n)) = drop_bit 1 (numeral (num.Bit1 n)) XOR 0xA001"
  by (simp_all add: crc_bit_def bit_0)

lemma crc_bit_8: "(crc_bit ^^ 8) c =
    crc_bit (crc_bit (crc_bit (crc_bit (crc_bit (crc_bit (crc_bit (crc_bit c)))))))"
  by (simp add: eval_nat_numeral)

text \<open>Row \<open>i\<close> of the tables holds the low byte and the high byte of eight rounds on \<open>i\<close>.\<close>

fun table_ok :: "u16 \<Rightarrow> (byte \<times> byte) list \<Rightarrow> bool" where
  "table_ok i [] = True"
| "table_ok i ((h, l) # r) =
     ((crc_bit ^^ 8) i = push_bit 8 (ucast l) OR ucast h \<and> table_ok (i + 1) r)"

lemma table_ok_tables: "table_ok 0 (zip crcHi crcLo)"
  by (simp add: crcHi_def crcLo_def crc_bit_8 crc_bit_eval)

lemma table_ok_nth:
  "table_ok i rs \<Longrightarrow> k < length rs \<Longrightarrow>
   (crc_bit ^^ 8) (i + of_nat k) = push_bit 8 (ucast (snd (rs ! k))) OR ucast (fst (rs ! k))"
proof (induction rs arbitrary: i k)
  case (Cons p r)
  show ?case
  proof (cases k)
    case 0
    with Cons.prems show ?thesis by (cases p) simp
  next
    case (Suc k')
    with Cons.prems Cons.IH [of "i + 1" k'] show ?thesis by (cases p) (simp add: ac_simps)
  qed
qed simp

lemma ucast_byte_of_nat: "(ucast (x::byte) :: u16) = of_nat (unat x)"
  by simp

lemma crc_tables:
  "(crc_bit ^^ 8) (ucast (x::byte)) =
   push_bit 8 (ucast (crcLo ! unat x)) OR ucast (crcHi ! unat x)"
proof -
  have x: "unat x < 256" using unsigned_less [of x, where 'a=nat] by simp
  then have "unat x < length (zip crcHi crcLo)" by (simp add: length_crcHi length_crcLo)
  from table_ok_nth [OF table_ok_tables this] x show ?thesis
    by (simp add: length_crcHi length_crcLo)
qed

section \<open>The code computes the reference\<close>

text \<open>The pair of the code stands for the CRC register with \<open>crcL\<close> as its high byte: the
  names of the Go variables follow the byte order on the wire.\<close>

definition crc_abs :: "byte \<times> byte \<Rightarrow> u16" where
  "crc_abs st = push_bit 8 (ucast (snd st)) OR ucast (fst st)"

lemma crc_abs_split: "crc_abs (h, l) XOR ucast x = push_bit 8 (ucast l) XOR ucast (h XOR x)"
  by (rule bit_word_eqI) (auto simp: crc_abs_def bit_simps byte_bit_high)

lemma crc_round_refines: "crc_abs (crc_round st x) = crc_byte (crc_abs st) x"
proof (cases st)
  case (Pair h l)
  let ?i = "h XOR x"
  have "crc_byte (crc_abs (h, l)) x = ucast l XOR (push_bit 8 (ucast (crcLo ! unat ?i)) OR ucast (crcHi ! unat ?i))"
    by (simp only: crc_byte_def crc_abs_split crc_bits_xor crc_bits_high crc_tables)
  also have "\<dots> = crc_abs (crc_round (h, l) x)"
    by (rule bit_word_eqI) (auto simp: crc_abs_def crc_round_def Let_def bit_simps byte_bit_high)
  finally show ?thesis by (simp add: Pair)
qed

lemma crc_run_refines: "crc_abs (crc_run st bs) = foldl crc_byte (crc_abs st) bs"
  by (induction bs arbitrary: st) (simp_all add: crc_run_def crc_round_refines)

lemma crc_run_reference: "crc_abs (crc_run (0xFF, 0xFF) bs) = crc16_modbus bs"
  by (simp add: crc_run_refines crc16_modbus_def) (simp add: crc_abs_def)

lemma CheckCrc16sum_bytes:
  "Uint16ToBytesBigEndian (CheckCrc16sum bs) =
   [fst (crc_run (0xFF, 0xFF) bs), snd (crc_run (0xFF, 0xFF) bs)]"
  by (simp add: CheckCrc16sum_def Let_def Uint16ToBytesBigEndian_def)
     (intro conjI; rule bit_word_eqI; auto simp: bit_simps byte_bit_high)

lemma crc_bytes_reference:
  "Uint16ToBytesBigEndian (CheckCrc16sum bs) =
   [ucast (crc16_modbus bs), ucast (drop_bit 8 (crc16_modbus bs))]"
proof -
  obtain h l where st: "crc_run (0xFF, 0xFF) bs = (h, l)" by force
  have "crc16_modbus bs = push_bit 8 (ucast l) OR ucast h"
    using crc_run_reference [of bs] by (simp add: st crc_abs_def)
  then show ?thesis
    by (simp add: CheckCrc16sum_bytes st)
       (intro conjI; rule bit_word_eqI; auto simp: bit_simps byte_bit_high)
qed

text \<open>C25: The table-driven sum is the bit-by-bit CRC-16/MODBUS: written high byte first, as the
  gateway appends it, it gives the two bytes of the reference CRC low byte first, the order of
  the Modbus serial line.\<close>

theorem CheckCrc16sum_reference:
  "Uint16ToBytesBigEndian (CheckCrc16sum bs) = Uint16ToBytesLittleEndian (crc16_modbus bs)"
  by (simp add: crc_bytes_reference Uint16ToBytesLittleEndian_def)

lemma crc_run_append: "crc_run st (xs @ ys) = crc_run (crc_run st xs) ys"
  by (simp add: crc_run_def)

lemma crcHi_0: "crcHi ! 0 = 0" by (simp add: crcHi_def)
lemma crcLo_0: "crcLo ! 0 = 0" by (simp add: crcLo_def)

lemma crc_run_own_sum:
  "crc_run (0xFF, 0xFF) (bs @ Uint16ToBytesBigEndian (CheckCrc16sum bs)) = (0, 0)"
  by (simp add: CheckCrc16sum_bytes crc_run_append)
     (simp add: crc_run_def crc_round_def Let_def crcHi_0 crcLo_0)

text \<open>A frame followed by its own sum, high byte first, has the sum 0.\<close>

theorem CheckCrc16sum_residue:
  "CheckCrc16sum (bs @ Uint16ToBytesBigEndian (CheckCrc16sum bs)) = 0"
  by (simp add: CheckCrc16sum_def [of "bs @ _"] crc_run_own_sum)

lemma crc_two_bytes: "crc_byte (crc_byte c a) b = (crc_bit ^^ 16) (c XOR ucast a XOR push_bit 8 (ucast b))"
proof -
  have "(crc_bit ^^ 16) x = (crc_bit ^^ 8) ((crc_bit ^^ 8) x)" for x
    using funpow_add [of 8 8 crc_bit] by simp
  then show ?thesis by (simp add: crc_byte_def crc_bits_xor crc_bits_high xor.assoc)
qed

lemma byte_pair_inj:
  "ucast (a::byte) XOR push_bit 8 (ucast (b::byte)) = (ucast a' XOR push_bit 8 (ucast b') :: u16)
   \<Longrightarrow> a = a' \<and> b = b'"
proof -
  assume eq: "ucast a XOR push_bit 8 (ucast b) = (ucast a' XOR push_bit 8 (ucast b') :: u16)"
  have bits: "bit (ucast a XOR push_bit 8 (ucast b) :: u16) n = bit (ucast a' XOR push_bit 8 (ucast b') :: u16) n" for n
    using eq by simp
  have "bit a n = bit a' n" if "n < 8" for n
    using bits [of n] that by (auto simp: bit_simps)
  moreover have "bit b n = bit b' n" if "n < 8" for n
    using bits [of "n + 8"] that by (auto simp: bit_simps byte_bit_high)
  ultimately show ?thesis by (intro conjI bit_word_eqI) simp_all
qed

lemma crc_two_bytes_inj:
  "crc_byte (crc_byte c a) b = crc_byte (crc_byte c a') b' \<Longrightarrow> a = a' \<and> b = b'"
  unfolding crc_two_bytes xor.assoc
  by (drule crc_bits_inj) (rule byte_pair_inj, simp only: xor_cancel_left)

lemma CheckCrc16sum_eq_reference:
  assumes "CheckCrc16sum a = CheckCrc16sum b"
  shows "crc16_modbus a = crc16_modbus b"
proof -
  have "crc_run (0xFF, 0xFF) a = crc_run (0xFF, 0xFF) b"
    using CheckCrc16sum_bytes [of a] CheckCrc16sum_bytes [of b] assms
    by (intro prod_eqI) simp_all
  then show ?thesis by (simp only: crc_run_reference [symmetric])
qed

lemma crc_burst:
  "(a, b) \<noteq> (a', b') \<Longrightarrow> CheckCrc16sum (xs @ a # b # ys) \<noteq> CheckCrc16sum (xs @ a' # b' # ys)"
proof
  assume ne: "(a, b) \<noteq> (a', b')" and "CheckCrc16sum (xs @ a # b # ys) = CheckCrc16sum (xs @ a' # b' # ys)"
  then have "crc16_modbus (xs @ a # b # ys) = crc16_modbus (xs @ a' # b' # ys)"
    by (intro CheckCrc16sum_eq_reference)
  then have "a = a' \<and> b = b'"
    unfolding crc16_modbus_def by (auto dest!: crc_fold_inj crc_two_bytes_inj)
  with ne show False by simp
qed

end
