(* ===== verification/ModbusModel.thy ===== *)
theory ModbusModel
  imports ModbusTypes Crc16
begin

text \<open>
  Model of \<^verbatim>\<open>pkg/protocol/modbus/model\<close>: the three Modbus dialects (TCP, RTU on a serial line, RTU
  over TCP) and the read request each of them builds, together with the buffer that is to take
  the response. The properties show that a Modbus server reads back from the request what the
  plan asked for.
\<close>

definition TcpNonDataLength :: uint where "TcpNonDataLength = 9"
definition RtuNonDataLength :: uint where "RtuNonDataLength = 5"
definition RtuOverTcpNonDataLength :: uint where "RtuOverTcpNonDataLength = 5"

text \<open>The switch that computes the length of the response, \<open>nonData\<close> being the bytes of the
  response that are not payload.\<close>

definition response_bytesLength :: "uint \<Rightarrow> byte \<Rightarrow> uint \<Rightarrow> uint" where
  "response_bytesLength nonData functionCode maxDataSize =
     (if functionCode = ReadCoilStatus \<or> functionCode = ReadInputStatus then
        (if maxDataSize mod 8 = 0 then maxDataSize div 8 + nonData
         else maxDataSize div 8 + 1 + nonData)
      else if functionCode = ReadHoldRegister \<or> functionCode = ReadInputRegister then
        maxDataSize * 2 + nonData
      else 0)"

definition ModbusTcp_GenerateReadMessage ::
  "uint \<Rightarrow> byte \<Rightarrow> uint \<Rightarrow> uint \<Rightarrow> VariableParse list \<Rightarrow> MemoryLayout \<Rightarrow> ModBusDataFrame option" where
  "ModbusTcp_GenerateReadMessage slave functionCode startAddress maxDataSize variables memoryLayout =
     do { let message = replicate 12 0;
          message \<leftarrow> write_at WriteUint16BigEndian 2 message 0;
          message \<leftarrow> write_at WriteUint16BigEndian 4 message 6;
          let message = message[6 := ucast slave];
          let message = message[7 := functionCode];
          message \<leftarrow> write_at WriteUint16BigEndian 8 message (ucast startAddress);
          message \<leftarrow> write_at WriteUint16BigEndian 10 message (ucast maxDataSize);
          response \<leftarrow> make_bytes (response_bytesLength TcpNonDataLength functionCode maxDataSize);
          Some \<lparr>df_Slave = slave, df_MemoryLayout = memoryLayout, df_StartAddress = startAddress,
                df_FunctionCode = functionCode, df_MaxDataSize = maxDataSize, df_TransactionId = 0,
                df_DataFrame = message, df_ResponseDataFrame = response, df_Variables = variables\<rparr> }"

definition ModbusRtu_GenerateReadMessage ::
  "uint \<Rightarrow> byte \<Rightarrow> uint \<Rightarrow> uint \<Rightarrow> VariableParse list \<Rightarrow> MemoryLayout \<Rightarrow> ModBusDataFrame option" where
  "ModbusRtu_GenerateReadMessage slave functionCode startAddress maxDataSize variables memoryLayout =
     do { let message = replicate 6 0;
          let message = message[0 := ucast slave];
          let message = message[1 := functionCode];
          message \<leftarrow> write_at WriteUint16BigEndian 2 message (ucast startAddress);
          message \<leftarrow> write_at WriteUint16BigEndian 4 message (ucast maxDataSize);
          crc16 \<leftarrow> WriteUint16BigEndian (replicate 2 0) (CheckCrc16sum message);
          let message = message @ crc16;
          response \<leftarrow> make_bytes (response_bytesLength RtuNonDataLength functionCode maxDataSize);
          Some \<lparr>df_Slave = slave, df_MemoryLayout = memoryLayout, df_StartAddress = startAddress,
                df_FunctionCode = functionCode, df_MaxDataSize = maxDataSize, df_TransactionId = 0,
                df_DataFrame = message, df_ResponseDataFrame = response, df_Variables = variables\<rparr> }"

definition ModbusRtuOverTcp_GenerateReadMessage ::
  "uint \<Rightarrow> byte \<Rightarrow> uint \<Rightarrow> uint \<Rightarrow> VariableParse list \<Rightarrow> MemoryLayout \<Rightarrow> ModBusDataFrame option" where
  "ModbusRtuOverTcp_GenerateReadMessage slave functionCode startAddress maxDataSize variables memoryLayout =
     do { let message = replicate 6 0;
          let message = message[0 := ucast slave];
          let message = message[1 := functionCode];
          message \<leftarrow> write_at WriteUint16BigEndian 2 message (ucast startAddress);
          message \<leftarrow> write_at WriteUint16BigEndian 4 message (ucast maxDataSize);
          crc16 \<leftarrow> WriteUint16BigEndian (replicate 2 0) (CheckCrc16sum message);
          let message = message @ crc16;
          response \<leftarrow> make_bytes (response_bytesLength RtuOverTcpNonDataLength functionCode maxDataSize);
          Some \<lparr>df_Slave = slave, df_MemoryLayout = memoryLayout, df_StartAddress = startAddress,
                df_FunctionCode = functionCode, df_MaxDataSize = maxDataSize, df_TransactionId = 0,
                df_DataFrame = message, df_ResponseDataFrame = response, df_Variables = variables\<rparr> }"

text \<open>\<open>ModbusModelers[deviceModel].GenerateReadMessage\<close>: a model that is not in the map is a nil
  interface, and calling it panics.\<close>

definition GenerateReadMessage ::
  "string \<Rightarrow> uint \<Rightarrow> byte \<Rightarrow> uint \<Rightarrow> uint \<Rightarrow> VariableParse list \<Rightarrow> MemoryLayout \<Rightarrow> ModBusDataFrame option" where
  "GenerateReadMessage deviceModel =
     (if deviceModel = ''modbusTcp'' then ModbusTcp_GenerateReadMessage
      else if deviceModel = ''modbusRtu'' then ModbusRtu_GenerateReadMessage
      else if deviceModel = ''modbusRtuOverTcp'' then ModbusRtuOverTcp_GenerateReadMessage
      else (\<lambda>_ _ _ _ _ _. None))"

section \<open>The bytes of a request\<close>

definition read_pdu :: "uint \<Rightarrow> byte \<Rightarrow> uint \<Rightarrow> uint \<Rightarrow> byte list" where
  "read_pdu slave fc start cnt =
     [ucast slave, fc] @ Uint16ToBytesBigEndian (ucast start) @ Uint16ToBytesBigEndian (ucast cnt)"

definition with_crc :: "byte list \<Rightarrow> byte list" where
  "with_crc bs = bs @ Uint16ToBytesBigEndian (CheckCrc16sum bs)"

definition with_mbap :: "u16 \<Rightarrow> byte list \<Rightarrow> byte list" where
  "with_mbap tid bs = Uint16ToBytesBigEndian tid @ [0, 0] @ Uint16ToBytesBigEndian (of_nat (length bs)) @ bs"

lemma length_read_pdu [simp]: "length (read_pdu s f a n) = 6"
  by (simp add: read_pdu_def Uint16ToBytesBigEndian_def)

lemma length_with_crc [simp]: "length (with_crc bs) = length bs + 2"
  by (simp add: with_crc_def Uint16ToBytesBigEndian_def)

lemma length_with_mbap [simp]: "length (with_mbap tid bs) = 6 + length bs"
  by (simp add: with_mbap_def Uint16ToBytesBigEndian_def)

lemma CheckCrc16sum_with_crc [simp]: "CheckCrc16sum (with_crc bs) = 0"
  by (simp add: with_crc_def CheckCrc16sum_def [of "bs @ _"] crc_run_own_sum)

text \<open>A frame as the three dialects build it.\<close>

definition read_frame ::
  "byte list \<Rightarrow> uint \<Rightarrow> uint \<Rightarrow> byte \<Rightarrow> uint \<Rightarrow> uint \<Rightarrow> VariableParse list \<Rightarrow> MemoryLayout \<Rightarrow> ModBusDataFrame" where
  "read_frame msg len slave fc start cnt vps ml =
     \<lparr>df_Slave = slave, df_MemoryLayout = ml, df_StartAddress = start,
      df_FunctionCode = fc, df_MaxDataSize = cnt, df_TransactionId = 0,
      df_DataFrame = msg, df_ResponseDataFrame = replicate (unat len) 0, df_Variables = vps\<rparr>"

lemma ModbusTcp_frame:
  "0 \<le> sint (response_bytesLength 9 fc cnt) \<Longrightarrow>
   ModbusTcp_GenerateReadMessage slave fc start cnt vps ml =
   Some (read_frame (with_mbap 0 (read_pdu slave fc start cnt))
     (response_bytesLength 9 fc cnt) slave fc start cnt vps ml)"
  by (simp add: ModbusTcp_GenerateReadMessage_def write_at_def slice_from_def eval_nat_numeral
      WriteUint16BigEndian_def need_def make_bytes_def read_frame_def with_mbap_def read_pdu_def
      Uint16ToBytesBigEndian_def TcpNonDataLength_def Let_def)

lemma ModbusRtu_frame:
  "0 \<le> sint (response_bytesLength 5 fc cnt) \<Longrightarrow>
   ModbusRtu_GenerateReadMessage slave fc start cnt vps ml =
   Some (read_frame (with_crc (read_pdu slave fc start cnt))
     (response_bytesLength 5 fc cnt) slave fc start cnt vps ml)"
  by (simp add: ModbusRtu_GenerateReadMessage_def write_at_def slice_from_def eval_nat_numeral
      WriteUint16BigEndian_def need_def make_bytes_def read_frame_def with_crc_def read_pdu_def
      Uint16ToBytesBigEndian_def RtuNonDataLength_def Let_def)

lemma ModbusRtuOverTcp_eq: "ModbusRtuOverTcp_GenerateReadMessage = ModbusRtu_GenerateReadMessage"
  by (intro ext) (simp add: ModbusRtuOverTcp_GenerateReadMessage_def ModbusRtu_GenerateReadMessage_def
      RtuOverTcpNonDataLength_def RtuNonDataLength_def)

section \<open>What a server reads\<close>

text \<open>Specification of the server side, from the Modbus messaging documents: a request is accepted
  when its checksum (serial line) or its header (TCP) is right, and asks for a function at an
  address.\<close>

fun server_pdu :: "byte list \<Rightarrow> (byte \<times> byte \<times> u16 \<times> u16) option" where
  "server_pdu [unit, fc, a1, a0, n1, n0] = Some (unit, fc, be_word a1 a0, be_word n1 n0)"
| "server_pdu _ = None"

definition rtu_server_request :: "byte list \<Rightarrow> (byte \<times> byte \<times> u16 \<times> u16) option" where
  "rtu_server_request msg =
     (let body = take (length msg - 2) msg; crc = drop (length msg - 2) msg
      in if 2 \<le> length msg \<and> crc16_modbus body = be_word (crc ! 1) (crc ! 0) then server_pdu body else None)"

definition tcp_server_request :: "byte list \<Rightarrow> (u16 \<times> byte \<times> byte \<times> u16 \<times> u16) option" where
  "tcp_server_request msg =
     (case msg of
        t1 # t0 # p1 # p0 # l1 # l0 # body \<Rightarrow>
          if be_word p1 p0 = 0 \<and> be_word l1 l0 = of_nat (length body)
          then map_option (Pair (be_word t1 t0)) (server_pdu body) else None
      | _ \<Rightarrow> None)"

lemma server_pdu_read_pdu [simp]:
  "server_pdu (read_pdu slave fc start cnt) = Some (ucast slave, fc, ucast start, ucast cnt)"
  by (simp add: read_pdu_def Uint16ToBytesBigEndian_eq)

lemma rtu_server_with_crc: "rtu_server_request (with_crc bs) = server_pdu bs"
  by (simp add: rtu_server_request_def with_crc_def crc_bytes_reference)

lemma tcp_server_with_mbap:
  "tcp_server_request (with_mbap tid bs) = map_option (Pair tid) (server_pdu bs)"
  by (simp add: tcp_server_request_def with_mbap_def Uint16ToBytesBigEndian_eq) (simp add: be_word_def)



section \<open>What a server answers\<close>

text \<open>Specification of the reply to a read, for a memory of coils or of registers.\<close>

definition bits_byte :: "(nat \<Rightarrow> bool) \<Rightarrow> byte" where
  "bits_byte f = horner_sum of_bool 2 (map f [0..<8])"

definition coil_payload :: "(nat \<Rightarrow> bool) \<Rightarrow> nat \<Rightarrow> nat \<Rightarrow> byte list" where
  "coil_payload coils a n =
     map (\<lambda>i. bits_byte (\<lambda>j. 8 * i + j < n \<and> coils (a + 8 * i + j))) [0..<(n + 7) div 8]"

definition register_payload :: "(nat \<Rightarrow> u16) \<Rightarrow> nat \<Rightarrow> nat \<Rightarrow> byte list" where
  "register_payload regs a n = concat (map (\<lambda>i. Uint16ToBytesBigEndian (regs (a + i))) [0..<n])"

definition server_reply :: "byte \<Rightarrow> byte \<Rightarrow> byte list \<Rightarrow> byte list" where
  "server_reply unit fc payload = [unit, fc, of_nat (length payload)] @ payload"

lemma bit_bits_byte: "j < 8 \<Longrightarrow> bit (bits_byte f) j = f j"
  by (simp add: bits_byte_def bit_horner_sum_bit_word_iff)

lemma length_coil_payload [simp]: "length (coil_payload coils a n) = (n + 7) div 8"
  by (simp add: coil_payload_def)

lemma length_register_payload [simp]: "length (register_payload regs a n) = 2 * n"
  by (simp add: register_payload_def length_concat comp_def Uint16ToBytesBigEndian_eq sum_list_triv)

lemma register_payload_split:
  "register_payload regs a (k + m) = register_payload regs a k @ register_payload regs (a + k) m"
proof -
  have "[0..<k + m] = [0..<k] @ map (\<lambda>i. i + k) [0..<m]"
    using upt_add_eq_append [of 0 k m] by (simp add: map_add_upt add.commute)
  moreover have "a + (i + k) = a + k + i" for i by simp
  ultimately show ?thesis by (simp only: register_payload_def map_append concat_append map_map comp_def)
qed

lemma register_payload_slice:
  "k + m \<le> n \<Longrightarrow> take (2 * m) (drop (2 * k) (register_payload regs a n)) = register_payload regs (a + k) m"
proof -
  assume "k + m \<le> n"
  then obtain r where "n = k + (m + r)" by (metis le_add_diff_inverse add.assoc)
  then show ?thesis by (simp add: register_payload_split)
qed

end
