(* ===== verification/ModbusPlan.thy ===== *)
theory ModbusPlan
  imports ModbusModel
begin

text \<open>
  Model of the planning half of \<open>NewBroker\<close> in \<^verbatim>\<open>pkg/protocol/modbus/modbusbroker.go\<close>: the variables
  of a device are grouped by function code, sorted by address, and packed into read frames. The
  loops may not end when an address is close to \<open>2\<^sup>6\<^sup>4\<close>, so they are partial functions whose value
  \<open>None\<close> also stands for a panic. \<^verbatim>\<open>sort.Sort\<close> is not stable, so the order of variables with the same
  address is not determined by the source: the sorting function is a parameter.
\<close>

section \<open>The packing loops\<close>

text \<open>The body shared by the two loops of the switch. \<open>fits v lim\<close> is the condition of the if,
  \<open>offset v s\<close> the start of the variable in the payload of a frame that starts at \<open>s\<close>, and \<open>extent v s\<close>
  the new \<open>maxDataSize\<close>. The statement \<open>i--\<close> of the source keeps the variable in the list.\<close>

partial_function (option) plan_loop ::
  "(ModbusVariable \<Rightarrow> uint \<Rightarrow> bool) \<Rightarrow> (ModbusVariable \<Rightarrow> uint \<Rightarrow> uint) \<Rightarrow> (ModbusVariable \<Rightarrow> uint \<Rightarrow> uint) \<Rightarrow>
   uint \<Rightarrow> (uint \<Rightarrow> uint \<Rightarrow> VariableParse list \<Rightarrow> ModBusDataFrame option) \<Rightarrow>
   ModbusVariable list \<Rightarrow> uint \<Rightarrow> uint \<Rightarrow> uint \<Rightarrow> VariableParse list \<Rightarrow> ModBusDataFrame list \<Rightarrow>
   (ModBusDataFrame list \<times> VariableParse list \<times> uint \<times> uint) option" where
  "plan_loop fits offset extent limit gen variables startAddress dataFrameDataLength maxDataSize vps dfs =
     (case variables of
        [] \<Rightarrow> Some (dfs, vps, startAddress, maxDataSize)
      | variable # rest \<Rightarrow>
          if fits variable dataFrameDataLength then
            plan_loop fits offset extent limit gen rest startAddress dataFrameDataLength
              (extent variable startAddress)
              (vps @ [\<lparr>vp_Variable = variable, vp_Start = offset variable startAddress\<rparr>]) dfs
          else
            Option.bind (gen startAddress maxDataSize vps)
              (\<lambda>df. plan_loop fits offset extent limit gen (variable # rest) (mv_Address variable)
                 (mv_Address variable + limit) 0 [] (dfs @ [df])))"

definition coil_fits :: "ModbusVariable \<Rightarrow> uint \<Rightarrow> bool" where
  "coil_fits v dataFrameDataLength = (mv_Address v \<le> dataFrameDataLength)"

definition coil_offset :: "ModbusVariable \<Rightarrow> uint \<Rightarrow> uint" where
  "coil_offset v startAddress = mv_Address v - startAddress"

definition coil_extent :: "ModbusVariable \<Rightarrow> uint \<Rightarrow> uint" where
  "coil_extent v startAddress = mv_Address v - startAddress + 1"

definition register_fits :: "ModbusVariable \<Rightarrow> uint \<Rightarrow> bool" where
  "register_fits v dataFrameDataLength = (mv_Address v + DataTypeWord (mv_DataType v) \<le> dataFrameDataLength)"

definition register_offset :: "ModbusVariable \<Rightarrow> uint \<Rightarrow> uint" where
  "register_offset v startAddress = (mv_Address v - startAddress) * 2"

definition register_extent :: "ModbusVariable \<Rightarrow> uint \<Rightarrow> uint" where
  "register_extent v startAddress = mv_Address v - startAddress + DataTypeWord (mv_DataType v)"

definition plan_coils ::
  "(uint \<Rightarrow> uint \<Rightarrow> VariableParse list \<Rightarrow> ModBusDataFrame option) \<Rightarrow> ModbusVariable list \<Rightarrow> uint \<Rightarrow>
   (ModBusDataFrame list \<times> VariableParse list \<times> uint \<times> uint) option" where
  "plan_coils gen variables startAddress =
     plan_loop coil_fits coil_offset coil_extent PerRequestMaxCoil gen
       variables startAddress (startAddress + PerRequestMaxCoil) 0 [] []"

definition plan_registers ::
  "(uint \<Rightarrow> uint \<Rightarrow> VariableParse list \<Rightarrow> ModBusDataFrame option) \<Rightarrow> ModbusVariable list \<Rightarrow> uint \<Rightarrow>
   (ModBusDataFrame list \<times> VariableParse list \<times> uint \<times> uint) option" where
  "plan_registers gen variables startAddress =
     plan_loop register_fits register_offset register_extent PerRequestMaxRegister gen
       variables startAddress (startAddress + PerRequestMaxRegister) 0 [] []"

text \<open>The frames of one function code: the loop, then the frame of the variables that are left.\<close>

definition plan_frames ::
  "(uint \<Rightarrow> uint \<Rightarrow> VariableParse list \<Rightarrow> ModBusDataFrame option) \<Rightarrow> byte \<Rightarrow> ModbusVariable list \<Rightarrow> uint \<Rightarrow>
   ModBusDataFrame list option" where
  "plan_frames gen code variables startAddress =
     do { (dfs, vps, start, maxDataSize) \<leftarrow>
            (if code = ReadCoilStatus \<or> code = ReadInputStatus then plan_coils gen variables startAddress
             else if code = ReadHoldRegister \<or> code = ReadInputRegister then plan_registers gen variables startAddress
             else Some ([], [], startAddress, 0));
          (if vps \<noteq> [] then do { df \<leftarrow> gen start maxDataSize vps; Some (dfs @ [df]) } else Some dfs) }"

definition modbus_device_model :: "ModBusDevice \<Rightarrow> string" where
  "modbus_device_model device = dm_DeviceModel (md_DeviceMeta device)"

definition plan_code ::
  "(ModbusVariable list \<Rightarrow> ModbusVariable list) \<Rightarrow> ModBusDevice \<Rightarrow> byte \<Rightarrow> ModBusDataFrame list option" where
  "plan_code srt device code =
     do { let variables = srt (filter (\<lambda>v. mv_FunctionCode v = code) (md_Variables device));
          firstVariable \<leftarrow> index_at variables 0;
          let startOffset = mv_Address firstVariable - md_PositionAddress device;
          plan_frames (\<lambda>start maxDataSize vps. GenerateReadMessage (modbus_device_model device)
              (md_Slave device) code start maxDataSize vps (md_MemoryLayout device))
            code variables startOffset }"

text \<open>\<open>functionCodeDataFrameMap\<close>, one entry for every function code of the device. Go iterates the codes
  in an unspecified order; the entries do not depend on it.\<close>

primrec plan_codes ::
  "(ModbusVariable list \<Rightarrow> ModbusVariable list) \<Rightarrow> ModBusDevice \<Rightarrow> byte list \<Rightarrow>
   (byte \<times> ModBusDataFrame list) list option" where
  "plan_codes srt device [] = Some []"
| "plan_codes srt device (code # codes) =
     do { dfs \<leftarrow> plan_code srt device code;
          rest \<leftarrow> plan_codes srt device codes;
          Some ((code, dfs) # rest) }"

definition device_codes :: "ModBusDevice \<Rightarrow> byte list" where
  "device_codes device = remdups (map mv_FunctionCode (md_Variables device))"

record 'c ModbusBroker =
  mb_NeedCheckTransaction :: bool
  mb_NeedCheckCrc16Sum :: bool
  mb_Device :: ModBusDevice
  mb_Clients :: 'c
  mb_FunctionCodeDataFrameMap :: "(byte \<times> ModBusDataFrame list) list"
  mb_VariableCount :: nat

text \<open>\<open>newClients\<close> is \<open>NewClients\<close> of the dialect, which opens the connections.\<close>

definition NewBroker ::
  "(ModbusVariable list \<Rightarrow> ModbusVariable list) \<Rightarrow> (string \<Rightarrow> ModbusAddress \<Rightarrow> nat \<Rightarrow> 'c option) \<Rightarrow>
   ModBusDevice \<Rightarrow> (broker_error + 'c ModbusBroker) option" where
  "NewBroker srt newClients device =
     (let model = (case StringToModbusModel (modbus_device_model device) of Some m \<Rightarrow> m | None \<Rightarrow> Tcp);
          needCheckTransaction = (model = Tcp);
          needCheckCrc16Sum = (model = Rtu \<or> model = RtuOverTcp)
      in do { frames \<leftarrow> plan_codes srt device (device_codes device);
              let dataFrameCount = sum_list (map (length \<circ> snd) frames);
              Some (if dataFrameCount = 0 then Inl ErrDeviceEmptyVariable
                    else case newClients (modbus_device_model device) (md_Address device) dataFrameCount of
                      None \<Rightarrow> Inl ErrConnectDevice
                    | Some clients \<Rightarrow>
                        Inr \<lparr>mb_NeedCheckTransaction = needCheckTransaction,
                             mb_NeedCheckCrc16Sum = needCheckCrc16Sum,
                             mb_Device = device, mb_Clients = clients,
                             mb_FunctionCodeDataFrameMap = frames,
                             mb_VariableCount = length (md_Variables device)\<rparr>) })"

section \<open>What the loop does, for any notion of fitting\<close>

lemma plan_loop_induct [consumes 1, case_names stop fit emit]:
  assumes run: "plan_loop fits offset extent limit gen vs s lim m vps dfs = Some r"
    and nil: "\<And>s lim m vps dfs. P [] s lim m vps dfs (dfs, vps, s, m)"
    and fit: "\<And>v rest s lim m vps dfs r. fits v lim \<Longrightarrow>
      P rest s lim (extent v s) (vps @ [\<lparr>vp_Variable = v, vp_Start = offset v s\<rparr>]) dfs r \<Longrightarrow>
      P (v # rest) s lim m vps dfs r"
    and emit: "\<And>v rest s lim m vps dfs df r. \<not> fits v lim \<Longrightarrow> gen s m vps = Some df \<Longrightarrow>
      P (v # rest) (mv_Address v) (mv_Address v + limit) 0 [] (dfs @ [df]) r \<Longrightarrow>
      P (v # rest) s lim m vps dfs r"
  shows "P vs s lim m vps dfs r"
proof -
  let ?P = "\<lambda>fits' offset' extent' limit' gen' vs s lim m vps dfs r.
      fits' = fits \<longrightarrow> offset' = offset \<longrightarrow> extent' = extent \<longrightarrow> limit' = limit \<longrightarrow> gen' = gen \<longrightarrow>
      P vs s lim m vps dfs r"
  have "?P fits offset extent limit gen vs s lim m vps dfs r"
    using run
  proof (rule plan_loop.raw_induct [where P = ?P, rotated])
    fix loop :: "(ModbusVariable \<Rightarrow> uint \<Rightarrow> bool) \<Rightarrow> (ModbusVariable \<Rightarrow> uint \<Rightarrow> uint) \<Rightarrow> (ModbusVariable \<Rightarrow> uint \<Rightarrow> uint) \<Rightarrow>
       uint \<Rightarrow> (uint \<Rightarrow> uint \<Rightarrow> VariableParse list \<Rightarrow> ModBusDataFrame option) \<Rightarrow>
       ModbusVariable list \<Rightarrow> uint \<Rightarrow> uint \<Rightarrow> uint \<Rightarrow> VariableParse list \<Rightarrow> ModBusDataFrame list \<Rightarrow>
       (ModBusDataFrame list \<times> VariableParse list \<times> uint \<times> uint) option"
      and fits' offset' extent' limit' gen' vs s lim m vps dfs r
    assume IH: "\<And>fits' offset' extent' limit' gen' vs s lim m vps dfs r.
        loop fits' offset' extent' limit' gen' vs s lim m vps dfs = Some r \<Longrightarrow>
        fits' = fits \<longrightarrow> offset' = offset \<longrightarrow> extent' = extent \<longrightarrow> limit' = limit \<longrightarrow> gen' = gen \<longrightarrow>
        P vs s lim m vps dfs r"
      and eq: "(case vs of [] \<Rightarrow> Some (dfs, vps, s, m)
        | v # rest \<Rightarrow>
            if fits' v lim then
              loop fits' offset' extent' limit' gen' rest s lim (extent' v s)
                (vps @ [\<lparr>vp_Variable = v, vp_Start = offset' v s\<rparr>]) dfs
            else Option.bind (gen' s m vps)
              (\<lambda>df. loop fits' offset' extent' limit' gen' (v # rest) (mv_Address v)
                 (mv_Address v + limit') 0 [] (dfs @ [df]))) = Some r"
    show "fits' = fits \<longrightarrow> offset' = offset \<longrightarrow> extent' = extent \<longrightarrow> limit' = limit \<longrightarrow> gen' = gen \<longrightarrow>
        P vs s lim m vps dfs r"
    proof (intro impI)
      assume same: "fits' = fits" "offset' = offset" "extent' = extent" "limit' = limit" "gen' = gen"
      have IH': "loop fits offset extent limit gen vs s lim m vps dfs = Some r \<Longrightarrow> P vs s lim m vps dfs r"
        for vs s lim m vps dfs r using IH by blast
      show "P vs s lim m vps dfs r"
      proof (cases vs)
        case Nil
        with eq nil show ?thesis by fastforce
      next
        case (Cons v rest)
        show ?thesis
        proof (cases "fits v lim")
          case True
          with eq Cons same show ?thesis unfolding Cons by (intro fit IH') simp_all
        next
          case False
          with eq Cons same obtain df where "gen s m vps = Some df" and
            "loop fits offset extent limit gen (v # rest) (mv_Address v) (mv_Address v + limit) 0 [] (dfs @ [df]) = Some r"
            by (auto simp only: bind_eq_Some_conv list.case if_False)
          then show ?thesis unfolding Cons by (intro emit [OF False] IH')
        qed
      qed
    qed
  qed
  then show ?thesis by simp
qed


text \<open>The variables of a frame, and what it means that a group of variables is placed in a frame that
  starts at \<open>s\<close>: every variable lies at or after the start, fits below the limit and has its
  offset, and the size is the extent of the last one.\<close>

definition frame_vars :: "ModBusDataFrame \<Rightarrow> ModbusVariable list" where
  "frame_vars df = map vp_Variable (df_Variables df)"

definition placed ::
  "(ModbusVariable \<Rightarrow> uint \<Rightarrow> bool) \<Rightarrow> (ModbusVariable \<Rightarrow> uint \<Rightarrow> uint) \<Rightarrow> (ModbusVariable \<Rightarrow> uint \<Rightarrow> uint) \<Rightarrow>
   uint \<Rightarrow> uint \<Rightarrow> uint \<Rightarrow> VariableParse list \<Rightarrow> bool" where
  "placed fits offset extent limit s m vps \<longleftrightarrow>
     (\<forall>vp \<in> set vps. s \<le> mv_Address (vp_Variable vp) \<and> fits (vp_Variable vp) (s + limit) \<and>
        vp_Start vp = offset (vp_Variable vp) s) \<and>
     m = (if vps = [] then 0 else extent (vp_Variable (last vps)) s)"

definition frame_placed ::
  "(ModbusVariable \<Rightarrow> uint \<Rightarrow> bool) \<Rightarrow> (ModbusVariable \<Rightarrow> uint \<Rightarrow> uint) \<Rightarrow> (ModbusVariable \<Rightarrow> uint \<Rightarrow> uint) \<Rightarrow>
   uint \<Rightarrow> ModBusDataFrame \<Rightarrow> bool" where
  "frame_placed fits offset extent limit df =
     placed fits offset extent limit (df_StartAddress df) (df_MaxDataSize df) (df_Variables df)"

abbreviation by_address :: "ModbusVariable list \<Rightarrow> bool" where
  "by_address vs \<equiv> sorted_wrt (\<lambda>v w. mv_Address v \<le> mv_Address w) vs"

lemma placed_snoc:
  assumes "placed fits offset extent limit s m vps" "s \<le> mv_Address v" "fits v (s + limit)"
  shows "placed fits offset extent limit s (extent v s)
    (vps @ [\<lparr>vp_Variable = v, vp_Start = offset v s\<rparr>])"
  using assms by (auto simp: placed_def)

lemma placed_Nil: "placed fits offset extent limit s 0 []"
  by (simp add: placed_def)

locale frame_generator =
  fixes gen :: "uint \<Rightarrow> uint \<Rightarrow> VariableParse list \<Rightarrow> ModBusDataFrame option"
  assumes gen_start: "gen s m vps = Some df \<Longrightarrow> df_StartAddress df = s"
    and gen_size: "gen s m vps = Some df \<Longrightarrow> df_MaxDataSize df = m"
    and gen_variables: "gen s m vps = Some df \<Longrightarrow> df_Variables df = vps"
    and gen_total: "m \<le> 4000 \<Longrightarrow> gen s m vps \<noteq> None"
begin

lemma gen_placed:
  "gen s m vps = Some df \<Longrightarrow> frame_placed fits offset extent limit df = placed fits offset extent limit s m vps"
  by (simp add: frame_placed_def gen_start gen_size gen_variables)

lemma gen_vars: "gen s m vps = Some df \<Longrightarrow> frame_vars df = map vp_Variable vps"
  by (simp add: frame_vars_def gen_variables)

text \<open>The frames hold the variables in their order, each one once.\<close>

lemma loop_keeps_variables:
  assumes "plan_loop fits offset extent limit gen vs s lim m vps dfs = Some r"
  shows "concat (map frame_vars (fst r)) @ map vp_Variable (fst (snd r)) =
    concat (map frame_vars dfs) @ map vp_Variable vps @ vs"
  using assms by (induction rule: plan_loop_induct) (simp_all add: gen_vars)

lemma loop_placed:
  assumes "plan_loop fits offset extent limit gen vs s lim m vps dfs = Some r"
    and "by_address vs" "\<forall>v \<in> set vs. s \<le> mv_Address v" "lim = s + limit"
    and "placed fits offset extent limit s m vps"
    and "\<forall>df \<in> set dfs. frame_placed fits offset extent limit df"
  shows "(\<forall>df \<in> set (fst r). frame_placed fits offset extent limit df) \<and>
    placed fits offset extent limit (fst (snd (snd r))) (snd (snd (snd r))) (fst (snd r))"
  using assms
  by (induction rule: plan_loop_induct) (auto simp: gen_placed placed_snoc placed_Nil)

lemma loop_nonempty:
  assumes "plan_loop fits offset extent limit gen vs s lim m vps dfs = Some r"
    and "\<forall>v \<in> set vs. fits v (mv_Address v + limit)"
    and "vps \<noteq> [] \<or> vs = [] \<or> fits (hd vs) lim"
    and "\<forall>df \<in> set dfs. df_Variables df \<noteq> []"
  shows "\<forall>df \<in> set (fst r). df_Variables df \<noteq> []"
  using assms
  by (induction rule: plan_loop_induct) (auto simp: gen_variables)

lemma loop_total:
  assumes "by_address vs" "\<forall>v \<in> set vs. s \<le> mv_Address v" "lim = s + limit" "m \<le> 4000"
    and fresh: "\<forall>v \<in> set vs. fits v (mv_Address v + limit)"
    and small: "\<And>v s. v \<in> set vs \<Longrightarrow> s \<le> mv_Address v \<Longrightarrow> fits v (s + limit) \<Longrightarrow> extent v s \<le> 4000"
  shows "\<exists>r. plan_loop fits offset extent limit gen vs s lim m vps dfs = Some r"
  using assms
proof (induction vs arbitrary: s lim m vps dfs)
  case Nil
  then show ?case by (subst plan_loop.simps) simp
next
  case (Cons v vs)
  have step: "\<exists>r. plan_loop fits offset extent limit gen (v # vs) s lim m vps dfs = Some r"
    if "lim = s + limit" "s \<le> mv_Address v" "fits v lim" for s lim m vps dfs
  proof -
    have "\<forall>w \<in> set vs. s \<le> mv_Address w" using Cons.prems(1) that(2) by auto
    then have "\<exists>r. plan_loop fits offset extent limit gen vs s lim (extent v s)
        (vps @ [\<lparr>vp_Variable = v, vp_Start = offset v s\<rparr>]) dfs = Some r"
      using Cons.prems that by (intro Cons.IH) auto
    with that show ?thesis by (subst plan_loop.simps) simp
  qed
  show ?case
  proof (cases "fits v lim")
    case True
    with Cons.prems step show ?thesis by simp
  next
    case False
    obtain df where "gen s m vps = Some df" using gen_total Cons.prems(4) by blast
    moreover have "\<exists>r. plan_loop fits offset extent limit gen (v # vs) (mv_Address v)
        (mv_Address v + limit) 0 [] (dfs @ [df]) = Some r"
      using Cons.prems by (intro step) auto
    ultimately show ?thesis using False by (subst plan_loop.simps) simp
  qed
qed

end

section \<open>The three dialects generate frames\<close>

lemma sint_nonneg: "unat (w :: uint) < 2 ^ 63 \<Longrightarrow> 0 \<le> sint w"
proof -
  assume "unat w < 2 ^ 63"
  then have "unat (drop_bit 63 w) = 0" by (subst unat_drop_bit_eq) (simp add: drop_bit_eq_div)
  then have "\<not> bit (drop_bit 63 w) 0" by (simp add: unat_eq_0)
  then have "\<not> bit w 63" by (simp add: bit_simps)
  then show ?thesis by (simp add: sint_uint signed_take_bit_eq_if_positive bit_uint_iff)
qed

lemma response_bytesLength_small:
  assumes "m \<le> 4000" "nd \<le> 16"
  shows "0 \<le> sint (response_bytesLength nd fc m)"
proof (rule sint_nonneg)
  have m: "unat m \<le> 4000" "unat nd \<le> 16" using assms by (simp_all add: word_le_nat_alt)
  then have "unat m div 8 + unat nd + 1 \<le> 517" by linarith
  with m show "unat (response_bytesLength nd fc m) < 2 ^ 63"
    by (auto simp add: response_bytesLength_def unat_word_ariths)
qed

lemma GenerateReadMessage_fields:
  assumes "GenerateReadMessage model slave code s m vps ml = Some df"
  shows "df_StartAddress df = s \<and> df_MaxDataSize df = m \<and> df_Variables df = vps \<and>
    df_FunctionCode df = code \<and> df_Slave df = slave \<and> df_MemoryLayout df = ml"
  using assms
  by (auto simp: GenerateReadMessage_def ModbusTcp_GenerateReadMessage_def ModbusRtu_GenerateReadMessage_def
      ModbusRtuOverTcp_eq Let_def bind_eq_Some_conv split: if_splits)

lemma GenerateReadMessage_total:
  assumes "StringToModbusModel model \<noteq> None" "m \<le> 4000"
  shows "GenerateReadMessage model slave code s m vps ml \<noteq> None"
proof -
  have "0 \<le> sint (response_bytesLength 9 code m)" "0 \<le> sint (response_bytesLength 5 code m)"
    using assms(2) by (simp_all add: response_bytesLength_small)
  moreover have "model \<in> {''modbusTcp'', ''modbusRtu'', ''modbusRtuOverTcp''}"
    using assms(1) by (auto simp: StringToModbusModel_def split: if_splits)
  ultimately show ?thesis
    by (auto simp: GenerateReadMessage_def ModbusTcp_frame ModbusRtu_frame ModbusRtuOverTcp_eq)
qed

lemma known_models:
  "StringToModbusModel ''modbusTcp'' \<noteq> None" "StringToModbusModel ''modbusRtu'' \<noteq> None"
  "StringToModbusModel ''modbusRtuOverTcp'' \<noteq> None"
  by (simp_all add: StringToModbusModel_def)

interpretation tcp_frames: frame_generator
  "\<lambda>s m vps. GenerateReadMessage ''modbusTcp'' slave code s m vps ml" for slave code ml
  by unfold_locales (use GenerateReadMessage_fields GenerateReadMessage_total known_models in blast)+

interpretation rtu_frames: frame_generator
  "\<lambda>s m vps. GenerateReadMessage ''modbusRtu'' slave code s m vps ml" for slave code ml
  by unfold_locales (use GenerateReadMessage_fields GenerateReadMessage_total known_models in blast)+

interpretation rtu_over_tcp_frames: frame_generator
  "\<lambda>s m vps. GenerateReadMessage ''modbusRtuOverTcp'' slave code s m vps ml" for slave code ml
  by unfold_locales (use GenerateReadMessage_fields GenerateReadMessage_total known_models in blast)+

section \<open>The plan covers the variables\<close>

definition is_coil_code :: "byte \<Rightarrow> bool" where
  "is_coil_code code = (code = ReadCoilStatus \<or> code = ReadInputStatus)"

definition is_register_code :: "byte \<Rightarrow> bool" where
  "is_register_code code = (code = ReadHoldRegister \<or> code = ReadInputRegister)"

text \<open>How many coils or registers a variable takes, and how many payload bytes stand for one.\<close>

definition var_width :: "byte \<Rightarrow> ModbusVariable \<Rightarrow> nat" where
  "var_width code v = (if is_coil_code code then 1 else unat (DataTypeWord (mv_DataType v)))"

definition cell_bytes :: "byte \<Rightarrow> nat" where
  "cell_bytes code = (if is_coil_code code then 1 else 2)"

definition max_cells :: "byte \<Rightarrow> nat" where
  "max_cells code = (if is_coil_code code then 1984 else 123)"

text \<open>A frame covers its variables: each lies in the range the frame asks for, and its start is the
  position of its first cell in the payload.\<close>

definition frame_covers :: "byte \<Rightarrow> ModBusDataFrame \<Rightarrow> bool" where
  "frame_covers code df =
     (\<forall>vp \<in> set (df_Variables df). let v = vp_Variable vp in
        unat (df_StartAddress df) \<le> unat (mv_Address v) \<and>
        unat (mv_Address v) + var_width code v \<le> unat (df_StartAddress df) + unat (df_MaxDataSize df) \<and>
        unat (vp_Start vp) = cell_bytes code * (unat (mv_Address v) - unat (df_StartAddress df)))"

lemma DataTypeWord_range: "1 \<le> unat (DataTypeWord dt) \<and> unat (DataTypeWord dt) \<le> 4"
  by (cases dt) simp_all

definition loop_plan ::
  "byte \<Rightarrow> (uint \<Rightarrow> uint \<Rightarrow> VariableParse list \<Rightarrow> ModBusDataFrame option) \<Rightarrow> ModbusVariable list \<Rightarrow> uint \<Rightarrow>
   (ModBusDataFrame list \<times> VariableParse list \<times> uint \<times> uint) option" where
  "loop_plan code = (if is_coil_code code then plan_coils else plan_registers)"

lemma sorted_wrt_member:
  "sorted_wrt P (concat xss) \<Longrightarrow> xs \<in> set xss \<Longrightarrow> sorted_wrt P xs"
  by (induction xss) (auto simp: sorted_wrt_append)

lemma sorted_wrt_last: "sorted_wrt P xs \<Longrightarrow> x \<in> set xs \<Longrightarrow> x = last xs \<or> P x (last xs)"
  by (induction xs) auto

text \<open>The arithmetic of one placed variable, free of wrap-around.\<close>

lemma unat_minus: "s \<le> (a :: uint) \<Longrightarrow> unat (a - s) = unat a - unat s"
  by (simp add: unat_sub word_le_nat_alt)

lemma unat_plus_small: "unat (a :: uint) + unat b < 2 ^ 64 \<Longrightarrow> unat (a + b) = unat a + unat b"
  by (simp add: unat_word_ariths)

lemma coil_place:
  assumes "s \<le> mv_Address v" "unat (mv_Address v) < 2 ^ 63" "coil_fits v (s + 1983)"
  shows "unat (mv_Address v) \<le> unat s + 1983"
    and "unat (coil_offset v s) = unat (mv_Address v) - unat s"
    and "unat (coil_extent v s) = unat (mv_Address v) - unat s + 1"
proof -
  have s: "unat s \<le> unat (mv_Address v)" using assms(1) by (simp add: word_le_nat_alt)
  then have "unat (s + 1983) = unat s + 1983" using assms(2) by (subst unat_plus_small) simp_all
  with assms(3) show "unat (mv_Address v) \<le> unat s + 1983"
    by (simp add: coil_fits_def word_le_nat_alt)
  show off: "unat (coil_offset v s) = unat (mv_Address v) - unat s"
    using assms(1) by (simp add: coil_offset_def unat_minus)
  then show "unat (coil_extent v s) = unat (mv_Address v) - unat s + 1"
    using assms(2) by (simp add: coil_extent_def coil_offset_def) (subst unat_plus_small, simp_all)
qed

lemma register_place:
  assumes "s \<le> mv_Address v" "unat (mv_Address v) < 2 ^ 63" "register_fits v (s + 123)"
  shows "unat (mv_Address v) + unat (DataTypeWord (mv_DataType v)) \<le> unat s + 123"
    and "unat (register_offset v s) = 2 * (unat (mv_Address v) - unat s)"
    and "unat (register_extent v s) = unat (mv_Address v) - unat s + unat (DataTypeWord (mv_DataType v))"
proof -
  note w = DataTypeWord_range [of "mv_DataType v"]
  have s: "unat s \<le> unat (mv_Address v)" using assms(1) by (simp add: word_le_nat_alt)
  then have "unat (s + 123) = unat s + 123" using assms(2) by (subst unat_plus_small) simp_all
  moreover have "unat (mv_Address v + DataTypeWord (mv_DataType v)) =
      unat (mv_Address v) + unat (DataTypeWord (mv_DataType v))"
    using assms(2) w by (intro unat_plus_small) simp
  ultimately show le: "unat (mv_Address v) + unat (DataTypeWord (mv_DataType v)) \<le> unat s + 123"
    using assms(3) by (simp add: register_fits_def word_le_nat_alt)
  have d: "unat (mv_Address v - s) = unat (mv_Address v) - unat s" using assms(1) by (rule unat_minus)
  show "unat (register_offset v s) = 2 * (unat (mv_Address v) - unat s)"
    unfolding register_offset_def using le s by (subst unat_word_ariths(2)) (simp add: d)
  show "unat (register_extent v s) = unat (mv_Address v) - unat s + unat (DataTypeWord (mv_DataType v))"
    using d w assms(2) unfolding register_extent_def by (subst unat_plus_small) auto
qed

text \<open>No variable ends after a variable that starts at or after it: then the last variable of a frame
  reaches furthest, and the size of the frame, which is the extent of the last one, is enough.\<close>

definition ends_ordered :: "byte \<Rightarrow> ModbusVariable list \<Rightarrow> bool" where
  "ends_ordered code vs =
     (\<forall>v \<in> set vs. \<forall>w \<in> set vs. mv_Address v \<le> mv_Address w \<longrightarrow>
        unat (mv_Address v) + var_width code v \<le> unat (mv_Address w) + var_width code w)"

lemma last_vars: "vps \<noteq> [] \<Longrightarrow> vp_Variable (last vps) = last (map vp_Variable vps)"
  by (simp add: last_map)

lemma frame_covers_if_placed:
  assumes placed: "frame_placed fits offset extent limit df"
    and place: "\<And>v. v \<in> set (frame_vars df) \<Longrightarrow> df_StartAddress df \<le> mv_Address v \<Longrightarrow>
      fits v (df_StartAddress df + limit) \<Longrightarrow>
      unat (mv_Address v) + var_width code v \<le> unat (df_StartAddress df) + n \<and>
      unat (offset v (df_StartAddress df)) = cell_bytes code * (unat (mv_Address v) - unat (df_StartAddress df)) \<and>
      unat (extent v (df_StartAddress df)) = unat (mv_Address v) - unat (df_StartAddress df) + var_width code v"
    and sorted: "by_address (frame_vars df)" and ends: "ends_ordered code (frame_vars df)"
  shows "frame_covers code df \<and> unat (df_MaxDataSize df) \<le> n"
proof (cases "df_Variables df = []")
  case True
  with placed show ?thesis by (simp add: frame_covers_def frame_placed_def placed_def)
next
  case False
  let ?s = "df_StartAddress df" and ?l = "last (frame_vars df)"
  have here: "unat ?s \<le> unat (mv_Address v)" "unat (mv_Address v) + var_width code v \<le> unat ?s + n"
    "unat (offset v ?s) = cell_bytes code * (unat (mv_Address v) - unat ?s)"
    "unat (extent v ?s) = unat (mv_Address v) - unat ?s + var_width code v"
    if "v \<in> set (frame_vars df)" for v
    using that placed place [OF that] by (auto simp: frame_placed_def placed_def frame_vars_def word_le_nat_alt)
  have l: "?l \<in> set (frame_vars df)" using False unfolding frame_vars_def by (intro last_in_set) simp
  have m: "df_MaxDataSize df = extent ?l ?s"
    using placed False by (simp add: frame_placed_def placed_def frame_vars_def last_map)
  have reach: "unat (mv_Address v) + var_width code v \<le> unat (mv_Address ?l) + var_width code ?l"
    if "v \<in> set (frame_vars df)" for v
    using sorted_wrt_last [OF sorted that] ends that l by (auto simp: ends_ordered_def)
  have "unat (mv_Address v) + var_width code v \<le> unat ?s + unat (df_MaxDataSize df)"
    if "v \<in> set (frame_vars df)" for v
    using reach [OF that] here [OF l] by (simp add: m)
  moreover have "vp_Start vp = offset (vp_Variable vp) ?s" if "vp \<in> set (df_Variables df)" for vp
    using that placed by (simp add: frame_placed_def placed_def)
  ultimately show ?thesis
    using here [OF l] here by (auto simp: frame_covers_def Let_def m frame_vars_def)
qed

lemma coil_frame_covers:
  assumes placed: "frame_placed coil_fits coil_offset coil_extent PerRequestMaxCoil df"
    and code: "is_coil_code code"
    and "by_address (frame_vars df)" "ends_ordered code (frame_vars df)"
    and small: "\<forall>v \<in> set (frame_vars df). unat (mv_Address v) < 2 ^ 63"
  shows "frame_covers code df \<and> unat (df_MaxDataSize df) \<le> max_cells code"
proof (rule frame_covers_if_placed [OF placed])
  fix v assume "v \<in> set (frame_vars df)" "df_StartAddress df \<le> mv_Address v"
    "coil_fits v (df_StartAddress df + PerRequestMaxCoil)"
  then show "unat (mv_Address v) + var_width code v \<le> unat (df_StartAddress df) + max_cells code \<and>
    unat (coil_offset v (df_StartAddress df)) =
      cell_bytes code * (unat (mv_Address v) - unat (df_StartAddress df)) \<and>
    unat (coil_extent v (df_StartAddress df)) =
      unat (mv_Address v) - unat (df_StartAddress df) + var_width code v"
    using small code coil_place [of "df_StartAddress df" v]
    by (simp add: var_width_def cell_bytes_def max_cells_def)
qed fact+

lemma register_frame_covers:
  assumes placed: "frame_placed register_fits register_offset register_extent PerRequestMaxRegister df"
    and code: "\<not> is_coil_code code"
    and "by_address (frame_vars df)" "ends_ordered code (frame_vars df)"
    and small: "\<forall>v \<in> set (frame_vars df). unat (mv_Address v) < 2 ^ 63"
  shows "frame_covers code df \<and> unat (df_MaxDataSize df) \<le> max_cells code"
proof (rule frame_covers_if_placed [OF placed])
  fix v assume "v \<in> set (frame_vars df)" "df_StartAddress df \<le> mv_Address v"
    "register_fits v (df_StartAddress df + PerRequestMaxRegister)"
  then show "unat (mv_Address v) + var_width code v \<le> unat (df_StartAddress df) + max_cells code \<and>
    unat (register_offset v (df_StartAddress df)) =
      cell_bytes code * (unat (mv_Address v) - unat (df_StartAddress df)) \<and>
    unat (register_extent v (df_StartAddress df)) =
      unat (mv_Address v) - unat (df_StartAddress df) + var_width code v"
    using small code register_place [of "df_StartAddress df" v]
    by (simp add: var_width_def cell_bytes_def max_cells_def)
qed fact+

text \<open>A variable always fits a frame that starts at it, and the size of a frame stays small: this is
  why the loop ends.\<close>

lemma coil_fresh: "unat (mv_Address v) < 2 ^ 63 \<Longrightarrow> coil_fits v (mv_Address v + 1983)"
  unfolding coil_fits_def word_le_nat_alt by (subst unat_plus_small) simp_all

lemma register_fresh: "unat (mv_Address v) < 2 ^ 63 \<Longrightarrow> register_fits v (mv_Address v + 123)"
  using DataTypeWord_range [of "mv_DataType v"]
  unfolding register_fits_def word_le_nat_alt by (subst (1 2) unat_plus_small) simp_all

lemma coil_small:
  "t \<le> mv_Address v \<Longrightarrow> unat (mv_Address v) < 2 ^ 63 \<Longrightarrow> coil_fits v (t + 1983) \<Longrightarrow> coil_extent v t \<le> 4000"
  using coil_place [of t v] by (simp add: word_le_nat_alt)

lemma register_small:
  "t \<le> mv_Address v \<Longrightarrow> unat (mv_Address v) < 2 ^ 63 \<Longrightarrow> register_fits v (t + 123) \<Longrightarrow> register_extent v t \<le> 4000"
  using register_place [of t v] by (simp add: word_le_nat_alt)

context frame_generator
begin

lemma loop_generated:
  assumes "plan_loop fits offset extent limit gen vs s lim m vps dfs = Some r"
    and "\<forall>df \<in> set dfs. \<exists>s m vps. gen s m vps = Some df"
  shows "\<forall>df \<in> set (fst r). \<exists>s m vps. gen s m vps = Some df"
  using assms by (induction rule: plan_loop_induct) auto

text \<open>The whole of one function code, for a sorted list of variables.\<close>

lemma plan_frames_covers:
  assumes code: "is_coil_code code \<or> is_register_code code" and sorted: "by_address vs"
    and start: "\<forall>v \<in> set vs. s \<le> mv_Address v" and small: "\<forall>v \<in> set vs. unat (mv_Address v) < 2 ^ 63"
    and ends: "ends_ordered code vs"
  shows "\<exists>dfs. plan_frames gen code vs s = Some dfs \<and> concat (map frame_vars dfs) = vs \<and>
    (\<forall>df \<in> set dfs. frame_covers code df \<and> unat (df_MaxDataSize df) \<le> max_cells code \<and>
      (\<exists>s m vps. gen s m vps = Some df) \<and> (vs \<noteq> [] \<and> s = mv_Address (hd vs) \<longrightarrow> df_Variables df \<noteq> []))"
proof -
  define fits where "fits = (if is_coil_code code then coil_fits else register_fits)"
  define offset where "offset = (if is_coil_code code then coil_offset else register_offset)"
  define extent where "extent = (if is_coil_code code then coil_extent else register_extent)"
  define limit where "limit = (if is_coil_code code then PerRequestMaxCoil else PerRequestMaxRegister)"
  have run: "plan_frames gen code vs s =
     do { (dfs, vps, start, m) \<leftarrow> plan_loop fits offset extent limit gen vs s (s + limit) 0 [] [];
          (if vps \<noteq> [] then do { df \<leftarrow> gen start m vps; Some (dfs @ [df]) } else Some dfs) }"
    using code unfolding plan_frames_def fits_def offset_def extent_def limit_def
    by (auto simp: plan_coils_def plan_registers_def is_coil_code_def is_register_code_def)
  have fresh: "\<forall>v \<in> set vs. fits v (mv_Address v + limit)"
    using small by (simp add: fits_def limit_def coil_fresh register_fresh)
  have "\<exists>r. plan_loop fits offset extent limit gen vs s (s + limit) 0 [] [] = Some r"
  proof (rule loop_total [OF sorted start])
    show "\<forall>v \<in> set vs. fits v (mv_Address v + limit)" by (rule fresh)
    fix v t assume "v \<in> set vs" "t \<le> mv_Address v" "fits v (t + limit)"
    with small show "extent v t \<le> 4000"
      by (auto simp: fits_def limit_def extent_def coil_small register_small split: if_splits)
  qed simp_all
  then obtain dfs vps t m where
    loop: "plan_loop fits offset extent limit gen vs s (s + limit) 0 [] [] = Some (dfs, vps, t, m)" by force
  have keep: "concat (map frame_vars dfs) @ map vp_Variable vps = vs"
    using loop_keeps_variables [OF loop] by simp
  have placed: "\<forall>df \<in> set dfs. frame_placed fits offset extent limit df" "placed fits offset extent limit t m vps"
    using loop_placed [OF loop sorted start] by (simp_all add: placed_Nil)
  have m: "m \<le> 4000"
  proof (cases "vps = []")
    case False
    then have "vp_Variable (last vps) \<in> set vs" unfolding keep [symmetric] by simp
    with False placed(2) small show ?thesis
      by (auto simp: placed_def fits_def limit_def extent_def coil_small register_small split: if_splits)
  qed (use placed(2) in \<open>simp add: placed_def\<close>)
  have covers: "frame_covers code df \<and> unat (df_MaxDataSize df) \<le> max_cells code"
    if "frame_placed fits offset extent limit df" "sorted_wrt (\<lambda>v w. mv_Address v \<le> mv_Address w) (frame_vars df)"
      "set (frame_vars df) \<subseteq> set vs" for df
  proof -
    have "ends_ordered code (frame_vars df)" "\<forall>v \<in> set (frame_vars df). unat (mv_Address v) < 2 ^ 63"
      using ends small that(3) by (auto simp: ends_ordered_def)
    with that show ?thesis
      by (cases "is_coil_code code")
         (simp_all add: coil_frame_covers register_frame_covers fits_def offset_def extent_def limit_def)
  qed
  define all where "all = dfs @ (if vps \<noteq> [] then [the (gen t m vps)] else [])"
  obtain df where df: "gen t m vps = Some df" using gen_total [OF m] by blast
  have "plan_frames gen code vs s = Some all"
    by (simp add: run loop all_def df)
  moreover have vars: "concat (map frame_vars all) = vs"
    using keep by (auto simp: all_def df gen_vars [OF df])
  moreover have "\<exists>s m vps. gen s m vps = Some d" if "d \<in> set all" for d
  proof -
    have "\<forall>df \<in> set dfs. \<exists>s m vps. gen s m vps = Some df" using loop_generated [OF loop] by simp
    moreover have "d \<in> set dfs \<or> d = df" using that by (auto simp: all_def df split: if_splits)
    ultimately show ?thesis using df by blast
  qed
  moreover have "vs \<noteq> [] \<and> s = mv_Address (hd vs) \<longrightarrow> df_Variables d \<noteq> []" if "d \<in> set all" for d
  proof
    assume "vs \<noteq> [] \<and> s = mv_Address (hd vs)"
    then have "vs = [] \<or> fits (hd vs) (s + limit)" using fresh by simp
    then have "\<forall>df \<in> set dfs. df_Variables df \<noteq> []" using loop_nonempty [OF loop fresh] by simp
    moreover have "d \<in> set dfs \<or> d = df \<and> vps \<noteq> []" using that by (auto simp: all_def df split: if_splits)
    ultimately show "df_Variables d \<noteq> []" using gen_variables [OF df] by blast
  qed
  moreover have "frame_covers code d \<and> unat (df_MaxDataSize d) \<le> max_cells code" if "d \<in> set all" for d
  proof (rule covers)
    show "frame_placed fits offset extent limit d"
      using that placed by (auto simp: all_def df gen_placed [OF df] split: if_splits)
    show "by_address (frame_vars d)"
    proof (rule sorted_wrt_member)
      show "by_address (concat (map frame_vars all))" using sorted by (simp only: vars)
      show "frame_vars d \<in> set (map frame_vars all)" using that by simp
    qed
    show "set (frame_vars d) \<subseteq> set vs" using that by (auto simp: vars [symmetric])
  qed
  ultimately show ?thesis by (intro exI [of _ all] conjI ballI) blast+
qed

end

text \<open>What \<^verbatim>\<open>sort.Sort\<close> guarantees of its result.\<close>

definition sorts_by_address :: "(ModbusVariable list \<Rightarrow> ModbusVariable list) \<Rightarrow> bool" where
  "sorts_by_address srt =
     (\<forall>vs. mset (srt vs) = mset vs \<and> sorted_wrt (\<lambda>v w. \<not> VariableSlice_Less w v) (srt vs))"

lemma sorts_by_address_sort_key: "sorts_by_address (sort_key mv_Address)"
proof -
  have "sorted_wrt (\<lambda>v w. \<not> VariableSlice_Less w v) (sort_key mv_Address vs)" for vs
    using sorted_sort_key [of mv_Address vs]
    by (simp add: VariableSlice_Less_def sorted_map not_less)
  then show ?thesis by (simp add: sorts_by_address_def)
qed

definition variables_of :: "ModBusDevice \<Rightarrow> byte \<Rightarrow> ModbusVariable list" where
  "variables_of device code = filter (\<lambda>v. mv_FunctionCode v = code) (md_Variables device)"

lemma known_model_cases:
  assumes "StringToModbusModel model \<noteq> None"
  obtains "model = ''modbusTcp''" | "model = ''modbusRtu''" | "model = ''modbusRtuOverTcp''"
  using assms by (auto simp: StringToModbusModel_def split: if_splits)

lemma plan_code_frames:
  assumes model: "StringToModbusModel (modbus_device_model device) \<noteq> None"
    and code: "is_coil_code code \<or> is_register_code code"
    and vars: "variables_of device code \<noteq> []"
    and srt: "sorts_by_address srt"
    and small: "\<forall>v \<in> set (variables_of device code). unat (mv_Address v) < 2 ^ 63"
    and position: "\<forall>v \<in> set (variables_of device code). md_PositionAddress device \<le> mv_Address v"
    and ends: "ends_ordered code (variables_of device code)"
  shows "\<exists>dfs. plan_code srt device code = Some dfs \<and>
    mset (concat (map frame_vars dfs)) = mset (variables_of device code) \<and>
    (\<forall>df \<in> set dfs. frame_covers code df \<and> unat (df_MaxDataSize df) \<le> max_cells code \<and>
       (\<exists>s m vps. GenerateReadMessage (modbus_device_model device) (md_Slave device) code s m vps
          (md_MemoryLayout device) = Some df) \<and>
       (md_PositionAddress device = 0 \<longrightarrow> df_Variables df \<noteq> []))"
proof -
  define vs where "vs = srt (variables_of device code)"
  define s where "s = mv_Address (hd vs) - md_PositionAddress device"
  have perm: "mset vs = mset (variables_of device code)" and sorted: "by_address vs"
    using srt by (auto simp: sorts_by_address_def vs_def VariableSlice_Less_def not_less)
  have set: "set vs = set (variables_of device code)" using perm by (rule mset_eq_setD)
  then have ne: "vs \<noteq> []" using vars by auto
  have "s \<le> mv_Address (hd vs)"
    using position set ne unfolding s_def by (intro word_sub_le) auto
  moreover have "mv_Address (hd vs) \<le> mv_Address v" if "v \<in> set vs" for v
    using sorted that ne by (cases vs) auto
  ultimately have start: "\<forall>v \<in> set vs. s \<le> mv_Address v" by (meson order.trans)
  have run: "plan_code srt device code = plan_frames
      (\<lambda>start m vps. GenerateReadMessage (modbus_device_model device) (md_Slave device) code start m vps
        (md_MemoryLayout device)) code vs s"
    using ne by (simp add: plan_code_def vs_def [symmetric, unfolded variables_of_def] index_at_def s_def hd_conv_nth)
  have "\<forall>v \<in> set vs. unat (mv_Address v) < 2 ^ 63" "ends_ordered code vs"
    using small ends set by (auto simp: ends_ordered_def)
  note prems = code sorted start this
  let ?gen = "\<lambda>model start m vps. GenerateReadMessage model (md_Slave device) code start m vps (md_MemoryLayout device)"
  have "\<exists>dfs. plan_frames (?gen (modbus_device_model device)) code vs s = Some dfs \<and>
    concat (map frame_vars dfs) = vs \<and>
    (\<forall>df \<in> set dfs. frame_covers code df \<and> unat (df_MaxDataSize df) \<le> max_cells code \<and>
      (\<exists>s m vps. ?gen (modbus_device_model device) s m vps = Some df) \<and>
      (vs \<noteq> [] \<and> s = mv_Address (hd vs) \<longrightarrow> df_Variables df \<noteq> []))"
    using model
  proof (cases rule: known_model_cases)
    case 1
    show ?thesis unfolding 1 by (rule tcp_frames.plan_frames_covers [OF prems])
  next
    case 2
    show ?thesis unfolding 2 by (rule rtu_frames.plan_frames_covers [OF prems])
  next
    case 3
    show ?thesis unfolding 3 by (rule rtu_over_tcp_frames.plan_frames_covers [OF prems])
  qed
  then show ?thesis unfolding run by (elim exE conjE) (intro exI conjI, auto simp: perm ne s_def)
qed


section \<open>Example and limits of the plan\<close>

definition example_variable :: "string \<Rightarrow> DataType \<Rightarrow> byte \<Rightarrow> uint \<Rightarrow> ModbusVariable" where
  "example_variable name dt code address =
     \<lparr>mv_DataType = dt, mv_Name = name, mv_Address = address, mv_Bits = 1, mv_FunctionCode = code,
      mv_Rate = f64_zero, mv_Amount = 0, mv_DefaultValue = VNil, mv_Value = VNil,
      mv_AccessMode = AccessModeReadWrite\<rparr>"

definition example_modbus_device :: "string \<Rightarrow> uint \<Rightarrow> ModbusVariable list \<Rightarrow> ModBusDevice" where
  "example_modbus_device model position variables =
     ModBus_IndexDevice
     \<lparr>md_DeviceMeta = \<lparr>dm_ObjectMeta = \<lparr>om_Name = ''pump'', om_ID = ''d1'', om_Version = ''1'', om_ModTime = 0\<rparr>,
        dm_PublishMeta = \<lparr>pm_Topic = []\<rparr>, dm_DeviceCode = ''c'', dm_DeviceType = ''modbus'',
        dm_DeviceModel = model, dm_CollectStatus = ''stopped''\<rparr>,
      md_CollectorCycle = 1, md_VariableInterval = 0,
      md_Address = \<lparr>ma_Location = ''localhost'', ma_Option = \<lparr>mo_Port = 502, mo_BaudRate = 0,
        mo_DataBits = 0, mo_Parity = NoParity, mo_StopBits = OneStopBit\<rparr>\<rparr>,
      md_Slave = 1, md_MemoryLayout = ABCD, md_PositionAddress = position,
      md_Variables = variables, md_VariablesMap = (\<lambda>_. None)\<rparr>"

definition plan_example :: ModBusDevice where
  "plan_example = example_modbus_device ''modbusTcp'' 0
     [example_variable ''level'' INT32 3 210, example_variable ''mode'' UINT16 3 5,
      example_variable ''flow'' FLOAT64 3 100]"

lemmas example_simps = example_modbus_device_def example_variable_def ModBus_IndexDevice_def
  modbus_device_model_def

lemma plan_example_fields:
  "md_Variables plan_example = [example_variable ''level'' INT32 3 210, example_variable ''mode'' UINT16 3 5,
      example_variable ''flow'' FLOAT64 3 100]"
  "variables_of plan_example 3 = md_Variables plan_example"
  "modbus_device_model plan_example = ''modbusTcp''"
  "md_PositionAddress plan_example = 0"
  unfolding variables_of_def plan_example_def by (simp_all add: example_simps)


lemma plan_loop_Nil: "plan_loop fits offset extent limit gen [] s lim m vps dfs = Some (dfs, vps, s, m)"
  by (subst plan_loop.simps) simp

lemma plan_loop_fit:
  "fits v lim \<Longrightarrow> plan_loop fits offset extent limit gen (v # vs) s lim m vps dfs =
   plan_loop fits offset extent limit gen vs s lim (extent v s)
     (vps @ [\<lparr>vp_Variable = v, vp_Start = offset v s\<rparr>]) dfs"
  by (subst plan_loop.simps) simp

lemma plan_loop_emit:
  "\<not> fits v lim \<Longrightarrow> plan_loop fits offset extent limit gen (v # vs) s lim m vps dfs =
   Option.bind (gen s m vps) (\<lambda>df. plan_loop fits offset extent limit gen (v # vs) (mv_Address v)
     (mv_Address v + limit) 0 [] (dfs @ [df]))"
  by (subst plan_loop.simps) simp

lemma sorts_pair:
  assumes "sorts_by_address srt" "mv_Address v < mv_Address w"
  shows "srt [v, w] = [v, w]"
proof -
  have m: "mset (srt [v, w]) = mset [v, w]" and s: "by_address (srt [v, w])"
    using assms(1) by (auto simp: sorts_by_address_def VariableSlice_Less_def not_less)
  from m have "length (srt [v, w]) = 2" using mset_eq_length by fastforce
  then obtain x y where xy: "srt [v, w] = [x, y]" by (auto simp: length_eq_2_conv)
  with m have "{x, y} = {v, w}" using mset_eq_setD [OF m] by simp
  then have "x = v \<and> y = w \<or> x = w \<and> y = v" using assms(2) by (auto simp: doubleton_eq_iff)
  with s assms(2) xy show ?thesis by auto
qed

text \<open>Where a variable reaches beyond one that starts later, the frame is too short: an \<open>INT64\<close> at \<open>a\<close> and
  an \<open>INT16\<close> at \<open>a + 1\<close> are packed into a frame that asks for two registers.\<close>

theorem nested_variables_short_frame:
  assumes vars: "variables_of device 3 = [v, w]"
    and v: "mv_DataType v = INT64" and w: "mv_DataType w = INT16" "mv_Address w = mv_Address v + 1"
    and small: "unat (mv_Address v) < 2 ^ 63" and position: "md_PositionAddress device = 0"
    and model: "StringToModbusModel (modbus_device_model device) \<noteq> None" and srt: "sorts_by_address srt"
  shows "\<exists>df. plan_code srt device 3 = Some [df] \<and> df_MaxDataSize df = 2 \<and> frame_vars df = [v, w] \<and>
    \<not> frame_covers 3 df"
proof -
  let ?gen = "\<lambda>s m vps. GenerateReadMessage (modbus_device_model device) (md_Slave device) 3 s m vps (md_MemoryLayout device)"
  let ?a = "mv_Address v"
  let ?vps = "[\<lparr>vp_Variable = v, vp_Start = 0\<rparr>, \<lparr>vp_Variable = w, vp_Start = 2\<rparr>]"
  have a1: "unat (?a + 1) = unat ?a + 1" and a2: "unat (?a + 2) = unat ?a + 2"
    and a4: "unat (?a + 4) = unat ?a + 4" and a123: "unat (?a + 123) = unat ?a + 123"
    using small by (subst unat_plus_small; simp)+
  have lt: "mv_Address v < mv_Address w" using a1 w by (simp add: word_less_nat_alt)
  obtain df where df: "?gen ?a 2 ?vps = Some df"
    using GenerateReadMessage_total [OF model, of 2] by fastforce
  have "plan_code srt device 3 = plan_frames ?gen 3 [v, w] ?a"
    using sorts_pair [OF srt lt] position vars
    by (simp add: plan_code_def variables_of_def index_at_def)
  also have "\<dots> = Some [df]"
    using v w df a1 a2 a4 a123
    by (simp add: plan_frames_def plan_registers_def plan_loop_fit plan_loop_Nil register_fits_def
        register_offset_def register_extent_def word_le_nat_alt add.assoc)
  finally show ?thesis
    using GenerateReadMessage_fields [OF df] v
    by (simp add: frame_vars_def frame_covers_def var_width_def is_coil_code_def)
qed

definition nested_example :: ModBusDevice where
  "nested_example = example_modbus_device ''modbusRtu'' 0
     [example_variable ''total'' INT64 3 100, example_variable ''low'' INT16 3 101]"

lemma nested_variables_short_frame_witness:
  "\<exists>df. plan_code (sort_key mv_Address) nested_example 3 = Some [df] \<and> df_MaxDataSize df = 2 \<and>
     \<not> frame_covers 3 df"
proof -
  have vs: "variables_of nested_example 3 = [example_variable ''total'' INT64 3 100, example_variable ''low'' INT16 3 101]"
    unfolding variables_of_def nested_example_def by (simp add: example_simps)
  have model: "modbus_device_model nested_example = ''modbusRtu''" and position: "md_PositionAddress nested_example = 0"
    unfolding nested_example_def by (simp_all add: example_simps)
  show ?thesis
    using nested_variables_short_frame [OF vs _ _ _ _ position _ sorts_by_address_sort_key] known_models
    by (simp add: model) (auto simp: example_variable_def)
qed

text \<open>A position address equal to the address of a device's only register variable, beyond the
  first 122 registers, makes the plan start with a request for no registers at all; a Modbus
  server answers it with an exception, so every collection round reports an error.\<close>

theorem position_address_empty_request:
  assumes vars: "variables_of device 3 = [v]" and position: "md_PositionAddress device = mv_Address v"
    and far: "123 \<le> unat (mv_Address v)" and small: "unat (mv_Address v) < 2 ^ 63"
    and model: "StringToModbusModel (modbus_device_model device) \<noteq> None" and srt: "sorts_by_address srt"
  shows "\<exists>df df'. plan_code srt device 3 = Some [df, df'] \<and>
    df_StartAddress df = 0 \<and> df_MaxDataSize df = 0 \<and> df_Variables df = [] \<and> frame_vars df' = [v]"
proof -
  let ?gen = "\<lambda>s m vps. GenerateReadMessage (modbus_device_model device) (md_Slave device) 3 s m vps (md_MemoryLayout device)"
  let ?a = "mv_Address v" and ?w = "DataTypeWord (mv_DataType v)"
  have w: "1 \<le> unat ?w" "unat ?w \<le> 4" using DataTypeWord_range [of "mv_DataType v"] by simp_all
  have a: "unat (?a + ?w) = unat ?a + unat ?w" "unat (?a + 123) = unat ?a + 123"
    using small w by (subst unat_plus_small; simp)+
  have "mset (srt [v]) = mset [v]" using srt by (auto simp: sorts_by_address_def)
  then have one: "srt [v] = [v]" by simp
  obtain df where df: "?gen 0 0 [] = Some df" using GenerateReadMessage_total [OF model, of 0] by fastforce
  have "?w \<le> 4000" using w by (simp add: word_le_nat_alt)
  then obtain df' where df': "?gen ?a ?w [\<lparr>vp_Variable = v, vp_Start = 0\<rparr>] = Some df'"
    using GenerateReadMessage_total [OF model, of ?w] by fastforce
  have "plan_code srt device 3 = plan_frames ?gen 3 [v] 0"
    using position vars by (simp add: plan_code_def variables_of_def index_at_def one)
  also have "\<dots> = Some [df, df']"
  proof -
    have "\<not> register_fits v 123" using a far w by (simp add: register_fits_def word_le_nat_alt)
    moreover have "register_fits v (?a + 123)" using small by (rule register_fresh)
    ultimately show ?thesis
      using df df' by (simp add: plan_frames_def plan_registers_def plan_loop_emit plan_loop_fit plan_loop_Nil
          register_offset_def register_extent_def)
  qed
  finally show ?thesis
    using GenerateReadMessage_fields [OF df] GenerateReadMessage_fields [OF df'] by (simp add: frame_vars_def)
qed

definition position_example :: ModBusDevice where
  "position_example = example_modbus_device ''modbusTcp'' 40001 [example_variable ''level'' INT16 3 40001]"

lemma position_address_empty_request_witness:
  "\<exists>df df'. plan_code (sort_key mv_Address) position_example 3 = Some [df, df'] \<and>
     df_MaxDataSize df = 0 \<and> df_Variables df = []"
proof -
  have vs: "variables_of position_example 3 = [example_variable ''level'' INT16 3 40001]"
    unfolding variables_of_def position_example_def by (simp add: example_simps)
  have model: "modbus_device_model position_example = ''modbusTcp''"
    and position: "md_PositionAddress position_example = 40001"
    unfolding position_example_def by (simp_all add: example_simps)
  show ?thesis
    using position_address_empty_request [OF vs _ _ _ _ sorts_by_address_sort_key] known_models
    by (simp add: model position) (auto simp: example_variable_def)
qed

end
