(* ===== verification/ModbusIO.thy ===== *)
theory ModbusIO
  imports ModbusTypes
begin

text \<open>
  Model of the messengers of \<^verbatim>\<open>pkg/protocol/modbus/runtime/clients.go\<close>: one request and one response on
  a TCP tunnel or a serial port. What the peer sends is a list of the portions that successive
  reads return; a fault, or the end of the list, is a read error such as the deadline. The
  response is written into the caller's buffer, so a partial response leaves the rest of the
  buffer as it was.
\<close>

section \<open>Connections\<close>

datatype io_event = Portion "byte list" | Fault

record Conn =
  cn_writeFails :: bool
  cn_deadlineFails :: bool
  cn_input :: "io_event list"
  cn_output :: "byte list list"
  cn_closed :: bool

datatype ask_error = AskBadConn | AskDeadline | AskRead | AskShortBuffer | AskNotEnough | AskPanic

text \<open>\<^verbatim>\<open>io.ReadAtLeast(r, buf, min)\<close> with \<open>n\<close> bytes read so far: a portion longer than the room that is
  left stays in the stream.\<close>

fun read_at_least :: "byte list \<Rightarrow> nat \<Rightarrow> nat \<Rightarrow> io_event list \<Rightarrow> io_event list \<times> byte list \<times> (ask_error + nat)" where
  "read_at_least buf n m [] = (if m \<le> n then ([], buf, Inr n) else ([], buf, Inl AskRead))"
| "read_at_least buf n m (ev # evs) =
     (if m \<le> n then (ev # evs, buf, Inr n)
      else case ev of
        Fault \<Rightarrow> (evs, buf, Inl AskRead)
      | Portion bs \<Rightarrow>
          let k = min (length bs) (length buf - n);
              buf' = take n buf @ take k bs @ drop (n + k) buf
          in if k < length bs
             then (if m \<le> n + k then (Portion (drop k bs) # evs, buf', Inr (n + k))
                   else (Portion (drop k bs) # evs, buf', Inl AskRead))
             else read_at_least buf' (n + k) m evs)"

definition io_ReadAtLeast :: "byte list \<Rightarrow> nat \<Rightarrow> io_event list \<Rightarrow> io_event list \<times> byte list \<times> (ask_error + nat)" where
  "io_ReadAtLeast buf m input =
     (if length buf < m then (input, buf, Inl AskShortBuffer) else read_at_least buf 0 m input)"

definition TcpClient_AskAtLeast ::
  "Conn \<Rightarrow> byte list \<Rightarrow> byte list \<Rightarrow> nat \<Rightarrow> Conn \<times> byte list \<times> (ask_error + nat)" where
  "TcpClient_AskAtLeast tc request response m =
     (if cn_writeFails tc \<or> cn_closed tc then (tc, response, Inl AskBadConn)
      else let tc = tc\<lparr>cn_output := cn_output tc @ [request]\<rparr>
           in if cn_deadlineFails tc then (tc, response, Inl AskDeadline)
              else let (input, response', res) = io_ReadAtLeast response m (cn_input tc)
                   in (tc\<lparr>cn_input := input\<rparr>, response', res))"

text \<open>The serial loop: reads of at most 256 bytes are copied one after the other into the response
  until a read returns nothing or the count reaches the length; a byte past the end of the
  response is an index panic (\<open>AskPanic\<close>), after the response has been filled.\<close>

definition io_weight :: "io_event \<Rightarrow> nat" where
  "io_weight ev = (case ev of Fault \<Rightarrow> 1 | Portion bs \<Rightarrow> Suc (length bs))"

function serial_loop :: "byte list \<Rightarrow> nat \<Rightarrow> io_event list \<Rightarrow> io_event list \<times> byte list \<times> (ask_error + nat)" where
  "serial_loop response n [] =
     ([], response, if length response = n then Inr n else Inl AskNotEnough)"
| "serial_loop response n (Fault # evs) = (evs, response, Inl AskRead)"
| "serial_loop response n (Portion bs # evs) =
     (let got = take 256 bs; n' = n + length got;
          evs' = (if 256 < length bs then Portion (drop 256 bs) # evs else evs)
      in if got = [] then (evs, response, if length response = n then Inr n else Inl AskNotEnough)
         else if length response < n' then
           (evs', take n response @ take (length response - n) got, Inl AskPanic)
         else let response' = take n response @ got @ drop n' response
              in if n' = length response then (evs', response', Inr n')
                 else serial_loop response' n' evs')"
  by pat_completeness auto
termination
  by (relation "measure (\<lambda>(_, _, evs). sum_list (map io_weight evs))") (auto simp: io_weight_def)

definition SerialClient_AskAtLeast ::
  "Conn \<Rightarrow> byte list \<Rightarrow> byte list \<Rightarrow> Conn \<times> byte list \<times> (ask_error + nat)" where
  "SerialClient_AskAtLeast sc request response =
     (if cn_writeFails sc \<or> cn_closed sc then (sc, response, Inl AskBadConn)
      else let sc = sc\<lparr>cn_output := cn_output sc @ [request]\<rparr>
           in if cn_deadlineFails sc then (sc, response, Inl AskDeadline)
              else let (input, response', res) = serial_loop response 0 (cn_input sc)
                   in (sc\<lparr>cn_input := input\<rparr>, response', res))"

text \<open>The messenger of a dialect: the serial line has its own client, the other two use the tunnel.\<close>

definition AskAtLeast ::
  "ModbusModel \<Rightarrow> Conn \<Rightarrow> byte list \<Rightarrow> byte list \<Rightarrow> nat \<Rightarrow> Conn \<times> byte list \<times> (ask_error + nat)" where
  "AskAtLeast model c request response m =
     (if model = Rtu then SerialClient_AskAtLeast c request response
      else TcpClient_AskAtLeast c request response m)"

definition Messenger_Close :: "Conn \<Rightarrow> Conn" where
  "Messenger_Close c = c\<lparr>cn_closed := True\<rparr>"

definition Messenger_Reset :: "Conn \<Rightarrow> Conn \<Rightarrow> Conn" where
  "Messenger_Reset c newMessenger = newMessenger"

section \<open>What reading does\<close>

text \<open>The bytes below the returned count are what the peer sent; the rest of the buffer is untouched,
  and so is its length.\<close>

lemma read_at_least_inv:
  assumes "n \<le> length buf" "read_at_least buf n m input = (input', buf', res)"
  shows "\<exists>j. n \<le> j \<and> j \<le> length buf \<and> length buf' = length buf \<and> drop j buf' = drop j buf \<and>
    (\<forall>k. res = Inr k \<longrightarrow> k = j \<and> m \<le> k)"
  using assms
proof (induction buf n m input rule: read_at_least.induct)
  case (1 buf n m)
  then show ?case by (intro exI [of _ n]) (auto split: if_splits)
next
  case (2 buf n m ev evs)
  show ?case
  proof (cases "m \<le> n \<or> ev = Fault")
    case True
    with 2 show ?thesis by (intro exI [of _ n]) (auto split: if_splits)
  next
    case False
    then obtain bs where ev: "ev = Portion bs" and m: "\<not> m \<le> n" by (cases ev) auto
    define k where "k = min (length bs) (length buf - n)"
    define b where "b = take n buf @ take k bs @ drop (n + k) buf"
    have b: "length b = length buf" "drop (n + k) b = drop (n + k) buf" "n + k \<le> length buf"
      using "2.prems"(1) by (simp_all add: b_def k_def)
    show ?thesis
    proof (cases "k < length bs")
      case True
      then have "buf' = b" "\<forall>x. res = Inr x \<longrightarrow> x = n + k \<and> m \<le> x"
        using "2.prems" m by (auto simp: ev Let_def simp flip: k_def b_def split: if_splits)
      with b show ?thesis by (intro exI [of _ "n + k"]) simp
    next
      case False
      then have "b = take n buf @ bs @ drop (n + k) buf" by (simp add: b_def)
      then have "read_at_least b (n + k) m evs = (input', buf', res)"
        using "2.prems" m False by (simp add: ev Let_def flip: k_def)
      moreover have "n + k \<le> length b" using b by simp
      ultimately obtain j where j: "n + k \<le> j" "j \<le> length b" "length buf' = length b"
        "drop j buf' = drop j b" "\<forall>x. res = Inr x \<longrightarrow> x = j \<and> m \<le> x"
        using "2.IH" [OF m ev k_def b_def False] by blast
      moreover have "drop j b = drop (j - (n + k)) (drop (n + k) b)" using j(1) by simp
      ultimately show ?thesis using b by (intro exI [of _ j]) simp
    qed
  qed
qed

lemma TcpClient_AskAtLeast_buffer:
  assumes "TcpClient_AskAtLeast c request response m = (c', response', res)"
  shows "length response' = length response \<and>
    (\<forall>k. res = Inr k \<longrightarrow> m \<le> k \<and> k \<le> length response \<and> drop k response' = drop k response)"
  using assms
  by (auto simp: TcpClient_AskAtLeast_def io_ReadAtLeast_def Let_def
      dest: read_at_least_inv [of 0 response m, simplified] split: if_splits prod.splits)

end
