(* ===== verification/Gather.thy ===== *)
theory Gather
  imports GoPrelude
begin

text \<open>
  The contract between a poll and the goroutine that gathers its results, which the Modbus and the S7
  broker both implement: results arrive in any order, a result with errors contributes its errors, any
  other its values. What a poll promises is proved here once.
\<close>

lemma mset_concat_map: "mset (concat (map f xs)) = (\<Sum>x \<in># mset xs. mset (f x))"
  by (induction xs) simp_all

text \<open>Splitting a list by a key and putting the parts together loses nothing.\<close>

lemma mset_by_key:
  "distinct cs \<Longrightarrow> f ` set xs \<subseteq> set cs \<Longrightarrow>
   mset (concat (map (\<lambda>c. filter (\<lambda>v. f v = c) xs) cs)) = mset xs"
proof (induction cs arbitrary: xs)
  case (Cons c cs)
  let ?ys = "filter (\<lambda>v. f v \<noteq> c) xs"
  have "map (\<lambda>d. filter (\<lambda>v. f v = d) xs) cs = map (\<lambda>d. filter (\<lambda>v. f v = d) ?ys) cs"
    using Cons.prems(1) by (intro map_cong refl) (auto intro!: filter_cong)
  moreover have "mset (concat (map (\<lambda>d. filter (\<lambda>v. f v = d) ?ys) cs)) = mset ?ys"
    using Cons.prems by (intro Cons.IH) auto
  ultimately have "mset (concat (map (\<lambda>d. filter (\<lambda>v. f v = d) xs) (c # cs))) =
      mset (filter (\<lambda>v. f v = c) xs) + mset ?ys"
    by (simp only: list.map concat.simps mset_append)
  also have "\<dots> = mset xs" by (simp add: multiset_partition [of "mset xs" "\<lambda>v. f v = c", symmetric])
  finally show ?case .
qed simp

locale gatherer =
  fixes vals :: "'r \<Rightarrow> 'v list"
    and errs :: "'r \<Rightarrow> 'e list"
    and gather :: "'r list \<Rightarrow> 'r"
  assumes gather_vals: "vals (gather rs) = concat (map (\<lambda>r. if errs r = [] then vals r else []) rs)"
    and gather_errs: "errs (gather rs) = concat (map errs rs)"
begin

lemma gather_perm:
  assumes "mset rs = mset rs'"
  shows "mset (vals (gather rs)) = mset (vals (gather rs')) \<and> mset (errs (gather rs)) = mset (errs (gather rs'))"
  using assms by (simp add: gather_vals gather_errs mset_concat_map)

text \<open>When every job succeeds, the report has no error and exactly the values of the jobs.\<close>

lemma gather_all:
  assumes arrived: "mset arrived = mset (List.map_filter result jobs)"
    and ok: "\<And>job. job \<in> set jobs \<Longrightarrow> \<exists>r. result job = Some r \<and> errs r = [] \<and> vals r = map g (items job)"
  shows "errs (gather arrived) = [] \<and>
    mset (vals (gather arrived)) = image_mset g (mset (concat (map items jobs)))"
proof -
  define rs where "rs = List.map_filter result jobs"
  have "(\<forall>r \<in> set rs. errs r = []) \<and> concat (map vals rs) = map g (concat (map items jobs))"
    unfolding rs_def using ok
  proof (induction jobs)
    case (Cons job jobs)
    then obtain r where "result job = Some r" "errs r = []" "vals r = map g (items job)" by force
    with Cons show ?case by (simp add: map_filter_simps)
  qed (simp add: map_filter_simps)
  moreover have "concat (map (\<lambda>r. if errs r = [] then vals r else []) rs) = concat (map vals rs)"
    if "\<forall>r \<in> set rs. errs r = []" for rs using that by (induction rs) auto
  moreover have "concat (map errs rs) = []" if "\<forall>r \<in> set rs. errs r = []" for rs using that by (induction rs) auto
  ultimately have "errs (gather rs) = []" "mset (vals (gather rs)) = image_mset g (mset (concat (map items jobs)))"
    by (simp_all add: gather_vals gather_errs)
  with gather_perm [of arrived rs] arrived show ?thesis by (simp add: rs_def)
qed

end

end
