(* ===== verification/ModbusBroker.thy ===== *)
theory ModbusBroker
  imports ModbusPlan ModbusIO Response Gather
begin

text \<open>
  Model of the collecting half of \<^verbatim>\<open>pkg/protocol/modbus/modbusbroker.go\<close>: the validation of a
  response, the retried exchange of one frame (\<open>message\<close> and \<open>retry\<close>), and the gathering of the
  results of one poll. A panic inside \<open>message\<close> is recovered there: nothing is reported for that
  frame. \<open>dials\<close> is what the successive calls of \<open>NewMessenger\<close> return.
\<close>

section \<open>Validation of a response\<close>

text \<open>The checks and the extraction behind the transaction id, on \<open>buf\<close> from the unit identifier on.
  \<open>byteDataLength+3\<close> and \<open>byteDataLength+5\<close> are byte arithmetic.\<close>

definition check_length_and_crc :: "bool \<Rightarrow> byte \<Rightarrow> byte list \<Rightarrow> modbus_error option option" where
  "check_length_and_crc needCrc byteDataLength buf =
     (if needCrc then
        (if unat byteDataLength + 5 \<noteq> length buf then Some (Some ErrMessageDataLengthNotEnough)
         else do {
           checkBufData \<leftarrow> slice_range buf 0 (unat (byteDataLength + 3));
           crcBytes \<leftarrow> slice_range buf (unat (byteDataLength + 3)) (unat (byteDataLength + 5));
           crc \<leftarrow> ParseUint16BigEndian crcBytes;
           Some (if CheckCrc16sum checkBufData \<noteq> crc then Some ErrCRC16Error else None) })
      else Some (if unat byteDataLength + 3 \<noteq> length buf then Some ErrMessageDataLengthNotEnough else None))"

definition extract_data :: "byte \<Rightarrow> byte \<Rightarrow> byte list \<Rightarrow> byte list option" where
  "extract_data functionCode byteDataLength buf =
     (if functionCode = ReadCoilStatus \<or> functionCode = ReadInputStatus then
        do { payload \<leftarrow> slice_from buf 3; ExpandBool payload (int (unat byteDataLength)) }
      else if functionCode = ReadHoldRegister \<or> functionCode = ReadInputRegister then
        map_option Dup (slice_from buf 3)
      else Some [])"

definition validate_adu :: "bool \<Rightarrow> uint \<Rightarrow> byte list \<Rightarrow> (modbus_error + byte list) option" where
  "validate_adu needCrc requestSlave buf =
     do { slave \<leftarrow> index_at buf 0;
          if ucast slave \<noteq> requestSlave then Some (Inl ErrMessageSlave)
          else do {
            functionCode \<leftarrow> index_at buf 1;
            if 0 < functionCode AND 0x80 then Some (Inl ErrMessageFunctionCodeError)
            else do {
              byteDataLength \<leftarrow> index_at buf 2;
              err \<leftarrow> check_length_and_crc needCrc byteDataLength buf;
              case err of
                Some e \<Rightarrow> Some (Inl e)
              | None \<Rightarrow> map_option Inr (extract_data functionCode byteDataLength buf) } } }"

definition ValidateAndExtractMessage ::
  "'c ModbusBroker \<Rightarrow> ModBusDataFrame \<Rightarrow> (modbus_error + byte list) option" where
  "ValidateAndExtractMessage broker df =
     (let buf = df_ResponseDataFrame df in
      if mb_NeedCheckTransaction broker then
        do { transactionId \<leftarrow> ParseUint16 buf;
             if transactionId \<noteq> df_TransactionId df then Some (Inl ErrMessageTransaction)
             else do { buf \<leftarrow> slice_from buf 6;
                       validate_adu (mb_NeedCheckCrc16Sum broker) (df_Slave df) buf } }
      else validate_adu (mb_NeedCheckCrc16Sum broker) (df_Slave df) buf)"

section \<open>One frame\<close>

datatype message_error = Modbus modbus_error | DialError

text \<open>The function literal passed to \<open>retry\<close>. The last component is \<open>None\<close> for a panic.\<close>

definition broker_model :: "'c ModbusBroker \<Rightarrow> ModbusModel" where
  "broker_model broker =
     (case StringToModbusModel (modbus_device_model (mb_Device broker)) of Some m \<Rightarrow> m | None \<Rightarrow> Tcp)"

definition exchange ::
  "'c ModbusBroker \<Rightarrow> Conn \<Rightarrow> ModBusDataFrame \<Rightarrow> Conn \<times> ModBusDataFrame \<times> (modbus_error + byte list) option" where
  "exchange broker messenger dataFrame =
     (case (if mb_NeedCheckTransaction broker then WriteTransactionId dataFrame else Some dataFrame) of
        None \<Rightarrow> (messenger, dataFrame\<lparr>df_TransactionId := df_TransactionId dataFrame + 1\<rparr>, None)
      | Some df \<Rightarrow>
          let (messenger, response, res) =
                AskAtLeast (broker_model broker) messenger (df_DataFrame df) (df_ResponseDataFrame df) 6;
              df = df\<lparr>df_ResponseDataFrame := response\<rparr>
          in (messenger, df,
              case res of
                Inl e \<Rightarrow> if e = AskPanic then None else Some (Inl ErrModbusBadConn)
              | Inr _ \<Rightarrow> map_option (\<lambda>r. case r of Inl _ \<Rightarrow> Inl ErrModbusServerBadResp | Inr buf \<Rightarrow> Inr buf)
                          (ValidateAndExtractMessage broker df)))"

text \<open>The loop of \<open>retry\<close> with \<open>n\<close> rounds left.\<close>

primrec retry_rounds ::
  "nat \<Rightarrow> 'c ModbusBroker \<Rightarrow> Conn \<Rightarrow> Conn option list \<Rightarrow> ModBusDataFrame \<Rightarrow>
   Conn \<times> Conn option list \<times> ModBusDataFrame \<times> (message_error + byte list) option" where
  "retry_rounds 0 broker messenger dials df = (messenger, dials, df, Some (Inl (Modbus ErrManyRetry)))"
| "retry_rounds (Suc n) broker messenger dials df =
     (let (messenger, df, res) = exchange broker messenger df
      in case res of
           None \<Rightarrow> (messenger, dials, df, None)
         | Some (Inr buf) \<Rightarrow> (messenger, dials, df, Some (Inr buf))
         | Some (Inl e) \<Rightarrow>
             if e = ErrModbusBadConn then
               let messenger = Messenger_Close messenger
               in case dials of
                    Some newMessenger # rest \<Rightarrow>
                      retry_rounds n broker (Messenger_Reset messenger newMessenger) rest df
                  | _ \<Rightarrow> (messenger, tl dials, df, Some (Inl DialError))
             else retry_rounds n broker messenger dials df)"

definition retry ::
  "'c ModbusBroker \<Rightarrow> Conn \<Rightarrow> Conn option list \<Rightarrow> ModBusDataFrame \<Rightarrow>
   Conn \<times> Conn option list \<times> ModBusDataFrame \<times> (message_error + byte list) option" where
  "retry broker messenger dials df = retry_rounds 3 broker messenger dials df"

record ModbusParseResult =
  pvr_VariableSlice :: "ModbusVariable list"
  pvr_Err :: "message_error list"

text \<open>What \<open>message\<close> sends to the channel after the retries, if anything: a panic while the values are
  parsed is recovered and sends nothing.\<close>

definition message_report ::
  "float_oor \<Rightarrow> ModBusDataFrame \<Rightarrow> (message_error + byte list) option \<Rightarrow>
   ModBusDataFrame \<times> ModbusParseResult option" where
  "message_report oor df res =
     (case res of
        None \<Rightarrow> (df, None)
      | Some (Inl err) \<Rightarrow> (df, Some \<lparr>pvr_VariableSlice = [], pvr_Err = [err]\<rparr>)
      | Some (Inr buf) \<Rightarrow>
          (case ParseVariableValue oor df buf of
             None \<Rightarrow> (df, None)
           | Some (df, vvs) \<Rightarrow> (df, Some \<lparr>pvr_VariableSlice = vvs, pvr_Err = []\<rparr>)))"

text \<open>\<open>message\<close>: \<open>got\<close> is what \<open>GetMessenger\<close> returned, \<open>None\<close> for an error. The result is the connection
  that the deferred call releases (its argument is evaluated before a new connection is dialled:
  after an error it is nil), the frame, and what is sent to the channel, if anything.\<close>

definition message ::
  "float_oor \<Rightarrow> 'c ModbusBroker \<Rightarrow> Conn option \<Rightarrow> Conn option list \<Rightarrow> ModBusDataFrame \<Rightarrow>
   Conn option \<times> Conn option list \<times> ModBusDataFrame \<times> ModbusParseResult option" where
  "message oor broker got dials dataFrame =
     (case (case got of Some c \<Rightarrow> Some (c, dials)
            | None \<Rightarrow> (case dials of Some c # rest \<Rightarrow> Some (c, rest) | _ \<Rightarrow> None)) of
        None \<Rightarrow> (got, tl dials, dataFrame, None)
      | Some (messenger, dials) \<Rightarrow>
          let (messenger, dials, df, res) = retry broker messenger dials dataFrame;
              (df, report) = message_report oor df res
          in (if got = None then None else Some messenger, dials, df, report))"

section \<open>One poll\<close>

text \<open>\<open>rollVariable\<close> on the results in the order they arrive: a result with a non-nil error list adds its
  errors, any other its variables.\<close>

definition roll_step ::
  "ModbusVariable list \<times> message_error list \<Rightarrow> ModbusParseResult \<Rightarrow> ModbusVariable list \<times> message_error list" where
  "roll_step acc pvr =
     (if pvr_Err pvr \<noteq> [] then (fst acc, snd acc @ pvr_Err pvr)
      else (fst acc @ pvr_VariableSlice pvr, snd acc))"

definition rollVariable :: "ModbusParseResult list \<Rightarrow> ModbusParseResult" where
  "rollVariable results =
     (let (rvs, errs) = foldl roll_step ([], []) results
      in \<lparr>pvr_VariableSlice = rvs, pvr_Err = errs\<rparr>)"

text \<open>\<open>poll\<close>: every frame is exchanged by its own goroutine, with the connection and the dials it gets;
  the report is built from the results in some order of arrival.\<close>

definition frame_result ::
  "float_oor \<Rightarrow> 'c ModbusBroker \<Rightarrow> ModBusDataFrame \<times> Conn option \<times> Conn option list \<Rightarrow> ModbusParseResult option" where
  "frame_result oor broker job =
     snd (snd (snd (message oor broker (fst (snd job)) (snd (snd job)) (fst job))))"

definition poll_results ::
  "float_oor \<Rightarrow> 'c ModbusBroker \<Rightarrow> (ModBusDataFrame \<times> Conn option \<times> Conn option list) list \<Rightarrow> ModbusParseResult list" where
  "poll_results oor broker jobs = List.map_filter (frame_result oor broker) jobs"

inductive poll ::
  "float_oor \<Rightarrow> 'c ModbusBroker \<Rightarrow> (ModBusDataFrame \<times> Conn option \<times> Conn option list) list \<Rightarrow> ModbusParseResult \<Rightarrow> bool"
  for oor broker where
  poll_report: "map fst jobs = concat (map snd (mb_FunctionCodeDataFrameMap broker)) \<Longrightarrow>
    mset arrived = mset (poll_results oor broker jobs) \<Longrightarrow>
    poll oor broker jobs (rollVariable arrived)"

inductive_cases poll_elim: "poll oor broker jobs report"

section \<open>Which responses are accepted\<close>

text \<open>A broker as \<open>NewBroker\<close> makes it checks the transaction id on TCP and the checksum otherwise.\<close>

definition broker_flags_ok :: "'c ModbusBroker \<Rightarrow> bool" where
  "broker_flags_ok broker =
     (mb_NeedCheckTransaction broker = (broker_model broker = Tcp) \<and>
      mb_NeedCheckCrc16Sum broker = (broker_model broker \<noteq> Tcp))"

lemma NewBroker_flags:
  "NewBroker srt newClients device = Some (Inr broker) \<Longrightarrow> broker_flags_ok broker"
  by (auto simp: NewBroker_def broker_flags_ok_def broker_model_def Let_def bind_eq_Some_conv
      split: option.splits if_splits)
    (metis ModbusModel.exhaust)+

lemma byte_high_bit: "0 < (f :: byte) AND 0x80 \<longleftrightarrow> bit f 7"
  using and_bit_pos_iff [of f 7] by simp

lemma ParseUint16_bytes: "ParseUint16 (Uint16ToBytesBigEndian w @ r) = Some w"
  by (simp add: ParseUint16_def need_def Uint16ToBytesBigEndian_eq join_bytes)

lemma ExpandBool_Some: "\<exists>bb. ExpandBool buf (int n) = Some bb"
  by (simp add: ExpandBool_def Let_def)

text \<open>What is made of the bytes behind the byte count: \<open>n\<close> is the count.\<close>

definition payload_view :: "byte \<Rightarrow> nat \<Rightarrow> byte list \<Rightarrow> byte list" where
  "payload_view fc n rest =
     (if fc = ReadCoilStatus \<or> fc = ReadInputStatus then the (ExpandBool rest (int n))
      else if fc = ReadHoldRegister \<or> fc = ReadInputRegister then rest else [])"

lemma extract_data_eq:
  "3 \<le> length buf \<Longrightarrow> extract_data fc n buf = Some (payload_view fc (unat n) (drop 3 buf))"
  using ExpandBool_Some [of "drop 3 buf" "unat n"]
  by (auto simp: extract_data_def payload_view_def slice_from_def Dup_def)

lemma unat_byte_length: "length xs < 256 \<Longrightarrow> unat (of_nat (length xs) :: byte) = length xs"
  by (simp add: unat_of_nat)

lemma validate_adu_tcp_reply:
  "ucast unit = slave \<Longrightarrow> \<not> bit fc 7 \<Longrightarrow> length payload < 256 \<Longrightarrow>
   validate_adu False slave (server_reply unit fc payload) = Some (Inr (payload_view fc (length payload) payload))"
  by (simp add: validate_adu_def server_reply_def index_at_def byte_high_bit check_length_and_crc_def
      unat_byte_length extract_data_eq)

lemma with_crc_ParseUint16: "ParseUint16BigEndian (Uint16ToBytesBigEndian w) = Some w"
  by (rule be16.dec_enc)

lemma validate_adu_crc_reply:
  assumes "ucast unit = slave" "\<not> bit fc 7" and len: "length payload \<le> 250"
  shows "validate_adu True slave (with_crc (server_reply unit fc payload)) =
    Some (Inr (payload_view fc (length payload)
      (payload @ Uint16ToBytesBigEndian (CheckCrc16sum (server_reply unit fc payload)))))"
proof -
  let ?r = "server_reply unit fc payload" and ?n = "of_nat (length payload) :: byte"
  have n: "unat ?n = length payload" "unat (?n + 3) = length payload + 3" "unat (?n + 5) = length payload + 5"
    using len by (simp_all add: unat_of_nat unat_word_ariths)
  have r: "length ?r = length payload + 3" by (simp add: server_reply_def)
  have "check_length_and_crc True ?n (with_crc ?r) = Some None"
    using n r by (simp add: check_length_and_crc_def slice_range_def)
      (simp add: with_crc_def r with_crc_ParseUint16)
  moreover have "extract_data fc ?n (with_crc ?r) = Some (payload_view fc (length payload)
      (payload @ Uint16ToBytesBigEndian (CheckCrc16sum ?r)))"
    using n r by (subst extract_data_eq) (simp_all add: with_crc_def server_reply_def)
  moreover have "index_at (with_crc ?r) 0 = Some unit" "index_at (with_crc ?r) 1 = Some fc"
    "index_at (with_crc ?r) 2 = Some ?n"
    by (simp_all add: index_at_def with_crc_def server_reply_def nth_append)
  ultimately show ?thesis using assms(1,2) by (simp add: validate_adu_def byte_high_bit)
qed

text \<open>Conversely, behind a checksum only a framed reply is accepted.\<close>

lemma validate_adu_crc_accepts:
  assumes "validate_adu True slave buf = Some (Inr bb)" and len: "length buf \<le> 255"
  shows "\<exists>unit fc payload. buf = with_crc (server_reply unit fc payload) \<and> ucast unit = slave \<and> \<not> bit fc 7 \<and>
    length payload \<le> 250"
proof -
  from assms(1) obtain unit fc n where
    at: "index_at buf 0 = Some unit" "index_at buf 1 = Some fc" "index_at buf 2 = Some n"
    and ok: "ucast unit = slave" "\<not> bit fc 7" "check_length_and_crc True n buf = Some None"
    by (auto simp: validate_adu_def bind_eq_Some_conv byte_high_bit split: if_splits option.splits)
  have n: "unat n + 5 = length buf"
    using ok(3) by (auto simp: check_length_and_crc_def split: if_splits)
  then have small: "unat n \<le> 250" using len by simp
  then have n3: "unat (n + 3) = unat n + 3" and n5: "unat (n + 5) = unat n + 5"
    by (simp_all add: unat_word_ariths)
  define body where "body = take (unat n + 3) buf"
  have body: "length body = unat n + 3" using n by (simp add: body_def)
  have "length (drop (unat n + 3) buf) = 2" using n by simp
  then obtain a b where crc: "drop (unat n + 3) buf = [a, b]"
    unfolding length_eq_2_conv by blast
  then have buf: "buf = body @ [a, b]" by (metis append_take_drop_id body_def)
  have "ParseUint16BigEndian [a, b] = Some (CheckCrc16sum body)"
    using ok(3) n by (auto simp: check_length_and_crc_def n3 n5 slice_range_def bind_eq_Some_conv crc
        body_def [symmetric] split: if_splits)
  then have "Uint16ToBytesBigEndian (CheckCrc16sum body) = [a, b]"
    by (simp add: be16.dec_eq_Some_iff)
  then have "buf = with_crc body" by (simp add: buf with_crc_def)
  moreover have "body = server_reply unit fc (drop 3 body)"
  proof -
    have "body = [body ! 0, body ! 1, body ! 2] @ drop 3 body"
      using body by (cases body rule: list.exhaust; cases "tl body" rule: list.exhaust;
          cases "tl (tl body)" rule: list.exhaust) auto
    moreover have "body ! 0 = unit" "body ! 1 = fc" "body ! 2 = n"
      using at body by (auto simp: index_at_eq_Some_iff buf nth_append)
    moreover have "of_nat (length (drop 3 body)) = n" using body by simp
    ultimately show ?thesis by (simp add: server_reply_def)
  qed
  moreover have "length (drop 3 body) \<le> 250" using body small by simp
  ultimately show ?thesis using ok by metis
qed

lemma ValidateAndExtractMessage_crc:
  "\<not> mb_NeedCheckTransaction broker \<Longrightarrow> mb_NeedCheckCrc16Sum broker \<Longrightarrow>
   ValidateAndExtractMessage broker df = validate_adu True (df_Slave df) (df_ResponseDataFrame df)"
  by (simp add: ValidateAndExtractMessage_def)

text \<open>C6: On a dialect with a checksum, if a response is accepted then no version of it with two
  adjacent bytes changed is: it is rejected or stops the exchange, and yields no data.\<close>

theorem corrupted_response_rejected:
  assumes flags: "\<not> mb_NeedCheckTransaction broker" "mb_NeedCheckCrc16Sum broker"
    and ok: "ValidateAndExtractMessage broker (df\<lparr>df_ResponseDataFrame := xs @ a # b # ys\<rparr>) = Some (Inr bb)"
    and len: "length xs + 2 + length ys \<le> 255" and ne: "(a, b) \<noteq> (a', b')"
  shows "ValidateAndExtractMessage broker (df\<lparr>df_ResponseDataFrame := xs @ a' # b' # ys\<rparr>) \<noteq> Some (Inr bb')"
proof
  assume bad: "ValidateAndExtractMessage broker (df\<lparr>df_ResponseDataFrame := xs @ a' # b' # ys\<rparr>) = Some (Inr bb')"
  have "CheckCrc16sum (xs @ a # b # ys) = 0"
    using validate_adu_crc_accepts [of "df_Slave df" "xs @ a # b # ys" bb] ok len
    by (auto simp: ValidateAndExtractMessage_crc [OF flags])
  moreover have "CheckCrc16sum (xs @ a' # b' # ys) = 0"
    using validate_adu_crc_accepts [of "df_Slave df" "xs @ a' # b' # ys" bb'] bad len
    by (auto simp: ValidateAndExtractMessage_crc [OF flags])
  ultimately show False using crc_burst [OF ne, of xs ys] by simp
qed

section \<open>Reading the memory of a server\<close>

text \<open>A register variable is read from the registers it occupies and from nothing behind them.\<close>

lemma read_word_prefix:
  "2 \<le> length b \<Longrightarrow> read_word16 ml b = read_word16 ml (take 2 b)"
  "4 \<le> length b \<Longrightarrow> read_word32 ml b = read_word32 ml (take 4 b)"
  "8 \<le> length b \<Longrightarrow> read_word64 ml b = read_word64 ml (take 8 b)"
  "4 \<le> length b \<Longrightarrow> read_float32 ml b = read_float32 ml (take 4 b)"
  "8 \<le> length b \<Longrightarrow> read_float64 ml b = read_float64 ml (take 8 b)"
  by (cases ml; simp add: read_word16_def read_word32_def read_word64_def read_float32_def read_float64_def,
      metis be16.dec_prefix le16.permuted.dec_prefix be32.dec_prefix bes32.permuted.dec_prefix
        le32.permuted.dec_prefix les32.permuted.dec_prefix be64.dec_prefix bes64.permuted.dec_prefix
        le64.permuted.dec_prefix les64.permuted.dec_prefix
        bef32.renamed.dec_prefix besf32.renamed.dec_prefix lef32.renamed.dec_prefix lesf32.renamed.dec_prefix
        bef64.renamed.dec_prefix besf64.renamed.dec_prefix lef64.renamed.dec_prefix lesf64.renamed.dec_prefix)+

lemma register_value_prefix:
  assumes "2 * unat (DataTypeWord (mv_DataType v)) \<le> length b"
  shows "register_value oor ml v b = register_value oor ml v (take (2 * unat (DataTypeWord (mv_DataType v))) b)"
  using assms read_word_prefix [of b ml] by (cases "mv_DataType v") (simp_all add: register_value_def)

lemma read_word_total:
  "2 \<le> length b \<Longrightarrow> \<exists>x. read_word16 ml b = Some x"
  "4 \<le> length b \<Longrightarrow> \<exists>x. read_word32 ml b = Some x"
  "8 \<le> length b \<Longrightarrow> \<exists>x. read_word64 ml b = Some x"
  "4 \<le> length b \<Longrightarrow> \<exists>x. read_float32 ml b = Some x"
  "8 \<le> length b \<Longrightarrow> \<exists>x. read_float64 ml b = Some x"
  by (cases ml; simp add: read_word16_def read_word32_def read_word64_def read_float32_def read_float64_def,
      metis be16.dec_total le16.permuted.dec_total be32.dec_total bes32.permuted.dec_total
        le32.permuted.dec_total les32.permuted.dec_total be64.dec_total bes64.permuted.dec_total
        le64.permuted.dec_total les64.permuted.dec_total
        bef32.renamed.dec_total besf32.renamed.dec_total lef32.renamed.dec_total lesf32.renamed.dec_total
        bef64.renamed.dec_total besf64.renamed.dec_total lef64.renamed.dec_total lesf64.renamed.dec_total)+

lemma register_value_total:
  assumes "2 * unat (DataTypeWord (mv_DataType v)) \<le> length b"
  shows "\<exists>x. register_value oor ml v b = Some x"
  using assms read_word_total [of b ml]
  by (cases "mv_DataType v") (auto simp: register_value_def Let_def)

text \<open>What a variable is worth in a memory of coils and registers.\<close>

definition memory_value ::
  "float_oor \<Rightarrow> byte \<Rightarrow> MemoryLayout \<Rightarrow> (nat \<Rightarrow> bool) \<Rightarrow> (nat \<Rightarrow> u16) \<Rightarrow> ModbusVariable \<Rightarrow> GoValue" where
  "memory_value oor fc ml coils regs v =
     (if is_coil_code fc then
        (if mv_DataType v \<in> {NUMBER, STRING} then VNil
         else coil_value (mv_DataType v) (if coils (unat (mv_Address v)) then 1 else 0))
      else the (register_value oor ml v
             (register_payload regs (unat (mv_Address v)) (unat (DataTypeWord (mv_DataType v))))))"

definition memory_payload :: "byte \<Rightarrow> (nat \<Rightarrow> bool) \<Rightarrow> (nat \<Rightarrow> u16) \<Rightarrow> nat \<Rightarrow> nat \<Rightarrow> byte list" where
  "memory_payload fc coils regs a n =
     (if is_coil_code fc then coil_payload coils a n else register_payload regs a n)"

lemma ExpandBool_nth:
  assumes "ExpandBool buf (int n) = Some bb" "n \<le> length buf" "i < 8 * n"
  shows "i < length bb \<and> bb ! i = (if bit (buf ! (i div 8)) (i mod 8) then 1 else 0)"
  using assms by (auto simp: ExpandBool_def Let_def and_bit_pos_iff split: if_splits)

lemma coil_payload_bit:
  assumes "i < n"
  shows "bit (coil_payload coils a n ! (i div 8)) (i mod 8) = coils (a + i)"
proof -
  have "i div 8 < (n + 7) div 8" using assms by linarith
  moreover have "8 * (i div 8) + i mod 8 = i" by simp
  ultimately show ?thesis
    using assms by (simp add: coil_payload_def bit_bits_byte add.assoc)
qed

lemma coil_variable_read:
  assumes code: "is_coil_code code" and i: "unat (vp_Start vp) = i" "i < n"
    and addr: "unat (mv_Address (vp_Variable vp)) = a + i"
    and data: "ExpandBool (coil_payload coils a n @ tail) (int (length (coil_payload coils a n))) = Some data"
  shows "parse_variable_value oor code ml data vp =
    Some (memory_value oor code ml coils regs (vp_Variable vp))"
proof -
  let ?p = "coil_payload coils a n"
  have "i < 8 * length ?p" using i by simp
  then have "i < length data \<and> data ! i = (if bit ((?p @ tail) ! (i div 8)) (i mod 8) then 1 else 0)"
    using ExpandBool_nth [OF data] by simp
  moreover have "(?p @ tail) ! (i div 8) = ?p ! (i div 8)"
    using i by (simp add: nth_append) linarith
  ultimately have "index_at data (unat (vp_Start vp)) = Some (if coils (a + i) then 1 else 0)"
    using coil_payload_bit [OF i(2), of coils a] i(1) by (simp add: index_at_def)
  moreover have "code = ReadInputStatus \<or> code = ReadCoilStatus" using code by (auto simp: is_coil_code_def)
  ultimately show ?thesis using code addr by (simp add: parse_variable_value_def memory_value_def)
qed

lemma register_variable_read:
  assumes code: "is_register_code code" and i: "unat (vp_Start vp) = 2 * i"
    and w: "i + unat (DataTypeWord (mv_DataType (vp_Variable vp))) \<le> n"
    and addr: "unat (mv_Address (vp_Variable vp)) = a + i"
  shows "parse_variable_value oor code ml (register_payload regs a n @ tail) vp =
    Some (memory_value oor code ml coils regs (vp_Variable vp))"
proof -
  let ?v = "vp_Variable vp" and ?p = "register_payload regs a n"
  let ?w = "unat (DataTypeWord (mv_DataType (vp_Variable vp)))"
  have "take (2 * ?w) (drop (2 * i) (?p @ tail)) = register_payload regs (a + i) ?w"
    using register_payload_slice [OF w, of regs a] w by simp
  moreover have len: "2 * ?w \<le> length (drop (2 * i) (?p @ tail))" using w by simp
  ultimately have "register_value oor ml ?v (drop (2 * i) (?p @ tail)) =
      register_value oor ml ?v (register_payload regs (a + i) ?w)"
    by (subst register_value_prefix) simp_all
  moreover obtain x where "register_value oor ml ?v (register_payload regs (a + i) ?w) = Some x"
    using register_value_total [of ?v] by fastforce
  moreover have "slice_from (?p @ tail) (unat (vp_Start vp)) = Some (drop (2 * i) (?p @ tail))"
    using i w by (simp add: slice_from_def)
  moreover have "\<not> is_coil_code code" "code = ReadInputRegister \<or> code = ReadHoldRegister"
    "\<not> (code = ReadInputStatus \<or> code = ReadCoilStatus)"
    using code by (auto simp: is_register_code_def is_coil_code_def)
  ultimately show ?thesis
    using addr by (simp add: parse_variable_value_def memory_value_def)
qed

text \<open>The report of a frame whose variables have the values \<open>f\<close>.\<close>

definition frame_report :: "(ModbusVariable \<Rightarrow> GoValue) \<Rightarrow> ModBusDataFrame \<Rightarrow> ModbusVariable list" where
  "frame_report f df = map (\<lambda>v. reported (mv_SetValue (f v) v)) (frame_vars df)"

lemma parse_variables_all:
  assumes "\<And>vp. vp \<in> set vps \<Longrightarrow> parse_variable_value oor fc ml data vp = Some (f (vp_Variable vp))"
  shows "\<exists>vps'. parse_variables oor fc ml data vps =
    Some (vps', map (\<lambda>vp. reported (mv_SetValue (f (vp_Variable vp)) (vp_Variable vp))) vps)"
  using assms
proof (induction vps)
  case (Cons vp vps)
  then have "parse_variable_value oor fc ml data vp = Some (f (vp_Variable vp))" by simp
  moreover obtain vps' where "parse_variables oor fc ml data vps =
      Some (vps', map (\<lambda>vp. reported (mv_SetValue (f (vp_Variable vp)) (vp_Variable vp))) vps)"
    using Cons by force
  ultimately show ?case by (simp add: Let_def)
qed simp

lemma parse_reads_memory:
  assumes code: "is_coil_code code \<or> is_register_code code" and fc: "df_FunctionCode df = code"
    and covers: "frame_covers code df"
    and payload: "payload = memory_payload code coils regs (unat (df_StartAddress df)) (unat (df_MaxDataSize df))"
  shows "\<exists>df'. ParseVariableValue oor df (payload_view code (length payload) (payload @ tail)) =
    Some (df', frame_report (memory_value oor code (df_MemoryLayout df) coils regs) df)"
proof -
  let ?a = "unat (df_StartAddress df)" and ?n = "unat (df_MaxDataSize df)"
  let ?data = "payload_view code (length payload) (payload @ tail)"
  have "parse_variable_value oor code (df_MemoryLayout df) ?data vp =
      Some (memory_value oor code (df_MemoryLayout df) coils regs (vp_Variable vp))"
    if vp: "vp \<in> set (df_Variables df)" for vp
  proof -
    define i where "i = unat (mv_Address (vp_Variable vp)) - ?a"
    have at: "unat (mv_Address (vp_Variable vp)) = ?a + i" "i + var_width code (vp_Variable vp) \<le> ?n"
      "unat (vp_Start vp) = cell_bytes code * i"
      using covers vp by (auto simp: frame_covers_def i_def Let_def)
    show ?thesis
    proof (cases "is_coil_code code")
      case True
      then have p: "payload = coil_payload coils ?a ?n" by (simp add: payload memory_payload_def)
      obtain d where d: "ExpandBool (payload @ tail) (int (length payload)) = Some d"
        using ExpandBool_Some by blast
      then have "?data = d" using True by (simp add: payload_view_def is_coil_code_def)
      then show ?thesis
        using coil_variable_read [OF True _ _ at(1), of ?n coils tail d] at d True
        by (simp add: p var_width_def cell_bytes_def)
    next
      case False
      with code have r: "is_register_code code" by simp
      have "payload = register_payload regs ?a ?n" using False by (simp add: payload memory_payload_def)
      moreover have "?data = payload @ tail" using r by (auto simp: payload_view_def is_register_code_def)
      ultimately show ?thesis
        using register_variable_read [OF r _ _ at(1), of ?n] at False
        by (simp add: var_width_def cell_bytes_def)
    qed
  qed
  from parse_variables_all [of "df_Variables df" oor code "df_MemoryLayout df" ?data, OF this]
  show ?thesis using fc by (auto simp: ParseVariableValue_def frame_report_def frame_vars_def comp_def)
qed

section \<open>A frame that is ready to be exchanged\<close>

definition payload_length :: "byte \<Rightarrow> nat \<Rightarrow> nat" where
  "payload_length code n = (if is_coil_code code then (n + 7) div 8 else 2 * n)"

definition frame_ready :: "ModbusModel \<Rightarrow> ModBusDataFrame \<Rightarrow> bool" where
  "frame_ready model df \<longleftrightarrow>
     (is_coil_code (df_FunctionCode df) \<or> is_register_code (df_FunctionCode df)) \<and>
     frame_covers (df_FunctionCode df) df \<and>
     unat (df_MaxDataSize df) \<le> max_cells (df_FunctionCode df) \<and>
     unat (df_Slave df) < 256 \<and> 2 \<le> length (df_DataFrame df) \<and>
     length (df_ResponseDataFrame df) =
       (if model = Tcp then 9 else 5) + payload_length (df_FunctionCode df) (unat (df_MaxDataSize df))"

lemma length_memory_payload: "length (memory_payload code coils regs a n) = payload_length code n"
  by (simp add: memory_payload_def payload_length_def)

lemma payload_length_small: "n \<le> max_cells code \<Longrightarrow> payload_length code n \<le> 248"
  by (auto simp: payload_length_def max_cells_def)

lemma response_bytesLength_payload:
  assumes code: "is_coil_code code \<or> is_register_code code" and n: "unat n \<le> 4000" and nd: "unat nd \<le> 16"
  shows "unat (response_bytesLength nd code n) = unat nd + payload_length code (unat n)"
proof -
  have div: "unat (n div 8) = unat n div 8" by (simp add: unat_div)
  have md: "n mod 8 = 0 \<longleftrightarrow> unat n mod 8 = 0"
    by (simp add: unat_mod flip: unat_eq_0)
  have up: "(unat n + 7) div 8 = (if unat n mod 8 = 0 then unat n div 8 else unat n div 8 + 1)"
    by (auto; presburger)
  have "unat n div 8 \<le> 500" using n by linarith
  then have "unat (n div 8 + nd) = unat n div 8 + unat nd" "unat (n div 8 + 1 + nd) = unat n div 8 + 1 + unat nd"
    "unat (n * 2 + nd) = unat n * 2 + unat nd"
    using n nd by (simp_all add: unat_word_ariths div)
  then show ?thesis
    using code md up
    by (auto simp: response_bytesLength_def payload_length_def is_coil_code_def is_register_code_def)
qed

lemma read_request_bytes:
  assumes "GenerateReadMessage model slave fc start cnt vps ml = Some df"
  shows "df_DataFrame df = (if model = ''modbusTcp'' then with_mbap 0 (read_pdu slave fc start cnt)
    else with_crc (read_pdu slave fc start cnt))"
proof -
  let ?len = "response_bytesLength (if model = ''modbusTcp'' then 9 else 5) fc cnt"
  have "make_bytes ?len \<noteq> None"
    using assms by (auto simp: GenerateReadMessage_def ModbusTcp_GenerateReadMessage_def
      ModbusRtu_GenerateReadMessage_def ModbusRtuOverTcp_eq TcpNonDataLength_def RtuNonDataLength_def
      Let_def bind_eq_Some_conv split: if_splits)
  then have "0 \<le> sint ?len" by (simp add: make_bytes_def split: if_splits)
  then show ?thesis
    using assms
    by (auto simp: GenerateReadMessage_def ModbusTcp_frame ModbusRtu_frame ModbusRtuOverTcp_eq
        read_frame_def split: if_splits)
qed

text \<open>The frames of the plan are ready.\<close>

lemma planned_frame_ready:
  assumes gen: "GenerateReadMessage model slave code s m vps ml = Some df"
    and code: "is_coil_code code \<or> is_register_code code" and slave: "unat slave < 256"
    and covers: "frame_covers code df" and size: "unat (df_MaxDataSize df) \<le> max_cells code"
    and model: "StringToModbusModel model = Some md"
  shows "frame_ready md df"
proof -
  note f = GenerateReadMessage_fields [OF gen]
  have m: "unat m \<le> 1984" using size f by (auto simp: max_cells_def split: if_splits)
  have tcp: "model = ''modbusTcp'' \<longleftrightarrow> md = Tcp"
    using model by (auto simp: StringToModbusModel_def split: if_splits)
  have "make_bytes (response_bytesLength (if model = ''modbusTcp'' then 9 else 5) code m) = Some (df_ResponseDataFrame df)"
    using gen by (auto simp: GenerateReadMessage_def ModbusTcp_GenerateReadMessage_def
      ModbusRtu_GenerateReadMessage_def ModbusRtuOverTcp_eq TcpNonDataLength_def RtuNonDataLength_def
      Let_def bind_eq_Some_conv split: if_splits)
  moreover have "2 \<le> length (df_DataFrame df)"
    using read_request_bytes [OF gen] by (auto split: if_splits)
  ultimately show ?thesis
    using f code slave covers size m tcp unfolding frame_ready_def by (auto simp: length_make_bytes response_bytesLength_payload)
qed

section \<open>Invariance\<close>

lemma WriteTransactionId_Some:
  assumes "2 \<le> length (df_DataFrame df)"
  shows "\<exists>frame. WriteTransactionId df =
    Some (df\<lparr>df_TransactionId := df_TransactionId df + 1, df_DataFrame := frame\<rparr>) \<and> length frame = length (df_DataFrame df)"
  using assms by (auto simp: WriteTransactionId_def WriteUint16BigEndian_def need_def Let_def)

lemma serial_loop_length:
  "n \<le> length response \<Longrightarrow> length (fst (snd (serial_loop response n input))) = length response"
  by (induction response n input rule: serial_loop.induct) (auto simp: Let_def)

lemma AskAtLeast_length:
  "length (fst (snd (AskAtLeast model c request response m))) = length response"
  using TcpClient_AskAtLeast_buffer [of c request response m] serial_loop_length [of 0 response "cn_input c"]
  by (cases "TcpClient_AskAtLeast c request response m")
     (auto simp: AskAtLeast_def SerialClient_AskAtLeast_def Let_def split: prod.splits)

lemma exchange_ready:
  assumes "frame_ready md df"
  shows "frame_ready md (fst (snd (exchange broker c df)))"
proof -
  have keep: "frame_ready md (df\<lparr>df_TransactionId := t, df_DataFrame := d, df_ResponseDataFrame := r\<rparr>)"
    if "length d = length (df_DataFrame df)" "length r = length (df_ResponseDataFrame df)" for t d r
    using assms that by (simp add: frame_ready_def frame_covers_def)
  have keep': "frame_ready md (df\<lparr>df_ResponseDataFrame := r\<rparr>)"
    if "length r = length (df_ResponseDataFrame df)" for r
    using assms that by (simp add: frame_ready_def frame_covers_def)
  from assms have "2 \<le> length (df_DataFrame df)" by (simp add: frame_ready_def)
  from WriteTransactionId_Some [OF this] obtain frame where
    "WriteTransactionId df = Some (df\<lparr>df_TransactionId := df_TransactionId df + 1, df_DataFrame := frame\<rparr>)"
    "length frame = length (df_DataFrame df)" by blast
  then show ?thesis
    using keep keep' AskAtLeast_length
    by (auto simp: exchange_def Let_def split: prod.splits) (metis fst_conv snd_conv)+
qed

lemma retry_ready:
  "frame_ready md df \<Longrightarrow> frame_ready md (fst (snd (snd (retry_rounds n broker c dials df))))"
proof (induction n arbitrary: c dials df)
  case (Suc n)
  have "frame_ready md (fst (snd (exchange broker c df)))" using Suc.prems by (rule exchange_ready)
  then show ?case
    by (auto simp: Let_def Suc.IH split: prod.splits option.splits sum.splits list.splits)
qed simp

lemma parse_variables_frame:
  "parse_variables oor fc ml data vps = Some (vps', vvs) \<Longrightarrow>
   list_all2 (\<lambda>vp vp'. vp_Start vp' = vp_Start vp \<and> (\<exists>x. vp_Variable vp' = mv_SetValue x (vp_Variable vp))) vps vps'"
  by (induction vps arbitrary: vps' vvs) (fastforce simp: bind_eq_Some_conv Let_def split: prod.splits)+

lemma list_all2_member: "list_all2 P xs ys \<Longrightarrow> y \<in> set ys \<Longrightarrow> \<exists>x \<in> set xs. P x y"
  by (induction rule: list_all2_induct) auto

lemma ParseVariableValue_ready:
  assumes "frame_ready md df" "ParseVariableValue oor df data = Some (df', vvs)"
  shows "frame_ready md df'"
proof -
  obtain vps' where parse: "parse_variables oor (df_FunctionCode df) (df_MemoryLayout df) data (df_Variables df) = Some (vps', vvs)"
    and df': "df' = df\<lparr>df_Variables := vps'\<rparr>"
    using assms(2) by (auto simp: ParseVariableValue_def bind_eq_Some_conv split: prod.splits)
  have "frame_covers (df_FunctionCode df) df'"
    unfolding frame_covers_def df'
  proof (intro ballI)
    fix vp' assume "vp' \<in> set (df_Variables (df\<lparr>df_Variables := vps'\<rparr>))"
    then obtain vp x where vp: "vp \<in> set (df_Variables df)"
      and eq: "vp_Start vp' = vp_Start vp" "vp_Variable vp' = mv_SetValue x (vp_Variable vp)"
      using list_all2_member [OF parse_variables_frame [OF parse], of vp'] by auto
    have "mv_Address (mv_SetValue x v) = mv_Address v"
      "var_width code (mv_SetValue x v) = var_width code v" for v code
      by (simp_all add: mv_SetValue_def var_width_def)
    with vp assms(1) show "let v = vp_Variable vp' in
        unat (df_StartAddress (df\<lparr>df_Variables := vps'\<rparr>)) \<le> unat (mv_Address v) \<and>
        unat (mv_Address v) + var_width (df_FunctionCode df) v
          \<le> unat (df_StartAddress (df\<lparr>df_Variables := vps'\<rparr>)) + unat (df_MaxDataSize (df\<lparr>df_Variables := vps'\<rparr>)) \<and>
        unat (vp_Start vp') = cell_bytes (df_FunctionCode df) *
          (unat (mv_Address v) - unat (df_StartAddress (df\<lparr>df_Variables := vps'\<rparr>)))"
      by (simp add: eq frame_ready_def frame_covers_def Let_def)
  qed
  with assms(1) show ?thesis by (simp add: df' frame_ready_def)
qed

lemma message_report_ready: "frame_ready md df \<Longrightarrow> frame_ready md (fst (message_report oor df res))"
  by (auto simp: message_report_def split: option.splits sum.splits intro: ParseVariableValue_ready)


section \<open>A poll of an honest server\<close>

definition honest_reply ::
  "ModbusModel \<Rightarrow> ModBusDataFrame \<Rightarrow> (nat \<Rightarrow> bool) \<Rightarrow> (nat \<Rightarrow> u16) \<Rightarrow> byte list" where
  "honest_reply model df coils regs =
     (let payload = memory_payload (df_FunctionCode df) coils regs (unat (df_StartAddress df)) (unat (df_MaxDataSize df));
          reply = server_reply (ucast (df_Slave df)) (df_FunctionCode df) payload
      in if model = Tcp then with_mbap (df_TransactionId df + 1) reply else with_crc reply)"

definition conn_good :: "Conn \<Rightarrow> bool" where
  "conn_good c = (\<not> cn_writeFails c \<and> \<not> cn_deadlineFails c \<and> \<not> cn_closed c)"

lemma AskAtLeast_whole:
  assumes "conn_good c" "cn_input c = Portion bs # rest" "length bs = length response" "0 < m" "m \<le> length bs"
    "bs \<noteq> []" "model = Rtu \<longrightarrow> length bs \<le> 256"
  shows "AskAtLeast model c request response m =
    (c\<lparr>cn_output := cn_output c @ [request], cn_input := rest\<rparr>, bs, Inr (length bs))"
proof -
  have "read_at_least bs (length bs) m rest = (rest, bs, Inr (length bs))"
    using assms(5) by (cases rest) simp_all
  then show ?thesis
    using assms by (auto simp: AskAtLeast_def SerialClient_AskAtLeast_def TcpClient_AskAtLeast_def conn_good_def
        io_ReadAtLeast_def Let_def)
qed

lemma honest_reply_length:
  assumes "frame_ready model df"
  shows "length (honest_reply model df coils regs) = length (df_ResponseDataFrame df)"
  using assms by (simp add: honest_reply_def frame_ready_def server_reply_def length_memory_payload Let_def)

lemma ucast_byte_uint: "unat (w :: uint) < 256 \<Longrightarrow> ucast (ucast w :: byte) = w"
  by (simp add: word_unat_eq_iff unsigned_ucast_eq unsigned_take_bit_eq take_bit_nat_eq_self)

lemma honest_exchange:
  assumes ready: "frame_ready (broker_model broker) df" and flags: "broker_flags_ok broker"
    and some: "0 < unat (df_MaxDataSize df)"
    and conn: "conn_good c" "cn_input c = Portion (honest_reply (broker_model broker) df coils regs) # rest"
  shows "\<exists>df' c' tail. exchange broker c df =
      (c', df', Some (Inr (payload_view (df_FunctionCode df)
         (payload_length (df_FunctionCode df) (unat (df_MaxDataSize df)))
         (memory_payload (df_FunctionCode df) coils regs (unat (df_StartAddress df)) (unat (df_MaxDataSize df)) @ tail)))) \<and>
    df_FunctionCode df' = df_FunctionCode df \<and> df_Variables df' = df_Variables df \<and>
    df_StartAddress df' = df_StartAddress df \<and> df_MaxDataSize df' = df_MaxDataSize df \<and>
    df_MemoryLayout df' = df_MemoryLayout df"
proof -
  let ?md = "broker_model broker" and ?fc = "df_FunctionCode df"
  let ?p = "memory_payload ?fc coils regs (unat (df_StartAddress df)) (unat (df_MaxDataSize df))"
  let ?r = "server_reply (ucast (df_Slave df)) ?fc ?p"
  let ?reply = "honest_reply ?md df coils regs"
  have code: "is_coil_code ?fc \<or> is_register_code ?fc" and slave: "unat (df_Slave df) < 256"
    and size: "unat (df_MaxDataSize df) \<le> max_cells ?fc" and frame: "2 \<le> length (df_DataFrame df)"
    using ready by (auto simp: frame_ready_def)
  have unit: "ucast (ucast (df_Slave df) :: byte) = df_Slave df"
    using slave by (rule ucast_byte_uint)
  have bit7: "\<not> bit ?fc 7" using code by (auto simp: is_coil_code_def is_register_code_def)
  have plen: "length ?p = payload_length ?fc (unat (df_MaxDataSize df))" by (rule length_memory_payload)
  then have small: "length ?p \<le> 248" using payload_length_small [OF size] by simp
  have len: "length ?reply = length (df_ResponseDataFrame df)" using ready by (rule honest_reply_length)
  have range: "6 \<le> length ?reply \<and> (?md = Rtu \<longrightarrow> length ?reply \<le> 256)"
  proof -
    have pos: "1 \<le> length ?p" using some by (auto simp: plen payload_length_def)
    obtain k where k: "k = (if ?md = Tcp then 9 else 5 :: nat)" by blast
    then have "length ?reply = k + length ?p"
      by (simp add: honest_reply_def Let_def server_reply_def)
    moreover have "5 \<le> k" "?md = Rtu \<longrightarrow> k = 5" using k by auto
    ultimately show ?thesis using small pos by auto
  qed
  then have ne: "?reply \<noteq> []" by auto
  show ?thesis
  proof (cases "?md = Tcp")
    case True
    then have flags': "mb_NeedCheckTransaction broker" "\<not> mb_NeedCheckCrc16Sum broker"
      using flags by (simp_all add: broker_flags_ok_def)
    obtain req where tid: "WriteTransactionId df = Some (df\<lparr>df_TransactionId := df_TransactionId df + 1, df_DataFrame := req\<rparr>)"
      using WriteTransactionId_Some [OF frame] by blast
    define df1 where "df1 = df\<lparr>df_TransactionId := df_TransactionId df + 1, df_DataFrame := req\<rparr>"
    have ask: "AskAtLeast ?md c req (df_ResponseDataFrame df) 6 =
        (c\<lparr>cn_output := cn_output c @ [req], cn_input := rest\<rparr>, ?reply, Inr (length ?reply))"
      using range len ne by (intro AskAtLeast_whole conn) simp_all
    have "ValidateAndExtractMessage broker (df1\<lparr>df_ResponseDataFrame := ?reply\<rparr>) =
        Some (Inr (payload_view ?fc (length ?p) ?p))"
      using flags' True validate_adu_tcp_reply [OF unit bit7, of ?p] small
      by (simp add: ValidateAndExtractMessage_def df1_def honest_reply_def with_mbap_def Let_def
          ParseUint16_bytes slice_from_def)
         (simp add: Uint16ToBytesBigEndian_eq)
    then have "exchange broker c df =
        (c\<lparr>cn_output := cn_output c @ [req], cn_input := rest\<rparr>, df1\<lparr>df_ResponseDataFrame := ?reply\<rparr>,
         Some (Inr (payload_view ?fc (length ?p) (?p @ []))))"
      using flags' ask by (simp add: exchange_def tid flip: df1_def) (simp add: df1_def)
    then show ?thesis
      unfolding plen
      by (intro exI [of _ "df1\<lparr>df_ResponseDataFrame := ?reply\<rparr>"]
          exI [of _ "c\<lparr>cn_output := cn_output c @ [req], cn_input := rest\<rparr>"] exI [of _ "[]"])
        (simp add: df1_def)
  next
    case False
    then have flags': "\<not> mb_NeedCheckTransaction broker" "mb_NeedCheckCrc16Sum broker"
      using flags by (simp_all add: broker_flags_ok_def)
    let ?tail = "Uint16ToBytesBigEndian (CheckCrc16sum ?r)"
    have ask: "AskAtLeast ?md c (df_DataFrame df) (df_ResponseDataFrame df) 6 =
        (c\<lparr>cn_output := cn_output c @ [df_DataFrame df], cn_input := rest\<rparr>, ?reply, Inr (length ?reply))"
      using range len ne by (intro AskAtLeast_whole conn) simp_all
    have "ValidateAndExtractMessage broker (df\<lparr>df_ResponseDataFrame := ?reply\<rparr>) =
        Some (Inr (payload_view ?fc (length ?p) (?p @ ?tail)))"
      using flags' False validate_adu_crc_reply [OF unit bit7, of ?p] small
      by (simp add: ValidateAndExtractMessage_crc honest_reply_def Let_def)
    then have "exchange broker c df =
        (c\<lparr>cn_output := cn_output c @ [df_DataFrame df], cn_input := rest\<rparr>, df\<lparr>df_ResponseDataFrame := ?reply\<rparr>,
         Some (Inr (payload_view ?fc (length ?p) (?p @ ?tail))))"
      using flags' ask by (simp add: exchange_def)
    then show ?thesis
      unfolding plen
      by (intro exI [of _ "df\<lparr>df_ResponseDataFrame := ?reply\<rparr>"]
          exI [of _ "c\<lparr>cn_output := cn_output c @ [df_DataFrame df], cn_input := rest\<rparr>"] exI [of _ ?tail])
        simp
  qed
qed

text \<open>From the plan to the report: if the server answers the request of a ready frame with the
  contents of its memory, then \<open>message\<close> reports every variable of the frame with the value that the
  memory holds at the variable's own address, whatever the dialect, the memory layout and the
  other variables of the frame.\<close>

lemma message_reports_memory:
  assumes ready: "frame_ready (broker_model broker) df" and flags: "broker_flags_ok broker"
    and some: "0 < unat (df_MaxDataSize df)" and conn: "conn_good c"
    and honest: "cn_input c = Portion (honest_reply (broker_model broker) df coils regs) # rest"
  shows "snd (snd (snd (message oor broker (Some c) dials df))) =
    Some \<lparr>pvr_VariableSlice =
        frame_report (memory_value oor (df_FunctionCode df) (df_MemoryLayout df) coils regs) df,
      pvr_Err = []\<rparr>"
proof -
  let ?fc = "df_FunctionCode df"
  let ?p = "memory_payload ?fc coils regs (unat (df_StartAddress df)) (unat (df_MaxDataSize df))"
  obtain df' c' tail where ex: "exchange broker c df =
      (c', df', Some (Inr (payload_view ?fc (payload_length ?fc (unat (df_MaxDataSize df))) (?p @ tail))))"
    and same: "df_FunctionCode df' = ?fc" "df_Variables df' = df_Variables df"
      "df_StartAddress df' = df_StartAddress df" "df_MaxDataSize df' = df_MaxDataSize df"
      "df_MemoryLayout df' = df_MemoryLayout df"
    using honest_exchange [OF ready flags some conn honest] by blast
  have "frame_covers ?fc df'" using ready same by (simp add: frame_ready_def frame_covers_def)
  moreover have "is_coil_code ?fc \<or> is_register_code ?fc" using ready by (simp add: frame_ready_def)
  moreover have "?p = memory_payload ?fc coils regs (unat (df_StartAddress df')) (unat (df_MaxDataSize df'))"
    by (simp add: same)
  ultimately obtain df'' where "ParseVariableValue oor df' (payload_view ?fc (length ?p) (?p @ tail)) =
      Some (df'', frame_report (memory_value oor ?fc (df_MemoryLayout df') coils regs) df')"
    using parse_reads_memory [of ?fc df' ?p coils regs oor tail] same(1) by blast
  then show ?thesis
    using ex same
    by (simp add: message_def retry_def numeral_3_eq_3 message_report_def length_memory_payload
        frame_report_def frame_vars_def)
qed

section \<open>The theorems at a concrete frame\<close>

definition example_total :: ModbusVariable where
  "example_total = example_variable ''total'' INT32 3 100"

definition example_broker :: "string \<Rightarrow> unit ModbusBroker" where
  "example_broker model =
     \<lparr>mb_NeedCheckTransaction = (model = ''modbusTcp''), mb_NeedCheckCrc16Sum = (model \<noteq> ''modbusTcp''),
      mb_Device = example_modbus_device model 0 [example_total], mb_Clients = (),
      mb_FunctionCodeDataFrameMap = [], mb_VariableCount = 1\<rparr>"

definition example_frame :: "string \<Rightarrow> ModBusDataFrame" where
  "example_frame model =
     the (GenerateReadMessage model 1 3 100 2 [\<lparr>vp_Variable = example_total, vp_Start = 0\<rparr>] ABCD)"

lemma example_frame_generated:
  assumes "StringToModbusModel model = Some md"
  shows "GenerateReadMessage model 1 3 100 2 [\<lparr>vp_Variable = example_total, vp_Start = 0\<rparr>] ABCD =
    Some (example_frame model)"
  using GenerateReadMessage_total [of model 2 1 3 100] assms
  by (auto simp: example_frame_def)

lemma example_frame_ready:
  assumes "StringToModbusModel model = Some md"
  shows "frame_ready md (example_frame model)"
proof (rule planned_frame_ready [OF example_frame_generated [OF assms] _ _ _ _ assms])
  show "frame_covers 3 (example_frame model)"
    using GenerateReadMessage_fields [OF example_frame_generated [OF assms]]
    by (simp add: frame_covers_def example_total_def example_variable_def var_width_def cell_bytes_def
        is_coil_code_def)
  show "unat (df_MaxDataSize (example_frame model)) \<le> max_cells 3"
    using GenerateReadMessage_fields [OF example_frame_generated [OF assms]]
    by (simp add: max_cells_def is_coil_code_def)
qed (simp_all add: is_register_code_def)

lemma example_broker_flags:
  assumes "StringToModbusModel model = Some md"
  shows "broker_model (example_broker model) = md \<and> broker_flags_ok (example_broker model)"
proof -
  have "modbus_device_model (mb_Device (example_broker model)) = model"
    by (simp add: example_broker_def example_simps)
  then have "broker_model (example_broker model) = md" using assms by (simp add: broker_model_def)
  moreover have "model = ''modbusTcp'' \<longleftrightarrow> md = Tcp"
    using assms by (auto simp: StringToModbusModel_def split: if_splits)
  ultimately show ?thesis by (simp add: broker_flags_ok_def) (simp add: example_broker_def)
qed

text \<open>A server whose register \<open>100 + i\<close> holds \<open>i + 1\<close>: the variable is the number \<open>0x00010002\<close>.\<close>

definition example_regs :: "nat \<Rightarrow> u16" where
  "example_regs a = of_nat (a - 99)"

definition example_conn :: "io_event list \<Rightarrow> Conn" where
  "example_conn input = \<lparr>cn_writeFails = False, cn_deadlineFails = False, cn_input = input,
     cn_output = [], cn_closed = False\<rparr>"

lemma tcp_model: "StringToModbusModel ''modbusTcp'' = Some Tcp"
  and rtu_model: "StringToModbusModel ''modbusRtu'' = Some Rtu"
  by (simp_all add: StringToModbusModel_def)

lemma example_value:
  "memory_value oor 3 ABCD coils example_regs example_total = VInt32 0x00010002"
proof -
  have "register_payload example_regs 100 2 = [0, 1, 0, 2]"
  proof -
    have "[0..<2] = [0, 1 :: nat]" by (simp add: upt_conv_Cons)
    then show ?thesis by (simp add: register_payload_def example_regs_def Uint16ToBytesBigEndian_eq)
  qed
  moreover have "read_word32 ABCD [0, 1, 0, 2] = Some 0x00010002"
    by (simp add: read_word32_def ParseUint32BigEndian_def need_def)
  moreover have "\<not> rated f64_zero" by (simp add: rated_def f64_eval)
  ultimately show ?thesis
    by (simp add: memory_value_def register_value_def example_total_def example_variable_def is_coil_code_def)
qed

lemma message_reports_memory_witness:
  "snd (snd (snd (message (\<lambda>_ _ _. 0) (example_broker ''modbusTcp'')
      (Some (example_conn [Portion (honest_reply Tcp (example_frame ''modbusTcp'') (\<lambda>_. False) example_regs)]))
      [] (example_frame ''modbusTcp'')))) =
   Some \<lparr>pvr_VariableSlice = [reported (mv_SetValue (VInt32 0x00010002) example_total)], pvr_Err = []\<rparr>"
proof -
  note f = GenerateReadMessage_fields [OF example_frame_generated [OF tcp_model]]
  note b = example_broker_flags [OF tcp_model]
  show ?thesis
    using message_reports_memory [of "example_broker ''modbusTcp''" "example_frame ''modbusTcp''"
        "example_conn [Portion (honest_reply Tcp (example_frame ''modbusTcp'') (\<lambda>_. False) example_regs)]"
        "\<lambda>_. False" example_regs "[]" "\<lambda>_ _ _. 0" "[]"]
      example_frame_ready [OF tcp_model] f b
    by (simp add: conn_good_def example_conn_def frame_report_def frame_vars_def example_value)
qed


lemma corrupted_response_rejected_witness:
  "\<forall>bb'. ValidateAndExtractMessage (example_broker ''modbusRtu'')
     (example_frame ''modbusRtu''\<lparr>df_ResponseDataFrame :=
        [1, 3] @ 4 # 9 # drop 4 (with_crc (server_reply 1 3 [0, 1, 0, 2]))\<rparr>) \<noteq> Some (Inr bb')"
proof -
  let ?b = "example_broker ''modbusRtu''" and ?df = "example_frame ''modbusRtu''"
  let ?r = "with_crc (server_reply 1 3 [0, 1, 0, 2])"
  have flags: "\<not> mb_NeedCheckTransaction ?b" "mb_NeedCheckCrc16Sum ?b"
    using example_broker_flags [OF rtu_model] by (simp_all add: broker_flags_ok_def)
  have slave: "df_Slave ?df = 1"
    using GenerateReadMessage_fields [OF example_frame_generated [OF rtu_model]] by simp
  have "?r = [1, 3] @ 4 # 0 # drop 4 ?r" by (simp add: with_crc_def server_reply_def)
  moreover have "\<exists>bb. ValidateAndExtractMessage ?b (?df\<lparr>df_ResponseDataFrame := ?r\<rparr>) = Some (Inr bb)"
    using validate_adu_crc_reply [of 1 1 3 "[0, 1, 0, 2]"] by (simp add: ValidateAndExtractMessage_crc [OF flags] slave)
  ultimately obtain bb where
    "ValidateAndExtractMessage ?b (?df\<lparr>df_ResponseDataFrame := [1, 3] @ 4 # 0 # drop 4 ?r\<rparr>) = Some (Inr bb)"
    by metis
  then have "ValidateAndExtractMessage ?b (?df\<lparr>df_ResponseDataFrame := [1, 3] @ 4 # 9 # drop 4 ?r\<rparr>) \<noteq>
      Some (Inr bb')" for bb'
    by (rule corrupted_response_rejected [OF flags]) (simp_all add: server_reply_def)
  then show ?thesis by blast
qed

section \<open>A whole poll\<close>

lemma plan_codes_map:
  "plan_codes srt device codes = Some frames \<Longrightarrow>
   map fst frames = codes \<and> (\<forall>(c, dfs) \<in> set frames. plan_code srt device c = Some dfs)"
  by (induction codes arbitrary: frames) (auto simp: bind_eq_Some_conv)

text \<open>The results of a poll may arrive in any order; the report is the same up to order.\<close>

lemma rollVariable_result:
  "pvr_VariableSlice (rollVariable rs) = concat (map (\<lambda>r. if pvr_Err r = [] then pvr_VariableSlice r else []) rs) \<and>
   pvr_Err (rollVariable rs) = concat (map pvr_Err rs)"
proof -
  have "foldl roll_step (vs, es) rs =
      (vs @ concat (map (\<lambda>r. if pvr_Err r = [] then pvr_VariableSlice r else []) rs),
       es @ concat (map pvr_Err rs))" for vs es
    by (induction rs arbitrary: vs es) (auto simp: roll_step_def)
  then show ?thesis by (simp add: rollVariable_def)
qed

interpretation modbus_gather: gatherer pvr_VariableSlice pvr_Err rollVariable
  by unfold_locales (simp_all add: rollVariable_result)

text \<open>C24: The order in which the exchanges of a poll finish does not matter: two reports of the same
  exchanges hold the same variables with the same values and the same errors.\<close>

theorem poll_order_independent:
  assumes "poll oor broker jobs r" "poll oor broker jobs r'"
  shows "mset (pvr_VariableSlice r) = mset (pvr_VariableSlice r') \<and> mset (pvr_Err r) = mset (pvr_Err r')"
proof -
  from assms(1) obtain as where "mset as = mset (poll_results oor broker jobs)" "r = rollVariable as"
    by (auto elim: poll_elim)
  moreover from assms(2) obtain as' where "mset as' = mset (poll_results oor broker jobs)" "r' = rollVariable as'"
    by (auto elim: poll_elim)
  ultimately show ?thesis using modbus_gather.gather_perm [of as as'] by simp
qed

text \<open>A device description the plan handles: valid codes and slave, no position offset, addresses that do
  not wrap, and in each function code no variable that reaches beyond a later one.\<close>

definition device_ok :: "ModBusDevice \<Rightarrow> bool" where
  "device_ok device \<longleftrightarrow>
     unat (md_Slave device) < 256 \<and> md_PositionAddress device = 0 \<and>
     (\<forall>v \<in> set (md_Variables device). is_coil_code (mv_FunctionCode v) \<or> is_register_code (mv_FunctionCode v)) \<and>
     (\<forall>v \<in> set (md_Variables device). unat (mv_Address v) < 2 ^ 63) \<and>
     (\<forall>code. ends_ordered code (variables_of device code))"

text \<open>A job whose connection works and whose peer answers from the memory.\<close>

definition honest_job ::
  "ModbusModel \<Rightarrow> (byte \<Rightarrow> nat \<Rightarrow> bool) \<Rightarrow> (byte \<Rightarrow> nat \<Rightarrow> u16) \<Rightarrow> ModBusDataFrame \<times> Conn option \<times> Conn option list \<Rightarrow> bool" where
  "honest_job model coils regs job =
     (let df = fst job in
      \<exists>c rest. fst (snd job) = Some c \<and> conn_good c \<and>
        cn_input c = Portion (honest_reply model df (coils (df_FunctionCode df)) (regs (df_FunctionCode df))) # rest)"

definition reading ::
  "float_oor \<Rightarrow> MemoryLayout \<Rightarrow> (byte \<Rightarrow> nat \<Rightarrow> bool) \<Rightarrow> (byte \<Rightarrow> nat \<Rightarrow> u16) \<Rightarrow> ModbusVariable \<Rightarrow> ModbusVariable" where
  "reading oor ml coils regs v =
     reported (mv_SetValue (memory_value oor (mv_FunctionCode v) ml (coils (mv_FunctionCode v)) (regs (mv_FunctionCode v)) v) v)"

lemma NewBroker_frames:
  assumes "NewBroker srt newClients device = Some (Inr broker)"
  shows "plan_codes srt device (device_codes device) = Some (mb_FunctionCodeDataFrameMap broker) \<and>
    mb_Device broker = device"
  using assms by (auto simp: NewBroker_def Let_def bind_eq_Some_conv split: if_splits option.splits)

lemma device_plan:
  assumes ok: "device_ok device" and srt: "sorts_by_address srt"
    and plan: "plan_codes srt device (device_codes device) = Some frames"
    and model: "StringToModbusModel (modbus_device_model device) = Some md"
  shows "mset (concat (map frame_vars (concat (map snd frames)))) = mset (md_Variables device)"
    and "\<forall>df \<in> set (concat (map snd frames)). frame_ready md df \<and> df_Variables df \<noteq> [] \<and>
      df_MemoryLayout df = md_MemoryLayout device \<and>
      (\<forall>v \<in> set (frame_vars df). mv_FunctionCode v = df_FunctionCode df)"
proof -
  have known: "StringToModbusModel (modbus_device_model device) \<noteq> None" using model by simp
  have one: "mset (concat (map frame_vars dfs)) = mset (variables_of device c) \<and>
      (\<forall>df \<in> set dfs. frame_ready md df \<and> df_Variables df \<noteq> [] \<and>
        df_MemoryLayout df = md_MemoryLayout device \<and> df_FunctionCode df = c)"
    if c: "c \<in> set (device_codes device)" and run: "plan_code srt device c = Some dfs" for c dfs
  proof -
    have vars: "variables_of device c \<noteq> []" and code: "is_coil_code c \<or> is_register_code c"
      using c ok by (auto simp: device_codes_def variables_of_def device_ok_def filter_empty_conv)
    have "\<exists>dfs. plan_code srt device c = Some dfs \<and>
        mset (concat (map frame_vars dfs)) = mset (variables_of device c) \<and>
        (\<forall>df \<in> set dfs. frame_covers c df \<and> unat (df_MaxDataSize df) \<le> max_cells c \<and>
          (\<exists>s m vps. GenerateReadMessage (modbus_device_model device) (md_Slave device) c s m vps
            (md_MemoryLayout device) = Some df) \<and>
          (md_PositionAddress device = 0 \<longrightarrow> df_Variables df \<noteq> []))"
      using ok by (intro plan_code_frames known code vars srt) (auto simp: device_ok_def variables_of_def)
    with run have perm: "mset (concat (map frame_vars dfs)) = mset (variables_of device c)"
      and frames: "\<And>df. df \<in> set dfs \<Longrightarrow> frame_covers c df \<and> unat (df_MaxDataSize df) \<le> max_cells c \<and>
          (\<exists>s m vps. GenerateReadMessage (modbus_device_model device) (md_Slave device) c s m vps
            (md_MemoryLayout device) = Some df) \<and> df_Variables df \<noteq> []"
      using ok by (auto simp: device_ok_def)
    have "frame_ready md df \<and> df_Variables df \<noteq> [] \<and> df_MemoryLayout df = md_MemoryLayout device \<and>
        df_FunctionCode df = c" if df: "df \<in> set dfs" for df
    proof -
      obtain s m vps where gen: "GenerateReadMessage (modbus_device_model device) (md_Slave device) c s m vps
          (md_MemoryLayout device) = Some df" using frames [OF df] by blast
      have "frame_ready md df"
        using planned_frame_ready [OF gen code _ _ _ model] frames [OF df] ok by (simp add: device_ok_def)
      then show ?thesis using GenerateReadMessage_fields [OF gen] frames [OF df] by simp
    qed
    with perm show ?thesis by blast
  qed
  note map = plan_codes_map [OF plan]
  have each: "mset (concat (map frame_vars dfs)) = mset (variables_of device c)"
    "\<forall>df \<in> set dfs. frame_ready md df \<and> df_Variables df \<noteq> [] \<and>
        df_MemoryLayout df = md_MemoryLayout device \<and> df_FunctionCode df = c"
    if cf: "(c, dfs) \<in> set frames" for c dfs
  proof -
    have "c \<in> set (map fst frames)" using cf by force
    moreover have "plan_code srt device c = Some dfs" using cf map by auto
    ultimately show "mset (concat (map frame_vars dfs)) = mset (variables_of device c)"
      "\<forall>df \<in> set dfs. frame_ready md df \<and> df_Variables df \<noteq> [] \<and>
        df_MemoryLayout df = md_MemoryLayout device \<and> df_FunctionCode df = c"
      using one [of c dfs] map by auto
  qed
  have "mset (concat (map frame_vars (concat (map snd fs)))) =
      mset (concat (map (variables_of device) (map fst fs)))" if "set fs \<subseteq> set frames" for fs
    using that
  proof (induction fs)
    case (Cons f fs)
    then show ?case using each(1) [of "fst f" "snd f"] by simp
  qed simp
  from this [of frames] map
  have "mset (concat (map frame_vars (concat (map snd frames)))) =
      mset (concat (map (variables_of device) (device_codes device)))" by simp
  also have "\<dots> = mset (md_Variables device)"
    unfolding variables_of_def by (rule mset_by_key) (auto simp: device_codes_def)
  finally show perm: "mset (concat (map frame_vars (concat (map snd frames)))) = mset (md_Variables device)" .
  show "\<forall>df \<in> set (concat (map snd frames)). frame_ready md df \<and> df_Variables df \<noteq> [] \<and>
      df_MemoryLayout df = md_MemoryLayout device \<and>
      (\<forall>v \<in> set (frame_vars df). mv_FunctionCode v = df_FunctionCode df)"
  proof
    fix df assume "df \<in> set (concat (map snd frames))"
    then obtain c dfs where cf: "(c, dfs) \<in> set frames" "df \<in> set dfs" by auto
    have "set (frame_vars df) \<subseteq> set (variables_of device c)"
      using mset_eq_setD [OF each(1) [OF cf(1)]] cf(2) by auto
    with each(2) [OF cf(1)] cf(2) show "frame_ready md df \<and> df_Variables df \<noteq> [] \<and>
      df_MemoryLayout df = md_MemoryLayout device \<and>
      (\<forall>v \<in> set (frame_vars df). mv_FunctionCode v = df_FunctionCode df)"
      by (auto simp: variables_of_def)
  qed
qed

lemma ready_frame_size: "frame_ready md df \<Longrightarrow> df_Variables df \<noteq> [] \<Longrightarrow> 0 < unat (df_MaxDataSize df)"
proof -
  assume "frame_ready md df" "df_Variables df \<noteq> []"
  then obtain vp where "vp \<in> set (df_Variables df)" and covers: "frame_covers (df_FunctionCode df) df"
    by (metis frame_ready_def list.set_sel(1))
  moreover have "1 \<le> var_width (df_FunctionCode df) (vp_Variable vp)"
    using DataTypeWord_range [of "mv_DataType (vp_Variable vp)"] by (simp add: var_width_def)
  ultimately show ?thesis by (fastforce simp: frame_covers_def Let_def)
qed


section \<open>The theorems on a concrete device\<close>

definition poll_example :: ModBusDevice where
  "poll_example = example_modbus_device ''modbusTcp'' 0
     [example_total, example_variable ''mode'' UINT16 3 7, example_variable ''on'' BOOL 1 3]"

lemma poll_example_fields:
  "md_Variables poll_example =
     [example_total, example_variable ''mode'' UINT16 3 7, example_variable ''on'' BOOL 1 3]"
  "modbus_device_model poll_example = ''modbusTcp''"
  "md_PositionAddress poll_example = 0" "md_Slave poll_example = 1" "md_MemoryLayout poll_example = ABCD"
  unfolding poll_example_def by (simp_all add: example_simps)

lemma poll_example_ok: "device_ok poll_example"
  unfolding device_ok_def poll_example_fields variables_of_def
  by (auto simp: ends_ordered_def example_total_def example_variable_def is_register_code_def
      is_coil_code_def var_width_def)

lemma poll_example_broker:
  "\<exists>broker. NewBroker (sort_key mv_Address) (\<lambda>_ _ _. Some ()) poll_example = Some (Inr broker)"
proof -
  let ?srt = "sort_key mv_Address"
  have "\<exists>dfs. plan_code ?srt poll_example c = Some dfs \<and>
      mset (concat (map frame_vars dfs)) = mset (variables_of poll_example c)"
    if "c \<in> set (device_codes poll_example)" for c
  proof -
    have "variables_of poll_example c \<noteq> []" "is_coil_code c \<or> is_register_code c"
      using that poll_example_ok by (auto simp: device_codes_def variables_of_def device_ok_def filter_empty_conv)
    then show ?thesis
      using plan_code_frames [of poll_example c ?srt] poll_example_ok sorts_by_address_sort_key tcp_model
      by (auto simp: device_ok_def variables_of_def poll_example_fields)
  qed
  note each = this
  have "\<exists>frames. plan_codes ?srt poll_example cs = Some frames" if "set cs \<subseteq> set (device_codes poll_example)" for cs
    using that by (induction cs) (auto dest!: each)
  then obtain frames where frames: "plan_codes ?srt poll_example (device_codes poll_example) = Some frames" by blast
  have "mset (concat (map frame_vars (concat (map snd frames)))) = mset (md_Variables poll_example)"
    using device_plan(1) [OF poll_example_ok sorts_by_address_sort_key frames] tcp_model
    by (simp add: poll_example_fields)
  then have "concat (map snd frames) \<noteq> []"
    by (metis concat.simps(1) list.map(1) list.discI mset_zero_iff_right poll_example_fields(1) mset.simps(1))
  then have "sum_list (map (length \<circ> snd) frames) \<noteq> 0"
    by (metis length_0_conv length_concat map_map)
  then show ?thesis by (simp add: NewBroker_def frames Let_def)
qed

definition example_coils :: "byte \<Rightarrow> nat \<Rightarrow> bool" where
  "example_coils code a = (a = 3)"

definition example_jobs :: "unit ModbusBroker \<Rightarrow> (ModBusDataFrame \<times> Conn option \<times> Conn option list) list" where
  "example_jobs broker = map (\<lambda>df. (df, Some (example_conn [Portion (honest_reply Tcp df
       (example_coils (df_FunctionCode df)) example_regs)]), []))
     (concat (map snd (mb_FunctionCodeDataFrameMap broker)))"

lemma example_jobs_honest: "\<forall>job \<in> set (example_jobs broker). honest_job Tcp example_coils (\<lambda>_. example_regs) job"
  by (auto simp: example_jobs_def honest_job_def Let_def conn_good_def example_conn_def)

lemma example_poll: "poll oor broker (example_jobs broker) (rollVariable (poll_results oor broker (example_jobs broker)))"
  by (rule poll_report) (simp_all add: example_jobs_def comp_def)

lemma example_poll_rev: "poll oor broker (example_jobs broker) (rollVariable (rev (poll_results oor broker (example_jobs broker))))"
  by (rule poll_report) (simp_all add: example_jobs_def comp_def)


lemma poll_order_independent_witness:
  "\<exists>broker r r'. NewBroker (sort_key mv_Address) (\<lambda>_ _ _. Some ()) poll_example = Some (Inr broker) \<and>
     r = rollVariable (poll_results (\<lambda>_ _ _. 0) broker (example_jobs broker)) \<and>
     r' = rollVariable (rev (poll_results (\<lambda>_ _ _. 0) broker (example_jobs broker))) \<and>
     mset (pvr_VariableSlice r) = mset (pvr_VariableSlice r')"
proof -
  obtain broker where b: "NewBroker (sort_key mv_Address) (\<lambda>_ _ _. Some ()) poll_example = Some (Inr broker)"
    using poll_example_broker by blast
  from poll_order_independent [OF example_poll [of "\<lambda>_ _ _. 0" broker] example_poll_rev] b show ?thesis by blast
qed

end
