(* ===== verification/S7Model.thy ===== *)
theory S7Model
  imports S7Types ModbusIO
begin

text \<open>
  Model of \<^verbatim>\<open>pkg/protocol/s7/model/s71500.go\<close>: the two messages that open a connection to a controller,
  and the handshake that sends them and reads the PDU length the controller grants. A connection is
  the one of \<open>ModbusIO\<close>; \<open>dialed\<close> is the result of \<^verbatim>\<open>net.Dial\<close>.
\<close>

definition newCOTPConnectMessage :: "byte \<Rightarrow> byte \<Rightarrow> byte list" where
  "newCOTPConnectMessage rack slot =
     (let rackSlotByte = push_bit 4 (rack * 2) + slot
      in [0x03, 0x00, 0x00, 0x16,
          0x11, 0xe0, 0x00, 0x00, 0x00, 0x01, 0x00,
          0xc0, 0x01, 0x0a,
          0xc1, 0x02, 0x01, 0x00,
          0xc2, 0x02, 0x01, rackSlotByte])"

definition newS7COMMSetupMessage :: "byte list" where
  "newS7COMMSetupMessage =
     [0x03, 0x00, 0x00, 0x19,
      0x02, 0xf0, 0x80,
      0x32, 0x01, 0x00, 0x00, 0x04, 0x00, 0x00, 0x08, 0x00, 0x00,
      0xf0, 0x00, 0x00, 0x01, 0x00, 0x01, 0x01, 0xe0]"

text \<open>The errors of the handshake: a failed write or read, or one of the two refusals.\<close>

datatype handshake_error = HandshakeDial | HandshakeIO | HandshakeRefused s7_error

definition tunnel_write :: "Conn \<Rightarrow> byte list \<Rightarrow> Conn option" where
  "tunnel_write c bs =
     (if cn_writeFails c \<or> cn_closed c then None else Some (c\<lparr>cn_output := cn_output c @ [bs]\<rparr>))"

definition tunnel_read :: "Conn \<Rightarrow> nat \<Rightarrow> Conn \<times> byte list option" where
  "tunnel_read c n =
     (let (input, buf, res) = io_ReadAtLeast (replicate n 0) n (cn_input c)
      in (c\<lparr>cn_input := input\<rparr>, case res of Inr _ \<Rightarrow> Some buf | Inl _ \<Rightarrow> None))"

text \<open>The exchange of the two messages, which \<open>GetS7DevicePDULength\<close> and \<open>newS7Messenger\<close> both write out; it
  yields the response to the second.\<close>

definition s7_handshake :: "byte \<Rightarrow> byte \<Rightarrow> Conn \<Rightarrow> Conn \<times> (handshake_error + byte list)" where
  "s7_handshake rack slot tunnel =
     (case tunnel_write tunnel (newCOTPConnectMessage rack slot) of
        None \<Rightarrow> (tunnel, Inl HandshakeIO)
      | Some tunnel \<Rightarrow>
          (case tunnel_read tunnel 22 of
             (tunnel, None) \<Rightarrow> (tunnel, Inl HandshakeIO)
           | (tunnel, Some cotpResponse) \<Rightarrow>
               if uint (cotpResponse ! 5) \<noteq> 208 then (tunnel, Inl (HandshakeRefused S7ConnectCotp))
               else (case tunnel_write tunnel newS7COMMSetupMessage of
                   None \<Rightarrow> (tunnel, Inl HandshakeIO)
                 | Some tunnel \<Rightarrow>
                     (case tunnel_read tunnel 27 of
                        (tunnel, None) \<Rightarrow> (tunnel, Inl HandshakeIO)
                      | (tunnel, Some s7Response) \<Rightarrow>
                          if s7Response ! 8 \<noteq> 3 then (tunnel, Inl (HandshakeRefused S7ConnectS7COMM))
                          else (tunnel, Inr s7Response)))))"

text \<open>The connection is closed on every path once it is open.\<close>

definition GetS7DevicePDULength :: "Conn option \<Rightarrow> S7Address \<Rightarrow> Conn option \<times> (handshake_error + u16) option" where
  "GetS7DevicePDULength dialed address =
     (case dialed of
        None \<Rightarrow> (None, Some (Inl HandshakeDial))
      | Some tunnel \<Rightarrow>
          let (tunnel, res) = s7_handshake (so_Rack (sa_Option address)) (so_Slot (sa_Option address)) tunnel
          in (Some (Messenger_Close tunnel),
              case res of
                Inl e \<Rightarrow> Some (Inl e)
              | Inr s7Response \<Rightarrow> do { responsePduLength \<leftarrow> slice_from s7Response 25;
                                       map_option Inr (ParseUint16 responsePduLength) }))"

definition newS7Messenger :: "byte \<Rightarrow> byte \<Rightarrow> Conn option \<Rightarrow> Conn option \<times> (handshake_error + Conn)" where
  "newS7Messenger rack slot dialed =
     (case dialed of
        None \<Rightarrow> (None, Inl HandshakeDial)
      | Some tunnel \<Rightarrow>
          let (tunnel, res) = s7_handshake rack slot tunnel
          in (Some tunnel, case res of Inl e \<Rightarrow> Inl e | Inr _ \<Rightarrow> Inr tunnel))"

section \<open>What the handshake achieves\<close>

lemma tunnel_read_length: "tunnel_read c n = (c', Some buf) \<Longrightarrow> length buf = n"
  using read_at_least_inv [of 0 "replicate n 0" n "cn_input c"]
  by (fastforce simp: tunnel_read_def io_ReadAtLeast_def split: prod.splits sum.splits)

lemma tunnel_read_portion:
  assumes "cn_input c = Portion bs # evs" "length bs = n" "0 < n"
  shows "tunnel_read c n = (c\<lparr>cn_input := evs\<rparr>, Some bs)"
  using assms by (cases evs) (simp_all add: tunnel_read_def io_ReadAtLeast_def Let_def)

lemma s7_handshake_response_length: "s7_handshake rack slot c = (c', Inr resp) \<Longrightarrow> length resp = 27"
  by (auto simp: s7_handshake_def split: option.splits prod.splits if_splits dest: tunnel_read_length)

lemma s7_handshake_sends:
  assumes "s7_handshake rack slot c = (c', Inr resp)"
  shows "cn_output c' = cn_output c @ [newCOTPConnectMessage rack slot, newS7COMMSetupMessage]"
  using assms by (auto simp: s7_handshake_def tunnel_write_def tunnel_read_def Let_def
      split: option.splits prod.splits if_splits sum.splits)

text \<open>C27: The handshake never panics, whatever the controller sends: a PDU length is returned only after both
  messages were sent, in order; the rack and the slot in the first of them are the configured ones as long
  as the rack is below 8 and the slot below 32; and the connection that was opened is closed.\<close>

theorem pdu_length_handshake:
  "case GetS7DevicePDULength (Some c) address of
     (closed, r) \<Rightarrow>
       r \<noteq> None \<and> map_option cn_closed closed = Some True \<and>
       (case r of
          Some (Inr pdu) \<Rightarrow>
            map_option cn_output closed = Some (cn_output c @
              [newCOTPConnectMessage (so_Rack (sa_Option address)) (so_Slot (sa_Option address)), newS7COMMSetupMessage]) \<and>
            (so_Rack (sa_Option address) < 8 \<and> so_Slot (sa_Option address) < 32 \<longrightarrow>
               (let tsap = newCOTPConnectMessage (so_Rack (sa_Option address)) (so_Slot (sa_Option address)) ! 21
                in drop_bit 5 tsap = so_Rack (sa_Option address) \<and> take_bit 5 tsap = so_Slot (sa_Option address)))
        | _ \<Rightarrow> True)"
proof -
  let ?rack = "so_Rack (sa_Option address)" and ?slot = "so_Slot (sa_Option address)"
  obtain c' res where h: "s7_handshake ?rack ?slot c = (c', res)" by force
  have "\<exists>pdu. ParseUint16 (drop 25 resp) = Some pdu" if "length resp = 27" for resp
    using that by (simp add: ParseUint16_def need_def)
  moreover have "drop_bit 5 (push_bit 4 (r * 2) + s) = r \<and> take_bit 5 (push_bit 4 (r * 2) + s) = s"
    if "r < 8" "s < 32" for r s :: byte
  proof -
    have "unat r < 8" "unat s < 32" using that by (simp_all add: word_less_nat_alt)
    then have "unat (push_bit 4 (r * 2) + s) = 32 * unat r + unat s"
      by (simp add: push_bit_eq_mult unat_word_ariths)
    then show ?thesis
      using \<open>unat s < 32\<close> by (simp add: word_unat_eq_iff unat_drop_bit_eq unsigned_take_bit_eq drop_bit_eq_div take_bit_eq_mod unat_div unat_mod)
  qed
  moreover have "newCOTPConnectMessage r s ! 21 = push_bit 4 (r * 2) + s" for r s
    by (simp add: newCOTPConnectMessage_def)
  ultimately show ?thesis
    using h s7_handshake_sends [of ?rack ?slot c c'] s7_handshake_response_length [of ?rack ?slot c c']
    by (cases res) (fastforce simp: GetS7DevicePDULength_def slice_from_def Messenger_Close_def Let_def split: option.splits)+
qed

text \<open>An example: the controller confirms the connection and grants a PDU length.\<close>

definition s7_greeting :: "byte \<Rightarrow> byte \<Rightarrow> io_event list" where
  "s7_greeting hi lo =
     [Portion [3, 0, 0, 22, 17, 208, 0, 0, 0, 0, 0, 0, 0, 0, 0, 0, 0, 0, 0, 0, 0, 0],
      Portion [3, 0, 0, 27, 2, 0xf0, 0x80, 0x32, 3, 0, 0, 4, 0, 0, 8, 0, 0, 0, 0, 0xf0, 0, 0, 1, 0, 1, hi, lo]]"

definition example_plc :: S7Address where
  "example_plc = \<lparr>sa_Location = ''plc'', sa_Option = \<lparr>so_Port = 102, so_Rack = 1, so_Slot = 2\<rparr>\<rparr>"

definition example_tunnel :: "io_event list \<Rightarrow> Conn" where
  "example_tunnel input =
     \<lparr>cn_writeFails = False, cn_deadlineFails = False, cn_input = input, cn_output = [], cn_closed = False\<rparr>"

lemma s7_greeting_handshake:
  "\<exists>c resp. s7_handshake rack slot (example_tunnel (s7_greeting hi lo)) = (c, Inr resp) \<and> drop 25 resp = [hi, lo]"
  by (simp add: s7_handshake_def tunnel_write_def tunnel_read_portion s7_greeting_def example_tunnel_def)

lemma pdu_length_handshake_witness:
  "(\<exists>c. GetS7DevicePDULength (Some (example_tunnel (s7_greeting 1 0xe0))) example_plc = (Some c, Some (Inr 480)) \<and>
     cn_output c = [newCOTPConnectMessage 1 2, newS7COMMSetupMessage]) \<and>
   drop_bit 5 (newCOTPConnectMessage 1 2 ! 21) = 1"
proof -
  obtain c resp where h: "s7_handshake 1 2 (example_tunnel (s7_greeting 1 0xe0)) = (c, Inr resp)" and
    d: "drop 25 resp = [1, 0xe0]" using s7_greeting_handshake by blast
  then have "GetS7DevicePDULength (Some (example_tunnel (s7_greeting 1 0xe0))) example_plc =
      (Some (Messenger_Close c), Some (Inr 480))"
    using s7_handshake_response_length [OF h]
    by (simp add: GetS7DevicePDULength_def example_plc_def slice_from_def ParseUint16_def need_def)
  then show ?thesis
    using pdu_length_handshake [of "example_tunnel (s7_greeting 1 0xe0)" example_plc]
    by (simp add: example_tunnel_def example_plc_def Let_def)
qed

end
