(* ===== verification/S7Plan.thy ===== *)
theory S7Plan
  imports S7Model Response
begin

text \<open>
  Model of the planning half of \<^verbatim>\<open>pkg/protocol/s7/s7broker.go\<close>: \<open>NewBroker\<close> groups the variables by
  store area, sorts them by address and packs them into read frames, at most as many items to a frame
  as the negotiated PDU length allows. Variables with the same byte address share the item of the first
  of them. \<^verbatim>\<open>sort.Sort\<close> is not stable, so the sorting function is a parameter; an address that cannot
  be taken apart panics in the loop, whether or not the sort has compared it before.
\<close>

section \<open>Frames\<close>

record S7Item =
  it_RequestData :: "byte list"
  it_StartAddress :: uint

record S7VariableParse =
  svp_Variable :: S7Variable
  svp_StartAddress :: uint
  svp_BitAddressOrLength :: byte
  svp_BlockSize :: uint

record S7DataFrame =
  sf_Zone :: S7StoreArea
  sf_DataFrame :: "byte list"
  sf_ItemCount :: byte
  sf_DataLength :: int
  sf_ResponseDataFrame :: "byte list"
  sf_Variables :: "S7VariableParse list"

definition newS7COMMReadParameterItem :: "byte \<Rightarrow> u16 \<Rightarrow> u16 \<Rightarrow> byte \<Rightarrow> u32 \<Rightarrow> byte \<Rightarrow> byte list" where
  "newS7COMMReadParameterItem transportSize len dbNumber zone address bitAddress =
     [0x12, 0x0a, 0x10, transportSize] @ Uint16ToBytesBigEndian len @ Uint16ToBytesBigEndian dbNumber @
     [zone,
      ucast (push_bit 3 address div 256 div 256),
      ucast (push_bit 3 address div 256 mod 256),
      ucast (push_bit 3 address mod 256) + bitAddress]"

definition newS7DataFrame :: "S7StoreArea \<Rightarrow> S7VariableParse list \<Rightarrow> S7Item list \<Rightarrow> int \<Rightarrow> u16 \<Rightarrow> S7DataFrame" where
  "newS7DataFrame key variableParse items dataLength pdu =
     (let maxBytes = 7 + 10 + 2 + length items * 12;
          data = [0x03, 0x00, 0x00, of_nat maxBytes] @ [0x02, 0xf0, 0x80] @
                 [0x32, 0x01, 0x00, 0x00, 0x00, 0x01] @
                 Uint16ToBytesBigEndian (of_nat (2 + length items * 12)) @ Uint16ToBytesBigEndian 0 @
                 [4, of_nat (length items)] @ concat (map it_RequestData items)
      in \<lparr>sf_Zone = key, sf_DataFrame = data, sf_ItemCount = of_nat (length items),
          sf_DataLength = dataLength, sf_ResponseDataFrame = replicate (unat pdu) 0,
          sf_Variables = variableParse\<rparr>)"

section \<open>The packing loop\<close>

text \<open>The variables of the loop over the variables of one area.\<close>

record s7_packing =
  pk_itemMap :: "string \<Rightarrow> S7Item option"
  pk_items :: "S7Item list"
  pk_variableParses :: "S7VariableParse list"
  pk_startAddressOffset :: int
  pk_dataFrames :: "S7DataFrame list"

definition packing_start :: "S7DataFrame list \<Rightarrow> s7_packing" where
  "packing_start dfs =
     \<lparr>pk_itemMap = (\<lambda>_. None), pk_items = [], pk_variableParses = [], pk_startAddressOffset = 0, pk_dataFrames = dfs\<rparr>"

definition address_key :: "S7StoreArea \<Rightarrow> uint \<Rightarrow> u32 \<Rightarrow> string" where
  "address_key zone blockSize startAddress =
     Sprintf ''%s.%d.%d'' [AStr (case StoreAddressToString zone of Some s \<Rightarrow> s | None \<Rightarrow> ''''),
       AInt (uint blockSize), AInt (uint startAddress)]"

definition pack_variable :: "S7StoreArea \<Rightarrow> S7Variable \<Rightarrow> s7_packing \<Rightarrow> s7_packing option" where
  "pack_variable key variable s =
     do { (zone, blockSize, startAddress, bitAddress) \<leftarrow> ParseVariableAddress variable;
          let offset = uint (4 + DataResponseLength variable key);
          let addressKey = address_key zone blockSize startAddress;
          let parse = (\<lambda>it. \<lparr>svp_Variable = variable, svp_StartAddress = it_StartAddress it,
                             svp_BitAddressOrLength = bitAddress, svp_BlockSize = blockSize\<rparr>);
          Some (case pk_itemMap s addressKey of
              None \<Rightarrow>
                let it = \<lparr>it_RequestData = newS7COMMReadParameterItem (StoreAreaTransportSize key)
                            (DataRequestLength variable key) (ucast blockSize) (StoreAreaCode key)
                            startAddress bitAddress,
                          it_StartAddress = word_of_int (pk_startAddressOffset s)\<rparr>
                in s\<lparr>pk_startAddressOffset := pk_startAddressOffset s + offset,
                     pk_itemMap := (pk_itemMap s)(addressKey \<mapsto> it),
                     pk_items := pk_items s @ [it],
                     pk_variableParses := pk_variableParses s @ [parse it]\<rparr>
            | Some item \<Rightarrow> s\<lparr>pk_variableParses := pk_variableParses s @ [parse item]\<rparr>) }"

definition flush_frame :: "S7StoreArea \<Rightarrow> u16 \<Rightarrow> s7_packing \<Rightarrow> S7DataFrame" where
  "flush_frame key maxPdu s =
     newS7DataFrame key (pk_variableParses s) (pk_items s) (pk_startAddressOffset s) maxPdu"

definition maxItemPerDataFrame :: "u16 \<Rightarrow> u16" where
  "maxItemPerDataFrame maxPdu = (maxPdu - 19) div 12"

primrec pack_variables :: "S7StoreArea \<Rightarrow> u16 \<Rightarrow> S7Variable list \<Rightarrow> s7_packing \<Rightarrow> s7_packing option" where
  "pack_variables key maxPdu [] s = Some s"
| "pack_variables key maxPdu (variable # variables) s =
     do { s \<leftarrow> pack_variable key variable s;
          pack_variables key maxPdu variables
            (if of_nat (length (pk_items s)) = maxItemPerDataFrame maxPdu
             then packing_start (pk_dataFrames s @ [flush_frame key maxPdu s])
             else s) }"

definition s7_area_frames :: "S7StoreArea \<Rightarrow> u16 \<Rightarrow> S7Variable list \<Rightarrow> S7DataFrame list option" where
  "s7_area_frames key maxPdu variables =
     do { s \<leftarrow> pack_variables key maxPdu variables (packing_start []);
          Some (if pk_items s \<noteq> [] then pk_dataFrames s @ [flush_frame key maxPdu s] else pk_dataFrames s) }"

section \<open>The broker\<close>

primrec s7_plan :: "(S7Variable list \<Rightarrow> S7Variable list) \<Rightarrow> u16 \<Rightarrow> S7Variable list \<Rightarrow> S7StoreArea list \<Rightarrow>
    (S7StoreArea \<times> S7DataFrame list) list option" where
  "s7_plan srt maxPdu variables [] = Some []"
| "s7_plan srt maxPdu variables (key # keys) =
     do { dataFrames \<leftarrow> s7_area_frames key maxPdu (srt (filter (\<lambda>v. Zone v = key) variables));
          rest \<leftarrow> s7_plan srt maxPdu variables keys;
          Some ((key, dataFrames) # rest) }"

record 'c S7Broker =
  sb_Device :: S7Device
  sb_Clients :: 'c
  sb_StoreAddressDataFrameMap :: "(S7StoreArea \<times> S7DataFrame list) list"
  sb_VariableCount :: nat

text \<open>\<open>dialed\<close> is the connection over which the PDU length is asked, \<open>newClients\<close> is \<open>NewClients\<close> of the model.
  A device model without an entry in \<open>S7Modelers\<close> is a nil interface, whose call panics.\<close>

definition S7_NewBroker ::
  "(S7Variable list \<Rightarrow> S7Variable list) \<Rightarrow> Conn option \<Rightarrow> (S7Address \<Rightarrow> nat \<Rightarrow> 'c option) \<Rightarrow> S7Device \<Rightarrow>
   (broker_error + 'c S7Broker) option" where
  "S7_NewBroker srt dialed newClients device =
     (if dm_DeviceModel (sd_DeviceMeta device) \<noteq> ''s71500'' then None
      else do {
        pdu \<leftarrow> snd (GetS7DevicePDULength dialed (sd_Address device));
        case pdu of
          Inl _ \<Rightarrow> Some (Inl ErrConnectDevice)
        | Inr maxPduLength \<Rightarrow>
            do { frames \<leftarrow> s7_plan srt maxPduLength (sd_Variables device) (remdups (map Zone (sd_Variables device)));
                 let dataFrameCount = sum_list (map (length \<circ> snd) frames);
                 Some (if dataFrameCount = 0 then Inl ErrDeviceEmptyVariable
                       else case newClients (sd_Address device) dataFrameCount of
                         None \<Rightarrow> Inl ErrConnectDevice
                       | Some clients \<Rightarrow>
                           Inr \<lparr>sb_Device = device, sb_Clients = clients, sb_StoreAddressDataFrameMap = frames,
                                sb_VariableCount = length (sd_Variables device)\<rparr>) } })"

section \<open>What a frame holds\<close>

text \<open>The place of a variable: the data block and the byte, and the bit.\<close>

definition s7_place :: "S7Variable \<Rightarrow> uint \<times> u32" where
  "s7_place v = (case ParseVariableAddress v of Some (_, block, address, _) \<Rightarrow> (block, address) | None \<Rightarrow> (0, 0))"

definition s7_bit :: "S7Variable \<Rightarrow> byte" where
  "s7_bit v = (case ParseVariableAddress v of Some (_, _, _, b) \<Rightarrow> b | None \<Rightarrow> 0)"

text \<open>The items for a list of variables with different places, the first answer starting at \<open>off\<close>.\<close>

definition answer_length :: "S7StoreArea \<Rightarrow> S7Variable \<Rightarrow> int" where
  "answer_length key v = uint (4 + DataResponseLength v key)"

definition item_of :: "S7StoreArea \<Rightarrow> S7Variable \<Rightarrow> int \<Rightarrow> S7Item" where
  "item_of key v off =
     \<lparr>it_RequestData = newS7COMMReadParameterItem (StoreAreaTransportSize key) (DataRequestLength v key)
        (ucast (fst (s7_place v))) (StoreAreaCode key) (snd (s7_place v)) (s7_bit v),
      it_StartAddress = word_of_int off\<rparr>"

fun items_of :: "S7StoreArea \<Rightarrow> S7Variable list \<Rightarrow> int \<Rightarrow> S7Item list" where
  "items_of key [] off = []"
| "items_of key (v # vs) off = item_of key v off # items_of key vs (off + answer_length key v)"

text \<open>The offset of the answer for the \<open>i\<close>-th item.\<close>

definition answer_offset :: "S7StoreArea \<Rightarrow> S7Variable list \<Rightarrow> nat \<Rightarrow> int" where
  "answer_offset key hs i = sum_list (map (answer_length key) (take i hs))"

lemma length_items_of [simp]: "length (items_of key hs off) = length hs"
  by (induction key hs off rule: items_of.induct) auto

lemma items_of_nth: "i < length hs \<Longrightarrow> items_of key hs off ! i = item_of key (hs ! i) (off + answer_offset key hs i)"
proof (induction key hs off arbitrary: i rule: items_of.induct)
  case (2 key v vs off)
  then show ?case by (cases i) (simp_all add: answer_offset_def add.assoc)
qed simp

lemma items_of_append: "items_of key (hs @ ks) off = items_of key hs off @ items_of key ks (off + answer_offset key hs (length hs))"
  by (induction key hs off rule: items_of.induct) (simp_all add: answer_offset_def add.assoc)

text \<open>A parse refers to the head with its place.\<close>

definition parse_ok :: "S7StoreArea \<Rightarrow> S7Variable list \<Rightarrow> S7VariableParse \<Rightarrow> bool" where
  "parse_ok key hs vp \<longleftrightarrow>
     (\<exists>i < length hs. s7_place (hs ! i) = s7_place (svp_Variable vp) \<and>
        svp_StartAddress vp = word_of_int (answer_offset key hs i)) \<and>
     svp_BitAddressOrLength vp = s7_bit (svp_Variable vp)"

text \<open>The heads: one variable for every place, the first of the frame.\<close>

definition heads_ok :: "S7StoreArea \<Rightarrow> S7Variable list \<Rightarrow> bool" where
  "heads_ok key hs \<longleftrightarrow> distinct (map s7_place hs) \<and> (\<forall>h \<in> set hs. Zone h = key)"

definition packing_ok :: "S7StoreArea \<Rightarrow> S7Variable list \<Rightarrow> S7Variable list \<Rightarrow> s7_packing \<Rightarrow> bool" where
  "packing_ok key hs vs s \<longleftrightarrow>
     heads_ok key hs \<and> set hs \<subseteq> set vs \<and>
     pk_items s = items_of key hs 0 \<and>
     pk_startAddressOffset s = answer_offset key hs (length hs) \<and>
     (\<forall>block address. pk_itemMap s (address_key key block address) =
        map_of (zip (map s7_place hs) (items_of key hs 0)) (block, address)) \<and>
     map svp_Variable (pk_variableParses s) = vs \<and>
     (\<forall>vp \<in> set (pk_variableParses s). parse_ok key hs vp)"

text \<open>The bound on the items of a frame; a PDU of less than 31 bytes allows for no item at all.\<close>

definition few_heads :: "u16 \<Rightarrow> S7Variable list \<Rightarrow> bool" where
  "few_heads pdu hs \<longleftrightarrow>
     (0 < unat (maxItemPerDataFrame pdu) \<longrightarrow> length hs \<le> unat (maxItemPerDataFrame pdu))"

definition s7_frame_ok :: "S7StoreArea \<Rightarrow> u16 \<Rightarrow> S7DataFrame \<Rightarrow> bool" where
  "s7_frame_ok key pdu df \<longleftrightarrow>
     (\<exists>hs. hs \<noteq> [] \<and> heads_ok key hs \<and> few_heads pdu hs \<and> set hs \<subseteq> set (map svp_Variable (sf_Variables df)) \<and>
        df = newS7DataFrame key (sf_Variables df) (items_of key hs 0) (answer_offset key hs (length hs)) pdu \<and>
        (\<forall>vp \<in> set (sf_Variables df). parse_ok key hs vp))"

lemma address_key_eq: "address_key key b a =
  (case StoreAddressToString key of Some s \<Rightarrow> s) @ ''.'' @ show_int (uint b) @ ''.'' @ show_int (uint a)"
  by (cases key) (simp_all add: address_key_def StoreAddressToString_def)

lemma show_int_uint: "show_int (uint (w :: 'a :: len word)) = show_nat (unat w)"
  by (simp add: show_int_def)

lemma address_key_inj: "address_key key b a = address_key key b' a' \<longleftrightarrow> b = b' \<and> a = a'"
proof
  assume "address_key key b a = address_key key b' a'"
  then have eq: "show_nat (unat b) @ CHR ''.'' # show_nat (unat a) = show_nat (unat b') @ CHR ''.'' # show_nat (unat a')"
    by (simp add: address_key_eq show_int_uint)
  then have "str_split CHR ''.'' (show_nat (unat b) @ CHR ''.'' # show_nat (unat a)) =
      str_split CHR ''.'' (show_nat (unat b') @ CHR ''.'' # show_nat (unat a'))" by simp
  then have "show_nat (unat b) = show_nat (unat b')" "show_nat (unat a) = show_nat (unat a')"
    by (simp_all add: str_split_append str_split_none)
  then show "b = b' \<and> a = a'" by (auto simp: word_unat_eq_iff dest!: show_nat_inj)
qed simp

lemma packing_ok_start: "packing_ok key [] [] (packing_start dfs)"
  by (simp add: packing_ok_def packing_start_def heads_ok_def answer_offset_def)

lemma parse_ok_more: "parse_ok key hs vp \<Longrightarrow> parse_ok key (hs @ ks) vp"
  by (auto simp: parse_ok_def nth_append answer_offset_def intro: exI [of _ i for i])

lemma place_of: "ParseVariableAddress v = Some (zone, block, address, b) \<Longrightarrow>
    s7_place v = (block, address) \<and> s7_bit v = b \<and> zone = Zone v"
  by (auto simp: s7_place_def s7_bit_def ParseVariableAddress_def parse_s7_address_def Zone_def Let_def bind_eq_Some_conv
      split: if_splits)

lemma map_of_zip_nth:
  assumes "length xs = length ys" "distinct xs"
  shows "map_of (zip xs ys) k = Some y \<longleftrightarrow> (\<exists>i < length xs. xs ! i = k \<and> ys ! i = y)"
  using assms by (auto simp: map_of_eq_Some_iff in_set_zip)

lemma map_of_zip_snoc:
  "length xs = length ys \<Longrightarrow> x \<notin> set xs \<Longrightarrow> map_of (zip (xs @ [x]) (ys @ [y])) = (map_of (zip xs ys))(x \<mapsto> y)"
  by (induction xs ys rule: list_induct2) auto

lemma pack_variable_ok:
  assumes ok: "packing_ok key hs vs s" and p: "pack_variable key v s = Some s'" and z: "Zone v = key"
  shows "\<exists>hs'. hs' \<noteq> [] \<and> packing_ok key hs' (vs @ [v]) s' \<and> pk_dataFrames s' = pk_dataFrames s \<and>
    length hs' \<le> Suc (length hs)"
proof -
  from p obtain zone block address b where a: "ParseVariableAddress v = Some (zone, block, address, b)"
    by (auto simp: pack_variable_def bind_eq_Some_conv)
  note pl = place_of [OF a]
  have zone: "zone = key" using pl z by simp
  let ?k = "address_key key block address" and ?hs = "map s7_place hs"
  have look: "pk_itemMap s ?k = map_of (zip ?hs (items_of key hs 0)) (block, address)"
    using ok by (simp add: packing_ok_def)
  show ?thesis
  proof (cases "pk_itemMap s ?k")
    case (Some item)
    then obtain i where i: "i < length hs" "s7_place (hs ! i) = (block, address)" "items_of key hs 0 ! i = item"
      using look ok map_of_zip_nth [of ?hs "items_of key hs 0" "(block, address)" item]
      by (auto simp: packing_ok_def heads_ok_def simp del: map_of_eq_Some_iff)
    then have "it_StartAddress item = word_of_int (answer_offset key hs i)"
      by (auto simp: items_of_nth item_of_def)
    with i pl have new: "parse_ok key hs \<lparr>svp_Variable = v, svp_StartAddress = it_StartAddress item,
        svp_BitAddressOrLength = b, svp_BlockSize = block\<rparr>"
      by (auto simp: parse_ok_def)
    have "s' = s\<lparr>pk_variableParses := pk_variableParses s @
        [\<lparr>svp_Variable = v, svp_StartAddress = it_StartAddress item, svp_BitAddressOrLength = b, svp_BlockSize = block\<rparr>]\<rparr>"
      using p a zone Some by (simp add: pack_variable_def Let_def)
    moreover from i(1) have "hs \<noteq> []" by auto
    ultimately show ?thesis using ok new by (intro exI [of _ hs]) (auto simp: packing_ok_def)
  next
    case None
    then have fresh: "(block, address) \<notin> set ?hs" using look by (auto simp: map_of_zip_is_None)
    let ?it = "item_of key v (answer_offset key hs (length hs))"
    have s': "s' = s\<lparr>pk_startAddressOffset := pk_startAddressOffset s + answer_length key v,
        pk_itemMap := (pk_itemMap s)(?k \<mapsto> ?it), pk_items := pk_items s @ [?it],
        pk_variableParses := pk_variableParses s @
          [\<lparr>svp_Variable = v, svp_StartAddress = it_StartAddress ?it, svp_BitAddressOrLength = b, svp_BlockSize = block\<rparr>]\<rparr>"
      using p a zone None pl ok by (simp add: pack_variable_def Let_def item_of_def answer_length_def packing_ok_def)
    have items: "items_of key (hs @ [v]) 0 = items_of key hs 0 @ [?it]" by (simp add: items_of_append)
    have off: "answer_offset key (hs @ [v]) (Suc (length hs)) = answer_offset key hs (length hs) + answer_length key v"
      by (simp add: answer_offset_def)
    have "parse_ok key (hs @ [v]) \<lparr>svp_Variable = v, svp_StartAddress = it_StartAddress ?it,
        svp_BitAddressOrLength = b, svp_BlockSize = block\<rparr>"
      using pl by (auto simp: parse_ok_def item_of_def answer_offset_def nth_append intro!: exI [of _ "length hs"])
    moreover have "map_of (zip (map s7_place (hs @ [v])) (items_of key (hs @ [v]) 0)) =
        (map_of (zip ?hs (items_of key hs 0)))((block, address) \<mapsto> ?it)"
      using map_of_zip_snoc [of ?hs "items_of key hs 0" "(block, address)" ?it] fresh pl by (simp add: items)
    ultimately show ?thesis
      using ok fresh z pl off
      by (intro exI [of _ "hs @ [v]"])
        (auto simp: packing_ok_def heads_ok_def s' items address_key_inj intro: parse_ok_more)
  qed
qed

lemma flush_frame_ok:
  assumes "packing_ok key hs vs s" "hs \<noteq> []" "few_heads pdu hs"
  shows "s7_frame_ok key pdu (flush_frame key pdu s) \<and> map svp_Variable (sf_Variables (flush_frame key pdu s)) = vs"
  using assms
  by (auto simp: s7_frame_ok_def packing_ok_def flush_frame_def newS7DataFrame_def Let_def intro!: exI [of _ hs])

lemma pack_variables_ok:
  assumes "pack_variables key pdu vs s = Some s'" "packing_ok key hs done_vs s" "hs = [] \<longrightarrow> done_vs = []"
    and "\<forall>v \<in> set vs. Zone v = key" "\<forall>df \<in> set (pk_dataFrames s). s7_frame_ok key pdu df"
    and "0 < unat (maxItemPerDataFrame pdu) \<longrightarrow> length hs < unat (maxItemPerDataFrame pdu)"
  shows "\<exists>hs' rest. packing_ok key hs' rest s' \<and> (hs' = [] \<longrightarrow> rest = []) \<and> few_heads pdu hs' \<and>
    (\<forall>df \<in> set (pk_dataFrames s'). s7_frame_ok key pdu df) \<and>
    concat (map (\<lambda>df. map svp_Variable (sf_Variables df)) (pk_dataFrames s')) @ rest =
      concat (map (\<lambda>df. map svp_Variable (sf_Variables df)) (pk_dataFrames s)) @ done_vs @ vs"
  using assms
proof (induction vs arbitrary: s hs done_vs)
  case Nil
  then show ?case by (auto simp: few_heads_def)
next
  case (Cons v vs)
  from Cons.prems(1) obtain s1 where s1: "pack_variable key v s = Some s1"
    and rest: "pack_variables key pdu vs (if of_nat (length (pk_items s1)) = maxItemPerDataFrame pdu
        then packing_start (pk_dataFrames s1 @ [flush_frame key pdu s1]) else s1) = Some s'"
    by (auto simp: bind_eq_Some_conv)
  obtain hs1 where hs1: "hs1 \<noteq> []" "packing_ok key hs1 (done_vs @ [v]) s1" "pk_dataFrames s1 = pk_dataFrames s"
    and grown: "length hs1 \<le> Suc (length hs)"
    using pack_variable_ok [OF Cons.prems(2) s1] Cons.prems(4) by auto
  have few: "few_heads pdu hs1" using grown Cons.prems(6) by (auto simp: few_heads_def)
  show ?case
  proof (cases "of_nat (length (pk_items s1)) = maxItemPerDataFrame pdu")
    case True
    let ?s = "packing_start (pk_dataFrames s1 @ [flush_frame key pdu s1])"
    have frames: "pk_dataFrames ?s = pk_dataFrames s @ [flush_frame key pdu s1]"
      using hs1 by (simp add: packing_start_def)
    have "pack_variables key pdu vs ?s = Some s'" using rest True by simp
    from Cons.IH [OF this packing_ok_start] show ?thesis
      using Cons.prems(4,5) flush_frame_ok [OF hs1(2,1) few] unfolding frames by auto
  next
    case False
    then have "pack_variables key pdu vs s1 = Some s'" using rest by simp
    moreover have "length hs1 \<noteq> unat (maxItemPerDataFrame pdu)"
      using False hs1(2) by (auto simp: packing_ok_def)
    then have "0 < unat (maxItemPerDataFrame pdu) \<longrightarrow> length hs1 < unat (maxItemPerDataFrame pdu)"
      using few by (auto simp: few_heads_def)
    ultimately show ?thesis using Cons.IH [OF _ hs1(2)] Cons.prems(4,5) hs1 by auto
  qed
qed

lemma s7_area_frames_ok:
  assumes "s7_area_frames key pdu vs = Some dfs" "\<forall>v \<in> set vs. Zone v = key"
  shows "(\<forall>df \<in> set dfs. s7_frame_ok key pdu df) \<and>
    concat (map (\<lambda>df. map svp_Variable (sf_Variables df)) dfs) = vs"
proof -
  from assms(1) obtain s where s: "pack_variables key pdu vs (packing_start []) = Some s"
    and dfs: "dfs = (if pk_items s \<noteq> [] then pk_dataFrames s @ [flush_frame key pdu s] else pk_dataFrames s)"
    by (auto simp: s7_area_frames_def bind_eq_Some_conv)
  obtain hs rest where ok: "packing_ok key hs rest s" "hs = [] \<longrightarrow> rest = []" "few_heads pdu hs"
    "\<forall>df \<in> set (pk_dataFrames s). s7_frame_ok key pdu df"
    "concat (map (\<lambda>df. map svp_Variable (sf_Variables df)) (pk_dataFrames s)) @ rest = vs"
    using pack_variables_ok [OF s packing_ok_start] assms(2) by (auto simp: packing_start_def)
  have "pk_items s = [] \<longleftrightarrow> hs = []" using ok(1) by (cases hs) (auto simp: packing_ok_def)
  then show ?thesis
    using ok flush_frame_ok [OF ok(1) _ ok(3)] by (cases "hs = []") (auto simp: dfs)
qed

end
