(* ===== verification/ClientsPool.thy ===== *)
theory ClientsPool
  imports GoPrelude
begin

text \<open>
  Model of the connection pools: \<^verbatim>\<open>pkg/protocol/modbus/runtime/clients.go\<close>, its copy
  \<^verbatim>\<open>pkg/protocol/s7/runtime/clients.go\<close>, and the variant of
  \<^verbatim>\<open>pkg/protocol/opcua/runtime/clients.go\<close>. A pool hands out its messengers; who finds none waits on a
  channel of its own, and whoever releases a messenger passes it to one of those that wait. The
  critical sections under the mutex are single steps. Messengers are values of an arbitrary type;
  a released interface value may be nil (\<open>None\<close>). The value \<open>None\<close> of an operation is a panic.
\<close>

section \<open>The pool\<close>

text \<open>A channel of capacity one. The channels are kept by the key of their request: the waiting goroutine
  still has its channel after the key has been deleted from \<open>ConnRequests\<close>.\<close>

datatype 'm chan = ChanEmpty | ChanHolds "'m option" | ChanClosed

record 'm Clients =
  cl_Messengers :: "'m option list"
  cl_Max :: nat
  cl_Idle :: int
  cl_ConnRequests :: "u64 set"
  cl_NextRequest :: u64
  cl_channels :: "u64 \<Rightarrow> 'm chan"

text \<open>The pool that \<open>NewClients\<close> of a dialect builds from the connections it has opened.\<close>

definition new_clients :: "'m list \<Rightarrow> 'm Clients" where
  "new_clients cs =
     \<lparr>cl_Messengers = map Some cs, cl_Max = length cs, cl_Idle = int (length cs),
      cl_ConnRequests = {}, cl_NextRequest = 1, cl_channels = (\<lambda>_. ChanEmpty)\<rparr>"

definition nextRequestKey :: "'m Clients \<Rightarrow> 'm Clients \<times> u64" where
  "nextRequestKey t = (t\<lparr>cl_NextRequest := cl_NextRequest t + 1\<rparr>, cl_NextRequest t)"

text \<open>The critical section of \<open>GetMessenger\<close>: a messenger, or the key to wait under. With \<open>Idle > 0\<close> and an
  empty list, or a nil messenger in front, the type assertion panics (and the mutex stays locked).\<close>

definition GetMessenger_enter :: "'m Clients \<Rightarrow> ('m Clients \<times> (u64 + 'm)) option" where
  "GetMessenger_enter t =
     (if cl_Idle t > 0 then
        (case cl_Messengers t of
           Some messenger # rest \<Rightarrow>
             Some (t\<lparr>cl_Idle := cl_Idle t - 1, cl_Messengers := rest\<rparr>, Inr messenger)
         | _ \<Rightarrow> None)
      else
        let (t, key) = nextRequestKey t
        in Some (t\<lparr>cl_ConnRequests := insert key (cl_ConnRequests t),
                   cl_channels := (cl_channels t)(key := ChanEmpty)\<rparr>, Inl key))"

text \<open>The receiving branch of the select, enabled when the channel holds something or is closed
  (\<open>Inl ()\<close> is the error for a closed server).\<close>

definition GetMessenger_receive :: "u64 \<Rightarrow> 'm Clients \<Rightarrow> ('m Clients \<times> (unit + 'm option)) option" where
  "GetMessenger_receive key t =
     (case cl_channels t key of
        ChanHolds m \<Rightarrow> Some (t\<lparr>cl_channels := (cl_channels t)(key := ChanEmpty)\<rparr>, Inr m)
      | ChanClosed \<Rightarrow> Some (t, Inl ())
      | ChanEmpty \<Rightarrow> None)"

text \<open>The branch for a cancelled context: the request is withdrawn, and a messenger that has arrived
  meanwhile goes back to the list. \<open>Idle\<close> is not incremented, as in the source.\<close>

definition GetMessenger_cancel :: "('m \<Rightarrow> bool) \<Rightarrow> u64 \<Rightarrow> 'm Clients \<Rightarrow> 'm Clients option" where
  "GetMessenger_cancel available key t =
     (let t = t\<lparr>cl_ConnRequests := cl_ConnRequests t - {key}\<rparr>
      in case cl_channels t key of
           ChanHolds None \<Rightarrow> None
         | ChanHolds (Some m) \<Rightarrow>
             let t = t\<lparr>cl_channels := (cl_channels t)(key := ChanEmpty)\<rparr>
             in Some (if available m then t\<lparr>cl_Messengers := cl_Messengers t @ [Some m]\<rparr> else t)
         | _ \<Rightarrow> Some t)"

text \<open>\<open>key\<close> is the request that the iteration over the map meets first. Sending on a closed channel
  panics.\<close>

definition ReleaseMessenger :: "u64 \<Rightarrow> 'm option \<Rightarrow> 'm Clients \<Rightarrow> 'm Clients option" where
  "ReleaseMessenger key messenger t =
     (if cl_Idle t = 0 \<and> cl_ConnRequests t \<noteq> {} then
        let t = t\<lparr>cl_ConnRequests := cl_ConnRequests t - {key}\<rparr>
        in (if cl_channels t key = ChanClosed then None
            else Some (t\<lparr>cl_channels := (cl_channels t)(key := ChanHolds messenger)\<rparr>))
      else Some (t\<lparr>cl_Messengers := cl_Messengers t @ [messenger], cl_Idle := cl_Idle t + 1\<rparr>))"

text \<open>\<open>Destroy\<close> closes and removes the messengers, and closes the channels of the requests; \<open>Idle\<close> and
  \<open>ConnRequests\<close> stay as they are. A nil messenger or an already closed channel panics. The closed
  messengers are returned.\<close>

definition Clients_Destroy :: "'m Clients \<Rightarrow> ('m Clients \<times> 'm list) option" where
  "Clients_Destroy t =
     (if None \<in> set (cl_Messengers t) \<or> (\<exists>key \<in> cl_ConnRequests t. cl_channels t key = ChanClosed) then None
      else Some (t\<lparr>cl_Messengers := [],
                   cl_channels := (\<lambda>key. if key \<in> cl_ConnRequests t then ChanClosed else cl_channels t key)\<rparr>,
                 map the (cl_Messengers t)))"

section \<open>The pool in use\<close>

text \<open>The pool, the messengers in use, the goroutines that wait (by key), and the number of requests that
  have had to wait.\<close>

record 'm pool_system =
  ps_pool :: "'m Clients"
  ps_held :: "'m multiset"
  ps_waiting :: "u64 set"
  ps_requests :: nat

inductive pool_step :: "'m pool_system \<Rightarrow> 'm pool_system \<Rightarrow> bool" where
  get_now: "GetMessenger_enter (ps_pool s) = Some (p, Inr m) \<Longrightarrow>
    pool_step s (s\<lparr>ps_pool := p, ps_held := add_mset m (ps_held s)\<rparr>)"
| get_wait: "GetMessenger_enter (ps_pool s) = Some (p, Inl key) \<Longrightarrow>
    pool_step s (s\<lparr>ps_pool := p, ps_waiting := insert key (ps_waiting s), ps_requests := Suc (ps_requests s)\<rparr>)"
| receive: "key \<in> ps_waiting s \<Longrightarrow> GetMessenger_receive key (ps_pool s) = Some (p, Inr (Some m)) \<Longrightarrow>
    pool_step s (s\<lparr>ps_pool := p, ps_held := add_mset m (ps_held s), ps_waiting := ps_waiting s - {key}\<rparr>)"
| release: "m \<in># ps_held s \<Longrightarrow> cl_ConnRequests (ps_pool s) \<noteq> {} \<longrightarrow> key \<in> cl_ConnRequests (ps_pool s) \<Longrightarrow>
    ReleaseMessenger key (Some m) (ps_pool s) = Some p \<Longrightarrow>
    pool_step s (s\<lparr>ps_pool := p, ps_held := ps_held s - {#m#}\<rparr>)"

inductive_cases pool_stepE: "pool_step s s'"

definition pool_start :: "'m list \<Rightarrow> 'm pool_system" where
  "pool_start cs = \<lparr>ps_pool = new_clients cs, ps_held = {#}, ps_waiting = {}, ps_requests = 0\<rparr>"

text \<open>The messengers on their way to a goroutine whose request has been answered.\<close>

definition in_transit :: "'m pool_system \<Rightarrow> 'm multiset" where
  "in_transit s = image_mset (\<lambda>key. case cl_channels (ps_pool s) key of ChanHolds (Some m) \<Rightarrow> m)
     (mset_set (ps_waiting s - cl_ConnRequests (ps_pool s)))"

definition pool_inv :: "'m list \<Rightarrow> 'm pool_system \<Rightarrow> bool" where
  "pool_inv cs s \<longleftrightarrow>
     (let p = ps_pool s in
      None \<notin> set (cl_Messengers p) \<and>
      cl_Idle p = int (length (cl_Messengers p)) \<and>
      (cl_ConnRequests p \<noteq> {} \<longrightarrow> cl_Idle p = 0) \<and>
      cl_ConnRequests p \<subseteq> ps_waiting s \<and> finite (ps_waiting s) \<and>
      (\<forall>key \<in> cl_ConnRequests p. cl_channels p key = ChanEmpty) \<and>
      (\<forall>key \<in> ps_waiting s - cl_ConnRequests p. \<exists>m. cl_channels p key = ChanHolds (Some m)) \<and>
      (\<forall>key \<in> ps_waiting s. unat key \<le> ps_requests s) \<and>
      unat (cl_NextRequest p) = Suc (ps_requests s) \<and>
      image_mset the (mset (cl_Messengers p)) + ps_held s + in_transit s = mset cs)"

section \<open>The invariant\<close>

lemma pool_inv_start: "pool_inv cs (pool_start cs)"
  by (simp add: pool_inv_def pool_start_def new_clients_def in_transit_def multiset.map_comp comp_def)

lemma pool_inv_get_now:
  assumes inv: "pool_inv cs s" and e: "GetMessenger_enter (ps_pool s) = Some (p, Inr m)"
  shows "pool_inv cs (s\<lparr>ps_pool := p, ps_held := add_mset m (ps_held s)\<rparr>)"
proof -
  obtain rest where "cl_Messengers (ps_pool s) = Some m # rest" "cl_Idle (ps_pool s) > 0"
    and "p = (ps_pool s)\<lparr>cl_Idle := cl_Idle (ps_pool s) - 1, cl_Messengers := rest\<rparr>"
    using e by (auto simp: GetMessenger_enter_def nextRequestKey_def split: if_splits list.splits option.splits)
  with inv show ?thesis by (auto simp: pool_inv_def Let_def in_transit_def)
qed

lemma pool_inv_get_wait:
  assumes inv: "pool_inv cs s" and e: "GetMessenger_enter (ps_pool s) = Some (p, Inl key)"
    and few: "Suc (ps_requests s) < 2 ^ 64 - 1"
  shows "pool_inv cs (s\<lparr>ps_pool := p, ps_waiting := insert key (ps_waiting s), ps_requests := Suc (ps_requests s)\<rparr>)"
proof -
  have idle: "cl_Idle (ps_pool s) = 0" and k: "key = cl_NextRequest (ps_pool s)"
    and p: "p = (ps_pool s)\<lparr>cl_NextRequest := key + 1, cl_ConnRequests := insert key (cl_ConnRequests (ps_pool s)),
        cl_channels := (cl_channels (ps_pool s))(key := ChanEmpty)\<rparr>"
    using e inv by (auto simp: GetMessenger_enter_def nextRequestKey_def pool_inv_def Let_def
        split: if_splits list.splits option.splits)
  have key: "unat key = Suc (ps_requests s)" using inv by (simp add: k pool_inv_def Let_def)
  then have fresh: "key \<notin> ps_waiting s" using inv by (auto simp: pool_inv_def Let_def)
  then have unasked: "key \<notin> cl_ConnRequests (ps_pool s)" using inv by (auto simp: pool_inv_def Let_def)
  moreover have "unat (key + 1) = Suc (Suc (ps_requests s))"
    using few key by (simp add: unat_word_ariths)
  moreover have "(insert key (ps_waiting s)) - insert key (cl_ConnRequests (ps_pool s)) =
      ps_waiting s - cl_ConnRequests (ps_pool s)" using fresh unasked by auto
  moreover have "in_transit (s\<lparr>ps_pool := p, ps_waiting := insert key (ps_waiting s), ps_requests := Suc (ps_requests s)\<rparr>) =
      in_transit s"
    using unasked calculation(3) fresh by (auto simp: in_transit_def p intro!: image_mset_cong)
  ultimately show ?thesis
    using inv idle key by (auto simp: pool_inv_def Let_def p le_Suc_eq)
qed

lemma pool_inv_receive:
  assumes inv: "pool_inv cs s" and k: "key \<in> ps_waiting s"
    and e: "GetMessenger_receive key (ps_pool s) = Some (p, Inr (Some m))"
  shows "pool_inv cs (s\<lparr>ps_pool := p, ps_held := add_mset m (ps_held s), ps_waiting := ps_waiting s - {key}\<rparr>)"
    (is "pool_inv cs ?s")
proof -
  have ch: "cl_channels (ps_pool s) key = ChanHolds (Some m)"
    and p: "p = (ps_pool s)\<lparr>cl_channels := (cl_channels (ps_pool s))(key := ChanEmpty)\<rparr>"
    using e by (auto simp: GetMessenger_receive_def split: chan.splits)
  have fin: "finite (ps_waiting s)" using inv by (simp add: pool_inv_def Let_def)
  have out: "key \<notin> cl_ConnRequests (ps_pool s)" using inv ch by (auto simp: pool_inv_def Let_def)
  have split: "ps_waiting s - cl_ConnRequests (ps_pool s) =
      insert key (ps_waiting s - {key} - cl_ConnRequests (ps_pool s))" using k out by auto
  have "in_transit s = add_mset m (in_transit ?s)"
    unfolding in_transit_def split using fin ch p by (auto intro!: image_mset_cong)
  with inv out ch show ?thesis by (auto simp: pool_inv_def Let_def p)
qed

lemma pool_inv_release:
  assumes inv: "pool_inv cs s" and m: "m \<in># ps_held s"
    and k: "cl_ConnRequests (ps_pool s) \<noteq> {} \<longrightarrow> key \<in> cl_ConnRequests (ps_pool s)"
    and e: "ReleaseMessenger key (Some m) (ps_pool s) = Some p"
  shows "pool_inv cs (s\<lparr>ps_pool := p, ps_held := ps_held s - {#m#}\<rparr>)" (is "pool_inv cs ?s")
proof (cases "cl_ConnRequests (ps_pool s) = {}")
  case True
  with e have "p = (ps_pool s)\<lparr>cl_Messengers := cl_Messengers (ps_pool s) @ [Some m],
      cl_Idle := cl_Idle (ps_pool s) + 1\<rparr>" by (auto simp: ReleaseMessenger_def)
  with inv m True show ?thesis
    by (auto simp: pool_inv_def Let_def in_transit_def)
next
  case False
  with k have key: "key \<in> cl_ConnRequests (ps_pool s)" by simp
  have p: "p = (ps_pool s)\<lparr>cl_ConnRequests := cl_ConnRequests (ps_pool s) - {key},
      cl_channels := (cl_channels (ps_pool s))(key := ChanHolds (Some m))\<rparr>"
    using e inv False by (auto simp: ReleaseMessenger_def pool_inv_def Let_def split: if_splits)
  have w: "key \<in> ps_waiting s" "finite (ps_waiting s)" using inv key by (auto simp: pool_inv_def Let_def)
  then have split: "ps_waiting s - (cl_ConnRequests (ps_pool s) - {key}) =
      insert key (ps_waiting s - cl_ConnRequests (ps_pool s))" by auto
  have "in_transit ?s = add_mset m (in_transit s)"
    using w key by (simp add: in_transit_def p split) (auto intro!: image_mset_cong)
  with inv m key show ?thesis by (auto simp: pool_inv_def Let_def p)
qed

lemma pool_inv_step:
  assumes "pool_inv cs s" "pool_step s s'" "ps_requests s' < 2 ^ 64 - 1"
  shows "pool_inv cs s'"
  using assms(2,1,3)
  by (cases rule: pool_step.cases)
    (auto intro: pool_inv_get_now pool_inv_get_wait pool_inv_receive pool_inv_release)

interpretation pool: bounded_invariant pool_step "\<lambda>s. ps_requests s < 2 ^ 64 - 1" "pool_inv cs"
proof
  show "ps_requests s < 2 ^ 64 - 1" if "pool_step s s'" "ps_requests s' < 2 ^ 64 - 1"
    for s s' :: "'a pool_system"
    using that by (cases rule: pool_step.cases) auto
qed (rule pool_inv_step)

text \<open>C8: As long as connections are only taken and given back, and fewer than \<open>2\<^sup>6\<^sup>4 - 1\<close> requests had to
  wait, every connection of the pool is in exactly one place: idle, in use, or on its way to a request
  that has been answered. \<open>Idle\<close> counts the idle ones, and a request waits unanswered only while none
  is idle.\<close>

theorem pool_conserves_connections:
  assumes "pool_step\<^sup>*\<^sup>* (pool_start cs) s" "ps_requests s < 2 ^ 64 - 1"
  shows "mset (cl_Messengers (ps_pool s)) + image_mset Some (ps_held s + in_transit s) = image_mset Some (mset cs) \<and>
    cl_Idle (ps_pool s) = int (length (cl_Messengers (ps_pool s))) \<and>
    (cl_ConnRequests (ps_pool s) \<noteq> {} \<longrightarrow> cl_Messengers (ps_pool s) = [])"
proof -
  have inv: "pool_inv cs s" using pool.inv_reachable [OF assms(1) pool_inv_start assms(2)] .
  then have "mset (cl_Messengers (ps_pool s)) = image_mset Some (image_mset the (mset (cl_Messengers (ps_pool s))))"
    by (auto simp: pool_inv_def Let_def multiset.map_comp comp_def intro!: multiset.map_ident_strong [symmetric])
      (metis option.exhaust_sel)
  moreover have "image_mset the (mset (cl_Messengers (ps_pool s))) + ps_held s + in_transit s = mset cs"
    using inv by (simp add: pool_inv_def Let_def)
  ultimately have "mset (cl_Messengers (ps_pool s)) + image_mset Some (ps_held s + in_transit s) =
      image_mset Some (mset cs)"
    by (metis image_mset_union union_assoc)
  with inv show ?thesis by (auto simp: pool_inv_def Let_def)
qed

text \<open>C18: Used that way the pool never panics, and it is live: a goroutine that waits can receive at once,
  or some connection is in use whose release answers one of the requests.\<close>

theorem pool_never_stuck:
  assumes "pool_step\<^sup>*\<^sup>* (pool_start cs) s" "ps_requests s < 2 ^ 64 - 1" "cs \<noteq> []"
  shows "GetMessenger_enter (ps_pool s) \<noteq> None \<and>
    (\<forall>m \<in># ps_held s. \<forall>key. (cl_ConnRequests (ps_pool s) \<noteq> {} \<longrightarrow> key \<in> cl_ConnRequests (ps_pool s)) \<longrightarrow>
       ReleaseMessenger key (Some m) (ps_pool s) \<noteq> None) \<and>
    (\<forall>key \<in> ps_waiting s.
       (\<exists>p m. GetMessenger_receive key (ps_pool s) = Some (p, Inr (Some m))) \<or>
       key \<in> cl_ConnRequests (ps_pool s) \<and> ps_held s + in_transit s \<noteq> {#})"
proof (intro conjI ballI)
  have inv: "pool_inv cs s" using pool.inv_reachable [OF assms(1) pool_inv_start assms(2)] .
  show "GetMessenger_enter (ps_pool s) \<noteq> None"
  proof (cases "cl_Idle (ps_pool s) > 0")
    case True
    with inv obtain a rest where a: "cl_Messengers (ps_pool s) = a # rest"
      by (cases "cl_Messengers (ps_pool s)") (auto simp: pool_inv_def Let_def)
    with inv have "a \<noteq> None" by (auto simp: pool_inv_def Let_def)
    with a obtain m where "cl_Messengers (ps_pool s) = Some m # rest" by auto
    with True show ?thesis by (simp add: GetMessenger_enter_def)
  qed (simp add: GetMessenger_enter_def nextRequestKey_def)
  show "\<forall>key. (cl_ConnRequests (ps_pool s) \<noteq> {} \<longrightarrow> key \<in> cl_ConnRequests (ps_pool s)) \<longrightarrow>
      ReleaseMessenger key (Some m) (ps_pool s) \<noteq> None" for m
    using inv by (auto simp: ReleaseMessenger_def pool_inv_def Let_def)
  fix key assume key: "key \<in> ps_waiting s"
  show "(\<exists>p m. GetMessenger_receive key (ps_pool s) = Some (p, Inr (Some m))) \<or>
      key \<in> cl_ConnRequests (ps_pool s) \<and> ps_held s + in_transit s \<noteq> {#}"
  proof (cases "key \<in> cl_ConnRequests (ps_pool s)")
    case True
    with inv have "cl_Messengers (ps_pool s) = []" by (auto simp: pool_inv_def Let_def)
    moreover have "image_mset the (mset (cl_Messengers (ps_pool s))) + ps_held s + in_transit s = mset cs"
      using inv by (simp add: pool_inv_def Let_def)
    ultimately have "ps_held s + in_transit s = mset cs" by simp
    with assms(3) True show ?thesis by simp
  next
    case False
    with inv key have "\<exists>m. cl_channels (ps_pool s) key = ChanHolds (Some m)"
      by (simp add: pool_inv_def Let_def)
    then show ?thesis by (auto simp: GetMessenger_receive_def)
  qed
qed

section \<open>Cancelling and destroying\<close>

text \<open>How many messengers of the list \<open>Idle\<close> does not count. Taking and giving back leave it alone.\<close>

definition uncounted :: "'m Clients \<Rightarrow> int" where
  "uncounted t = int (length (cl_Messengers t)) - cl_Idle t"

lemma uncounted_step: "pool_step s s' \<Longrightarrow> uncounted (ps_pool s') = uncounted (ps_pool s)"
  by (erule pool_stepE)
    (auto simp: uncounted_def GetMessenger_enter_def nextRequestKey_def GetMessenger_receive_def ReleaseMessenger_def
      Let_def split: if_splits list.splits option.splits chan.splits)

lemma uncounted_steps: "pool_step\<^sup>*\<^sup>* s s' \<Longrightarrow> uncounted (ps_pool s') = uncounted (ps_pool s)"
  by (induction rule: rtranclp_induct) (simp_all add: uncounted_step)

lemma uncounted_cancel:
  assumes "cl_channels t key = ChanHolds (Some m)" "available m" "GetMessenger_cancel available key t = Some t'"
  shows "uncounted t' = uncounted t + 1"
  using assms by (auto simp: GetMessenger_cancel_def Let_def uncounted_def)

text \<open>A request that is cancelled after it has been answered loses its connection for good: from then
  on the list holds one connection more than \<open>Idle\<close> counts, however the pool is used, so that \<open>GetMessenger\<close>
  makes its callers wait while a connection is idle.\<close>

theorem cancelled_request_loses_connection:
  assumes "pool_step\<^sup>*\<^sup>* (pool_start cs) s" "ps_requests s < 2 ^ 64 - 1"
    and "cl_channels (ps_pool s) key = ChanHolds (Some m)" "available m"
    and "GetMessenger_cancel available key (ps_pool s) = Some p"
    and "pool_step\<^sup>*\<^sup>* (s\<lparr>ps_pool := p, ps_waiting := ps_waiting s - {key}\<rparr>) s'"
  shows "int (length (cl_Messengers (ps_pool s'))) = cl_Idle (ps_pool s') + 1"
proof -
  have "pool_inv cs s" using pool.inv_reachable [OF assms(1) pool_inv_start assms(2)] .
  then have "uncounted (ps_pool s) = 0" by (simp add: pool_inv_def Let_def uncounted_def)
  with uncounted_cancel [OF assms(3-5)] uncounted_steps [OF assms(6)] show ?thesis by (simp add: uncounted_def)
qed

text \<open>\<open>Destroy\<close> closes every idle connection, but leaves \<open>Idle\<close> and the requests behind: with an idle
  connection the next \<open>GetMessenger\<close> panics, and with a waiting request the next \<open>ReleaseMessenger\<close> sends on
  a closed channel and panics.\<close>

theorem destroyed_pool_panics:
  assumes "pool_step\<^sup>*\<^sup>* (pool_start cs) s" "ps_requests s < 2 ^ 64 - 1"
  shows "\<exists>p closed. Clients_Destroy (ps_pool s) = Some (p, closed) \<and>
    cl_Messengers (ps_pool s) = map Some closed \<and> cl_Messengers p = [] \<and>
    (closed \<noteq> [] \<longrightarrow> GetMessenger_enter p = None) \<and>
    (\<forall>key \<in> cl_ConnRequests p. ReleaseMessenger key m p = None)"
proof -
  have "pool_inv cs s" using pool.inv_reachable [OF assms(1) pool_inv_start assms(2)] .
  then show ?thesis
    by (auto simp: pool_inv_def Let_def Clients_Destroy_def GetMessenger_enter_def ReleaseMessenger_def
        intro!: map_idI [symmetric])
      (metis option.exhaust_sel)
qed

section \<open>An example\<close>

text \<open>A pool of one connection: one goroutine takes it, another has to wait, and the first gives it back.\<close>

definition one_pool :: "nat pool_system" where
  "one_pool = pool_start [7]"

definition one_taken :: "nat pool_system" where
  "one_taken = one_pool\<lparr>ps_pool := (ps_pool one_pool)\<lparr>cl_Idle := 0, cl_Messengers := []\<rparr>, ps_held := {#7#}\<rparr>"

definition one_waiting :: "nat pool_system" where
  "one_waiting = one_taken\<lparr>
     ps_pool := (ps_pool one_taken)\<lparr>cl_NextRequest := 2, cl_ConnRequests := {1},
       cl_channels := (\<lambda>_. ChanEmpty)(1 := ChanEmpty)\<rparr>,
     ps_waiting := {1}, ps_requests := 1\<rparr>"

definition one_answered :: "nat pool_system" where
  "one_answered = one_waiting\<lparr>
     ps_pool := (ps_pool one_waiting)\<lparr>cl_ConnRequests := {}, cl_channels := (\<lambda>_. ChanEmpty)(1 := ChanHolds (Some 7))\<rparr>,
     ps_held := {#}\<rparr>"

lemmas one_pool_defs = one_pool_def one_taken_def one_waiting_def one_answered_def pool_start_def new_clients_def

lemma one_pool_steps: "pool_step one_pool one_taken" "pool_step one_taken one_waiting"
  "pool_step one_waiting one_answered"
proof -
  show "pool_step one_pool one_taken"
    using pool_step.get_now [of one_pool _ 7] by (simp add: one_pool_defs GetMessenger_enter_def)
  show "pool_step one_taken one_waiting"
    using pool_step.get_wait [of one_taken _ 1]
    by (simp add: one_pool_defs GetMessenger_enter_def nextRequestKey_def)
  show "pool_step one_waiting one_answered"
    using pool_step.release [of 7 one_waiting 1] by (simp add: one_pool_defs ReleaseMessenger_def)
qed

lemma one_pool_reach: "pool_step\<^sup>*\<^sup>* (pool_start [7]) one_waiting" "pool_step\<^sup>*\<^sup>* (pool_start [7]) one_answered"
proof -
  have "one_pool = pool_start [7]" by (simp add: one_pool_def)
  then show "pool_step\<^sup>*\<^sup>* (pool_start [7]) one_waiting" "pool_step\<^sup>*\<^sup>* (pool_start [7]) one_answered"
    using one_pool_steps by (metis (no_types, lifting) converse_rtranclp_into_rtranclp rtranclp.rtrancl_refl)+
qed

lemma pool_conserves_connections_witness:
  "mset (cl_Messengers (ps_pool one_waiting)) + image_mset Some (ps_held one_waiting + in_transit one_waiting) = {#Some 7#}"
  using pool_conserves_connections [OF one_pool_reach(1)] by (simp add: one_pool_defs)

lemma pool_never_stuck_witness:
  "1 \<in> cl_ConnRequests (ps_pool one_waiting) \<and> ps_held one_waiting + in_transit one_waiting \<noteq> {#}"
  using pool_never_stuck [OF one_pool_reach(1)] by (simp add: one_pool_defs GetMessenger_receive_def)

lemma cancelled_request_loses_connection_witness:
  "\<exists>p. GetMessenger_cancel (\<lambda>_. True) 1 (ps_pool one_answered) = Some p \<and>
     int (length (cl_Messengers p)) = cl_Idle p + 1"
proof -
  obtain p where p: "GetMessenger_cancel (\<lambda>_. True) 1 (ps_pool one_answered) = Some p"
    by (simp add: GetMessenger_cancel_def one_pool_defs)
  have ch: "cl_channels (ps_pool one_answered) 1 = ChanHolds (Some 7)" by (simp add: one_pool_defs)
  have few: "ps_requests one_answered < 2 ^ 64 - 1" by (simp add: one_pool_defs)
  show ?thesis
    using cancelled_request_loses_connection [OF one_pool_reach(2) few ch _ p rtranclp.rtrancl_refl] p by auto
qed

lemma destroyed_pool_panics_witness:
  "\<exists>p. Clients_Destroy (ps_pool one_waiting) = Some (p, []) \<and> ReleaseMessenger 1 (Some 7) p = None"
  using destroyed_pool_panics [OF one_pool_reach(1), of "Some 7"]
  by (auto simp: one_pool_defs Clients_Destroy_def)

end
