(* ===== verification/OpcUaBroker.thy ===== *)
theory OpcUaBroker
  imports OpcUaTypes DeviceManagers ModbusTypes Gather ClientsPool
begin

text \<open>
  Model of \<^verbatim>\<open>pkg/protocol/opcua/opcuabroker.go\<close> and of \<open>VariablesInGroupOf\<close> in \<^verbatim>\<open>pkg/generic/runtime\<close>: the read
  requests of a device, the retried read of a request, and the poll. The session with the server is the
  parameter \<open>io\<close>: what a read returns and leaves, and whether the session is available; the sessions that
  \<open>NewMessenger\<close> dials are a list. Node ids are what the constructors of the library are given.
\<close>

section \<open>Grouping\<close>

text \<open>The slice is made with \<open>groups\<close> nil elements already, and the first round appends an empty groups.\<close>

function group_loop ::
  "'a list \<Rightarrow> nat \<Rightarrow> nat \<Rightarrow> nat \<Rightarrow> nat \<Rightarrow> 'a list list \<Rightarrow> 'a list list option" where
  "group_loop variables len groups i start groupVariables =
     (if i \<le> groups then
        do { part \<leftarrow> (if i \<noteq> groups then slice_range variables start (i * len) else slice_from variables start);
             group_loop variables len groups (i + 1) (i * len) (groupVariables @ [part]) }
      else Some groupVariables)"
  by pat_completeness auto
termination by (relation "measure (\<lambda>(_, _, groups, i, _, _). Suc groups - i)") auto

declare group_loop.simps [simp del]

definition VariablesInGroupOf :: "'a list \<Rightarrow> nat \<Rightarrow> 'a list list option" where
  "VariablesInGroupOf variables len =
     (if length variables \<le> len then Some [variables]
      else if len = 0 then None
      else
        let groups = (if length variables mod len = 0 then length variables div len else length variables div len + 1)
        in group_loop variables len groups 0 0 (replicate groups []))"

section \<open>Requests\<close>

datatype NodeID = NumericNodeID u16 u32 | StringNodeID u16 string | NilNode

text \<open>The nodes of a variable: one for the types \<open>NUMBER\<close> and \<open>STRING\<close>, none for the others. \<open>oor\<close> converts a number
  that is out of range.\<close>

definition read_nodes :: "float_oor \<Rightarrow> OpcUaVariable \<Rightarrow> NodeID list option" where
  "read_nodes oor v =
     (case ov_DataType v of
        NUMBER \<Rightarrow>
          (case ov_Address v of
             VFloat64 address \<Rightarrow> Some [NumericNodeID (ov_Namespace v) (word_of_int (f64_to_int oor 0 0xFFFFFFFF address))]
           | VString address \<Rightarrow> Some [NumericNodeID (ov_Namespace v) (word_of_int (Atoi address))]
           | _ \<Rightarrow> Some [NilNode])
      | STRING \<Rightarrow>
          (case ov_Address v of
             VString address \<Rightarrow> Some [StringNodeID (ov_Namespace v) address]
           | _ \<Rightarrow> None)
      | _ \<Rightarrow> Some [])"

record OpuUaDataFrame =
  of_Variables :: "OpcUaVariable list"
  of_NodesToRead :: "NodeID list"

definition opc_frame :: "float_oor \<Rightarrow> OpcUaVariable list \<Rightarrow> OpuUaDataFrame option" where
  "opc_frame oor variables =
     do { nodes \<leftarrow> those (map (read_nodes oor) variables);
          Some \<lparr>of_Variables = variables, of_NodesToRead = concat nodes\<rparr> }"

record 'c OpcUaBroker =
  ob_Device :: OpcUaDevice
  ob_Clients :: 'c
  ob_NamespaceVariableDataFrame :: "OpuUaDataFrame list"
  ob_VariableCount :: nat

text \<open>\<open>newClients\<close> is \<open>NewClients\<close> of the only model; another device model is a nil interface, whose call panics.\<close>

definition OpcUa_NewBroker ::
  "float_oor \<Rightarrow> (OpcUaAddress \<Rightarrow> nat \<Rightarrow> 'c option) \<Rightarrow> OpcUaDevice \<Rightarrow> (broker_error + 'c OpcUaBroker) option" where
  "OpcUa_NewBroker oor newClients device =
     do { groupOf \<leftarrow> VariablesInGroupOf (od_Variables device) 1000;
          frames \<leftarrow> those (map (opc_frame oor) groupOf);
          (if frames = [] then Some (Inl ErrDeviceEmptyVariable)
           else if dm_DeviceModel (od_DeviceMeta device) \<noteq> ''opcUa'' then None
           else Some (case newClients (od_Address device) (length frames) of
             None \<Rightarrow> Inl ErrConnectDevice
           | Some clients \<Rightarrow>
               Inr \<lparr>ob_Device = device, ob_Clients = clients, ob_NamespaceVariableDataFrame = frames,
                    ob_VariableCount = length (od_Variables device)\<rparr>)) }"

section \<open>Sessions\<close>

text \<open>The pool of sessions is that of the other protocols, except that \<open>GetMessenger\<close> replaces a session that is
  not available any more: it returns from that branch without unlocking the mutex, whose state is therefore
  part of the model. A call that finds it locked waits forever.\<close>

record 'm opc_pool =
  op_locked :: bool
  op_Clients :: "'m Clients"

datatype 'a pool_call = Waits | Panics | Returns 'a

definition opc_GetMessenger ::
  "('m \<Rightarrow> bool) \<Rightarrow> 'm option \<Rightarrow> 'm opc_pool \<Rightarrow> ('m opc_pool \<times> (opcua_error + (u64 + 'm))) pool_call" where
  "opc_GetMessenger available dialed p =
     (if op_locked p then Waits
      else case GetMessenger_enter (op_Clients p) of
        None \<Rightarrow> Panics
      | Some (t, Inl key) \<Rightarrow> Returns (p\<lparr>op_Clients := t\<rparr>, Inr (Inl key))
      | Some (t, Inr messenger) \<Rightarrow>
          if \<not> available messenger then
            Returns (\<lparr>op_locked = True, op_Clients = t\<rparr>,
              case dialed of None \<Rightarrow> Inl OpcUaConnectServer | Some newMessenger \<Rightarrow> Inr (Inr newMessenger))
          else Returns (p\<lparr>op_Clients := t\<rparr>, Inr (Inr messenger)))"

definition opc_ReleaseMessenger :: "u64 \<Rightarrow> 'm option \<Rightarrow> 'm opc_pool \<Rightarrow> 'm opc_pool pool_call" where
  "opc_ReleaseMessenger key messenger p =
     (if op_locked p then Waits
      else case ReleaseMessenger key messenger (op_Clients p) of
        None \<Rightarrow> Panics
      | Some t \<Rightarrow> Returns (p\<lparr>op_Clients := t\<rparr>))"

lemma stale_session_blocks_pool:
  assumes "GetMessenger_enter (op_Clients p) = Some (t, Inr messenger)" "\<not> op_locked p" "\<not> available messenger"
    and "opc_GetMessenger available dialed p = Returns (p', r)"
  shows "opc_GetMessenger available' dialed' p' = Waits \<and> opc_ReleaseMessenger key m p' = Waits"
  using assms by (auto simp: opc_GetMessenger_def opc_ReleaseMessenger_def)

section \<open>Reading a request\<close>

datatype read_error = ReadEOF | BadSessionIDInvalid | BadSessionNotActivated | BadSecureChannelIDInvalid | ReadOther

text \<open>The results of a response: whether the status is good, and the value.\<close>

type_synonym read_result = "bool \<times> GoValue"

record 'm opc_io =
  io_Read :: "'m \<Rightarrow> NodeID list \<Rightarrow> 'm \<times> (read_error + read_result list option)"
  io_Available :: "'m \<Rightarrow> bool"

datatype opc_message_error = OpcError opcua_error | OpcDialError

definition renew_session :: "'m opc_io \<Rightarrow> 'm \<Rightarrow> read_error \<Rightarrow> bool" where
  "renew_session io messenger err \<longleftrightarrow>
     err = ReadEOF \<and> io_Available io messenger \<or> err = BadSessionIDInvalid \<or> err = BadSessionNotActivated"

text \<open>The loop of \<open>retry\<close> with \<open>n\<close> rounds left; a round that renews the session does not count.\<close>

function opc_retry_rounds ::
  "'m opc_io \<Rightarrow> nat \<Rightarrow> 'm \<Rightarrow> 'm option list \<Rightarrow> NodeID list \<Rightarrow>
   'm \<times> 'm option list \<times> (opc_message_error + read_result list option)" where
  "opc_retry_rounds io 0 messenger dials nodes = (messenger, dials, Inl (OpcError OpcUaManyRetry))"
| "opc_retry_rounds io (Suc n) messenger dials nodes =
     (case io_Read io messenger nodes of
        (messenger, Inr response) \<Rightarrow> (messenger, dials, Inr response)
      | (messenger, Inl err) \<Rightarrow>
          if renew_session io messenger err then
            (case dials of
               Some newMessenger # rest \<Rightarrow> opc_retry_rounds io (Suc n) newMessenger rest nodes
             | _ \<Rightarrow> (messenger, tl dials, Inl OpcDialError))
          else opc_retry_rounds io n messenger dials nodes)"
  by pat_completeness auto
termination by (relation "measure (\<lambda>(_, n, _, dials, _). n + length dials)") auto

definition opc_retry ::
  "'m opc_io \<Rightarrow> 'm \<Rightarrow> 'm option list \<Rightarrow> NodeID list \<Rightarrow> 'm \<times> 'm option list \<times> (opc_message_error + read_result list option)" where
  "opc_retry io = opc_retry_rounds io 3"

definition opc_reported :: "OpcUaVariable \<Rightarrow> OpcUaVariable" where
  "opc_reported v = v\<lparr>ov_AccessMode := AccessModeReadOnly\<rparr>"

text \<open>The loop over the variables of the frame, which indexes the results by the position of the variable.\<close>

fun opc_take :: "OpcUaVariable list \<Rightarrow> read_result list \<Rightarrow> (OpcUaVariable list \<times> OpcUaVariable list) option" where
  "opc_take [] results = Some ([], [])"
| "opc_take (v # vs) [] = None"
| "opc_take (v # vs) ((ok, val) # results) =
     do { (vs', variables) \<leftarrow> opc_take vs results;
          Some (if ok then (let v = ov_SetValue val v in (v # vs', opc_reported v # variables)) else (v # vs', variables)) }"

record OpcParseResult =
  opr_VariableSlice :: "OpcUaVariable list"
  opr_Err :: "opc_message_error list"

text \<open>\<open>message\<close>: the results it sends, and \<open>None\<close> for a panic, which no recover stops. Without a messenger it reports the
  error and then reads from the nil messenger.\<close>

definition opc_message ::
  "'m opc_io \<Rightarrow> 'm option \<Rightarrow> 'm option list \<Rightarrow> OpuUaDataFrame \<Rightarrow>
   ('m \<times> 'm option list \<times> OpuUaDataFrame \<times> OpcParseResult option) option" where
  "opc_message io got dials dataFrame =
     do { messenger \<leftarrow> got;
          (case opc_retry io messenger dials (of_NodesToRead dataFrame) of
             (messenger, dials, Inl err) \<Rightarrow>
               Some (messenger, dials, dataFrame, Some \<lparr>opr_VariableSlice = [], opr_Err = [err]\<rparr>)
           | (messenger, dials, Inr None) \<Rightarrow> Some (messenger, dials, dataFrame, None)
           | (messenger, dials, Inr (Some results)) \<Rightarrow>
               do { (vs, variables) \<leftarrow> opc_take (of_Variables dataFrame) results;
                    Some (messenger, dials, dataFrame\<lparr>of_Variables := vs\<rparr>,
                      Some \<lparr>opr_VariableSlice = variables, opr_Err = []\<rparr>) }) }"

section \<open>Polls\<close>

definition opc_roll_step ::
  "OpcUaVariable list \<times> opc_message_error list \<Rightarrow> OpcParseResult \<Rightarrow> OpcUaVariable list \<times> opc_message_error list" where
  "opc_roll_step acc pvr =
     (if opr_Err pvr \<noteq> [] then (fst acc, snd acc @ opr_Err pvr)
      else (fst acc @ opr_VariableSlice pvr, snd acc))"

definition opc_rollVariable :: "OpcParseResult list \<Rightarrow> OpcParseResult" where
  "opc_rollVariable results =
     (let (rvs, errs) = foldl opc_roll_step ([], []) results in \<lparr>opr_VariableSlice = rvs, opr_Err = errs\<rparr>)"

text \<open>A poll with the messenger and the dials each frame gets; the results arrive in any order. A panic in any of the
  goroutines ends the gateway, and there is no report.\<close>

definition opc_poll_results ::
  "'m opc_io \<Rightarrow> (OpuUaDataFrame \<times> 'm option \<times> 'm option list) list \<Rightarrow> OpcParseResult option list option" where
  "opc_poll_results io jobs =
     those (map (\<lambda>(df, got, dials). map_option (snd \<circ> snd \<circ> snd) (opc_message io got dials df)) jobs)"

inductive opc_poll ::
  "'m opc_io \<Rightarrow> 'c OpcUaBroker \<Rightarrow> (OpuUaDataFrame \<times> 'm option \<times> 'm option list) list \<Rightarrow> OpcParseResult \<Rightarrow> bool"
  for io broker jobs where
  opc_poll_report: "mset (map fst jobs) = mset (ob_NamespaceVariableDataFrame broker) \<Longrightarrow>
    opc_poll_results io jobs = Some results \<Longrightarrow>
    mset arrived = mset (List.map_filter (\<lambda>r. r) results) \<Longrightarrow>
    opc_poll io broker jobs (opc_rollVariable arrived)"

text \<open>\<open>DeliverAction\<close> is not implemented: it panics.\<close>

definition OpcUa_DeliverAction :: "(string \<times> GoValue) list \<Rightarrow> (opc_message_error option) option" where
  "OpcUa_DeliverAction obj = None"


section \<open>What the groups are\<close>

fun chunks :: "nat \<Rightarrow> 'a list \<Rightarrow> 'a list list" where
  "chunks n xs = (if n = 0 \<or> length xs \<le> n then [xs] else take n xs # chunks n (drop n xs))"

declare chunks.simps [simp del]

lemma chunks_ne: "0 < n \<Longrightarrow> concat (chunks n xs) = xs \<and> (\<forall>c \<in> set (chunks n xs). length c \<le> n)"
proof (induction n xs rule: chunks.induct)
  case (1 n xs)
  then show ?case by (subst (1 2) chunks.simps) auto
qed

lemma group_loop_chunks:
  "0 < i \<Longrightarrow> i \<le> g \<Longrightarrow> (g - 1) * n < length xs \<Longrightarrow> length xs \<le> g * n \<Longrightarrow> 0 < n \<Longrightarrow>
   group_loop xs n g i ((i - 1) * n) acc = Some (acc @ chunks n (drop ((i - 1) * n) xs))"
proof (induction "g - i" arbitrary: i acc)
  case 0
  then have i: "i = g" by simp
  have "length (drop ((g - 1) * n) xs) \<le> n" using 0 by (cases g) auto
  then have "chunks n (drop ((g - 1) * n) xs) = [drop ((g - 1) * n) xs]" by (subst chunks.simps) simp
  moreover have "slice_from xs ((g - 1) * n) = Some (drop ((g - 1) * n) xs)" using 0 by (simp add: slice_from_def)
  ultimately show ?case
    unfolding i by (subst group_loop.simps, simp, subst group_loop.simps, simp)
next
  case (Suc k)
  let ?d = "drop ((i - 1) * n) xs"
  have i: "i < g" using Suc.hyps(2) by simp
  then have "i * n \<le> (g - 1) * n" by (intro mult_le_mono1) simp
  then have long: "i * n < length xs" using Suc.prems(3) by (rule le_less_trans)
  have step: "(i - 1) * n + n = i * n" using Suc.prems(1) by (cases i) simp_all
  have "slice_range xs ((i - 1) * n) (i * n) = Some (take n ?d)"
    using long step by (simp add: slice_range_def flip: step)
  moreover have "\<not> length ?d \<le> n" using long step by (simp flip: step)
  then have "chunks n ?d = take n ?d # chunks n (drop (i * n) xs)"
    using Suc.prems(5) by (subst chunks.simps) (simp add: add.commute flip: step)
  moreover have "group_loop xs n g (i + 1) ((i + 1 - 1) * n) (acc @ [take n ?d]) =
      Some ((acc @ [take n ?d]) @ chunks n (drop ((i + 1 - 1) * n) xs))"
    using Suc.hyps i Suc.prems by (intro Suc.hyps(1)) simp_all
  ultimately show ?case using i by (subst group_loop.simps) simp
qed

definition group_count :: "nat \<Rightarrow> nat \<Rightarrow> nat" where
  "group_count n k = (if k mod n = 0 then k div n else k div n + 1)"

lemma group_count_bounds:
  assumes "0 < n" "0 < k"
  shows "(group_count n k - 1) * n < k \<and> k \<le> group_count n k * n \<and> 0 < group_count n k"
proof -
  have k: "k div n * n + k mod n = k" by simp
  show ?thesis
  proof (cases "k mod n = 0")
    case True
    then have "k div n * n = k" using k by simp
    moreover from this assms have "0 < k div n" by (cases "k div n") auto
    ultimately show ?thesis using True assms by (simp add: group_count_def diff_mult_distrib)
  next
    case False
    have "k < k div n * n + n" using mod_less_divisor [OF assms(1), of k] k by linarith
    moreover have "k div n * n < k" using k False by linarith
    ultimately show ?thesis using False by (simp add: group_count_def)
  qed
qed

lemma VariablesInGroupOf_long:
  assumes "0 < n" "n < length xs"
  shows "VariablesInGroupOf xs n = Some (replicate (group_count n (length xs) + 1) [] @ chunks n xs)"
proof -
  let ?g = "group_count n (length xs)"
  have g: "(?g - 1) * n < length xs" "length xs \<le> ?g * n" "0 < ?g"
    using group_count_bounds [of n "length xs"] assms by linarith+
  have "group_loop xs n ?g 0 0 (replicate ?g []) = group_loop xs n ?g 1 ((1 - 1) * n) (replicate ?g [] @ [[]])"
    using g(3) by (subst group_loop.simps) (simp add: slice_range_def)
  also have "\<dots> = Some ((replicate ?g [] @ [[]]) @ chunks n (drop ((1 - 1) * n) xs))"
    using g assms by (intro group_loop_chunks) simp_all
  finally show ?thesis
    using assms unfolding VariablesInGroupOf_def group_count_def [symmetric]
    by (simp add: Let_def replicate_append_same)
qed

text \<open>C32: The groups of the variables hold every variable once and in order, and none holds more than \<open>len\<close>. But as soon as
  there are more than \<open>len\<close> variables, there are also as many empty groups as full ones and one more, and each
  becomes a read request without nodes; and without variables there is one empty group.\<close>

theorem groups_partition_variables:
  assumes "0 < len"
  shows "\<exists>groups. VariablesInGroupOf variables len = Some groups \<and> concat groups = variables \<and>
    (\<forall>g \<in> set groups. length g \<le> len) \<and>
    length (filter (\<lambda>g. g = []) groups) =
      (if len < length variables then group_count len (length variables) + 1 else if variables = [] then 1 else 0)"
proof (cases "len < length variables")
  case True
  note c = chunks_ne [OF assms, of variables]
  have "filter (\<lambda>g. g = []) (chunks n xs) = []" if "xs \<noteq> []" "0 < n" for n and xs :: "'a list"
    using that
  proof (induction n xs rule: chunks.induct)
    case (1 n xs)
    then show ?case by (subst chunks.simps) auto
  qed
  then have "filter (\<lambda>g. g = []) (chunks len variables) = []" using True assms by (metis list.size(3) not_less_zero)
  then show ?thesis using True assms c VariablesInGroupOf_long [OF assms True] by (auto simp del: replicate_Suc)
next
  case False
  then show ?thesis by (simp add: VariablesInGroupOf_def)
qed

lemma groups_partition_variables_witness:
  "\<exists>groups. VariablesInGroupOf [1, 2, 3 :: nat] 2 = Some groups \<and> concat groups = [1, 2, 3] \<and>
     length (filter (\<lambda>g. g = []) groups) = 3"
  using groups_partition_variables [of 2 "[1, 2, 3 :: nat]"] by (auto simp: group_count_def)


section \<open>What a poll reports\<close>

interpretation opc_report: gatherer opr_VariableSlice opr_Err opc_rollVariable
proof -
  have roll: "foldl opc_roll_step (vs, es) rs =
      (vs @ concat (map (\<lambda>r. if opr_Err r = [] then opr_VariableSlice r else []) rs), es @ concat (map opr_Err rs))" for vs es rs
    by (induction rs arbitrary: vs es) (auto simp: opc_roll_step_def)
  show "gatherer opr_VariableSlice opr_Err opc_rollVariable"
    by unfold_locales (simp_all add: opc_rollVariable_def roll)
qed

definition one_node :: "float_oor \<Rightarrow> OpcUaVariable \<Rightarrow> NodeID" where
  "one_node oor v = (case read_nodes oor v of Some [node] \<Rightarrow> node | _ \<Rightarrow> NilNode)"

definition addressed :: "float_oor \<Rightarrow> OpcUaVariable \<Rightarrow> bool" where
  "addressed oor v \<longleftrightarrow> read_nodes oor v = Some [one_node oor v]"

lemma opc_frame_addressed:
  assumes "list_all (addressed oor) vs"
  shows "opc_frame oor vs = Some \<lparr>of_Variables = vs, of_NodesToRead = map (one_node oor) vs\<rparr>"
proof -
  have "those (map (read_nodes oor) vs) = Some (map (\<lambda>v. [one_node oor v]) vs)"
    using assms by (induction vs) (simp_all add: addressed_def)
  then show ?thesis by (simp add: opc_frame_def)
qed

lemma opc_take_all:
  "opc_take vs (map (\<lambda>v. (True, f v)) vs) =
     Some (map (\<lambda>v. ov_SetValue (f v) v) vs, map (\<lambda>v. opc_reported (ov_SetValue (f v) v)) vs)"
  by (induction vs) (simp_all add: Let_def)

text \<open>A server answers a read when every node has the value that \<open>server\<close> gives.\<close>

definition serves :: "'m opc_io \<Rightarrow> (NodeID \<Rightarrow> GoValue) \<Rightarrow> 'm \<Rightarrow> bool" where
  "serves io server messenger \<longleftrightarrow>
     (\<forall>nodes. snd (io_Read io messenger nodes) = Inr (Some (map (\<lambda>node. (True, server node)) nodes)))"

lemma served_read:
  assumes "serves io server messenger"
  shows "\<exists>messenger'. opc_retry io messenger dials nodes =
    (messenger', dials, Inr (Some (map (\<lambda>node. (True, server node)) nodes)))"
proof -
  obtain messenger' r where m: "io_Read io messenger nodes = (messenger', r)" by (cases "io_Read io messenger nodes")
  then have "r = Inr (Some (map (\<lambda>node. (True, server node)) nodes))" using assms by (auto simp: serves_def dest: spec [of _ nodes])
  then show ?thesis by (simp add: opc_retry_def numeral_3_eq_3 m)
qed

lemma served_message:
  assumes "list_all (addressed oor) (of_Variables df)" "opc_frame oor (of_Variables df) = Some df"
    and "serves io server messenger"
  shows "map_option (snd \<circ> snd \<circ> snd) (opc_message io (Some messenger) dials df) =
    Some (Some \<lparr>opr_VariableSlice = map (\<lambda>v. opc_reported (ov_SetValue (server (one_node oor v)) v)) (of_Variables df),
      opr_Err = []\<rparr>)"
proof -
  have nodes: "of_NodesToRead df = map (one_node oor) (of_Variables df)"
    using opc_frame_addressed [OF assms(1)] assms(2) by (cases df) auto
  obtain messenger' where "opc_retry io messenger dials (of_NodesToRead df) =
      (messenger', dials, Inr (Some (map (\<lambda>node. (True, server node)) (of_NodesToRead df))))"
    using served_read [OF assms(3)] by blast
  moreover have "opc_take (of_Variables df) (map (\<lambda>node. (True, server node)) (of_NodesToRead df)) =
      Some (map (\<lambda>v. ov_SetValue (server (one_node oor v)) v) (of_Variables df),
        map (\<lambda>v. opc_reported (ov_SetValue (server (one_node oor v)) v)) (of_Variables df))"
    using opc_take_all [of "of_Variables df" "\<lambda>v. server (one_node oor v)"] by (simp add: nodes comp_def)
  ultimately show ?thesis by (simp add: opc_message_def)
qed


lemma VariablesInGroupOf_concat:
  "VariablesInGroupOf xs n = Some groups \<Longrightarrow> concat groups = xs"
proof (cases "n < length xs")
  case True
  assume g: "VariablesInGroupOf xs n = Some groups"
  show ?thesis
  proof (cases "n = 0")
    case False
    then show ?thesis using g VariablesInGroupOf_long [of n xs] True chunks_ne [of n xs] by (auto simp del: replicate_Suc)
  qed (use g True in \<open>simp add: VariablesInGroupOf_def\<close>)
qed (auto simp: VariablesInGroupOf_def)

lemma those_map: "those (map f xs) = Some ys \<Longrightarrow> list_all2 (\<lambda>x y. f x = Some y) xs ys"
  by (induction xs arbitrary: ys) (auto split: option.splits)

lemma opc_frame_variables: "opc_frame oor vs = Some df \<Longrightarrow> of_Variables df = vs"
  by (auto simp: opc_frame_def bind_eq_Some_conv)

lemma OpcUa_NewBroker_frames:
  assumes "OpcUa_NewBroker oor newClients device = Some (Inr broker)"
  shows "concat (map of_Variables (ob_NamespaceVariableDataFrame broker)) = od_Variables device \<and>
    (\<forall>df \<in> set (ob_NamespaceVariableDataFrame broker). opc_frame oor (of_Variables df) = Some df)"
proof -
  obtain groups frames where g: "VariablesInGroupOf (od_Variables device) 1000 = Some groups"
    "those (map (opc_frame oor) groups) = Some frames" "ob_NamespaceVariableDataFrame broker = frames"
    using assms by (auto simp: OpcUa_NewBroker_def bind_eq_Some_conv split: if_splits option.splits)
  have f: "list_all2 (\<lambda>x y. opc_frame oor x = Some y) groups frames" using those_map [OF g(2)] .
  then have "map of_Variables frames = groups"
    by (induction rule: list_all2_induct) (auto simp: opc_frame_variables)
  moreover from f have "\<forall>df \<in> set frames. opc_frame oor (of_Variables df) = Some df"
    by (induction rule: list_all2_induct) (auto simp: opc_frame_variables)
  ultimately show ?thesis using VariablesInGroupOf_concat [OF g(1)] g(3) by simp
qed


text \<open>A variable whose type is neither \<open>NUMBER\<close> nor \<open>STRING\<close> is left out of the request but not out of the loop over
  the results, so every complete answer to a request of its group is too short: \<open>message\<close> panics, and with it the
  gateway ends.\<close>

theorem opc_other_type_crashes:
  assumes "opc_frame oor variables = Some df" and "v \<in> set variables" "ov_DataType v \<notin> {NUMBER, STRING}"
    and "serves io server messenger"
  shows "opc_message io (Some messenger) dials df = None"
proof -
  obtain nodes where nodes: "those (map (read_nodes oor) variables) = Some nodes"
    and df: "of_Variables df = variables" "of_NodesToRead df = concat nodes"
    using assms(1) by (auto simp: opc_frame_def bind_eq_Some_conv)
  have le: "read_nodes oor w = Some ns \<Longrightarrow> length ns \<le> 1" for w ns
    by (auto simp: read_nodes_def split: DataType.splits GoValue.splits)
  have none: "read_nodes oor v = Some []"
    using assms(3) by (cases "ov_DataType v") (simp_all add: read_nodes_def)
  have "list_all2 (\<lambda>x y. read_nodes oor x = Some y) vs ns \<Longrightarrow> length (concat ns) \<le> length vs" for vs ns
    by (induction rule: list_all2_induct) (auto dest: le)
  moreover have "list_all2 (\<lambda>x y. read_nodes oor x = Some y) vs ns \<Longrightarrow> v \<in> set vs \<Longrightarrow> length (concat ns) < length vs" for vs ns
  proof (induction rule: list_all2_induct)
    case (Cons x xs y ys)
    then show ?case using le [of x y] none calculation [OF Cons.hyps(2)] by (cases "v = x") auto
  qed simp
  ultimately have short: "length (of_NodesToRead df) < length (of_Variables df)"
    using those_map [OF nodes] assms(2) df by simp
  have "length rs < length vs \<Longrightarrow> opc_take vs rs = None" for vs rs
    by (induction vs rs rule: opc_take.induct) auto
  then have "opc_take (of_Variables df) (map (\<lambda>node. (True, server node)) (of_NodesToRead df)) = None"
    using short by simp
  moreover obtain messenger' where "opc_retry io messenger dials (of_NodesToRead df) =
      (messenger', dials, Inr (Some (map (\<lambda>node. (True, server node)) (of_NodesToRead df))))"
    using served_read [OF assms(4)] by blast
  ultimately show ?thesis by (simp add: opc_message_def)
qed


definition example_io :: "unit opc_io" where
  "example_io = \<lparr>io_Read = (\<lambda>m nodes. (m, Inr (Some (map (\<lambda>node. (True, VBool True)) nodes)))), io_Available = (\<lambda>_. True)\<rparr>"

lemma example_io_serves: "serves example_io (\<lambda>_. VBool True) ()"
  by (simp add: serves_def example_io_def)

definition example_opc_variable :: "DataType \<Rightarrow> OpcUaVariable" where
  "example_opc_variable dt =
     \<lparr>ov_DataType = dt, ov_Name = ''a'', ov_Address = VString ''a'', ov_Namespace = 2, ov_DefaultValue = VNil,
      ov_Value = VNil, ov_AccessMode = AccessModeReadWrite\<rparr>"

definition example_opc_device :: OpcUaDevice where
  "example_opc_device =
     \<lparr>od_DeviceMeta = no_meta\<lparr>dm_DeviceModel := ''opcUa''\<rparr>, od_CollectorCycle = 1, od_VariableInterval = 0,
      od_Address = \<lparr>oa_Location = [], oa_Option = \<lparr>oo_Port = 0, oo_Username = [], oo_Password = []\<rparr>\<rparr>,
      od_Variables = [example_opc_variable STRING], od_VariablesMap = (\<lambda>_. None)\<rparr>"


lemma opc_other_type_crashes_witness:
  "\<exists>df. opc_frame (\<lambda>_ _ _. 0) [example_opc_variable INT16, example_opc_variable STRING] = Some df \<and>
     opc_message example_io (Some ()) [] df = None"
proof -
  obtain df where df: "opc_frame (\<lambda>_ _ _. 0) [example_opc_variable INT16, example_opc_variable STRING] = Some df"
    by (simp add: opc_frame_def read_nodes_def example_opc_variable_def)
  show ?thesis
    using opc_other_type_crashes [OF df, of "example_opc_variable INT16", OF _ _ example_io_serves] df
    by (simp add: example_opc_variable_def)
qed

end
