(* ===== verification/Gateway.thy ===== *)
theory Gateway
  imports DeviceServer ModbusBroker S7Plan OpcUaBroker
begin

text \<open>
  The gateway put together: the table in \<^verbatim>\<open>pkg/generic/constant.go\<close> that gives the device manager the broker of a
  device, and what the manager does with the brokers of the three protocols. What the network returns is a parameter
  of the brokers (\<open>links\<close>), as in their own theories.
\<close>

section \<open>Brokers by type\<close>

record ('m, 's, 'o) links =
  lk_modbus_order :: "ModbusVariable list \<Rightarrow> ModbusVariable list"
  lk_modbus_clients :: "string \<Rightarrow> ModbusAddress \<Rightarrow> nat \<Rightarrow> 'm option"
  lk_s7_order :: "S7Variable list \<Rightarrow> S7Variable list"
  lk_s7_dialed :: "S7Address \<Rightarrow> Conn option"
  lk_s7_clients :: "S7Address \<Rightarrow> nat \<Rightarrow> 's option"
  lk_oor :: float_oor
  lk_opc_clients :: "OpcUaAddress \<Rightarrow> nat \<Rightarrow> 'o option"

definition without_broker :: "(broker_error + 'b) option \<Rightarrow> (broker_error + unit) option" where
  "without_broker made = map_option (map_sum id (\<lambda>_. ())) made"

definition modbus_device_broker :: "('m, 's, 'o) links \<Rightarrow> new_broker" where
  "modbus_device_broker L object =
     (case object of
        ModbusDev device \<Rightarrow> without_broker (NewBroker (lk_modbus_order L) (lk_modbus_clients L) device)
      | _ \<Rightarrow> Some (Inl ErrDeviceType))"

definition opcua_device_broker :: "('m, 's, 'o) links \<Rightarrow> new_broker" where
  "opcua_device_broker L object =
     (case object of
        OpcUaDev device \<Rightarrow> without_broker (OpcUa_NewBroker (lk_oor L) (lk_opc_clients L) device)
      | _ \<Rightarrow> Some (Inl ErrDeviceType))"

definition s7_device_broker :: "('m, 's, 'o) links \<Rightarrow> new_broker" where
  "s7_device_broker L object =
     (case object of
        S7Dev device \<Rightarrow> without_broker (S7_NewBroker (lk_s7_order L) (lk_s7_dialed L (sd_Address device)) (lk_s7_clients L) device)
      | _ \<Rightarrow> Some (Inl ErrDeviceType))"

definition DeviceTypeBrokerMap :: "('m, 's, 'o) links \<Rightarrow> string \<rightharpoonup> new_broker" where
  "DeviceTypeBrokerMap L =
     [''modbus'' \<mapsto> modbus_device_broker L, ''opcUa'' \<mapsto> opcua_device_broker L, ''s7'' \<mapsto> s7_device_broker L]"

text \<open>A type that is not in the table is a nil function, and calling it a panic.\<close>

definition gateway_broker :: "('m, 's, 'o) links \<Rightarrow> new_broker" where
  "gateway_broker L object = (case DeviceTypeBrokerMap L (GetDeviceType object) of None \<Rightarrow> None | Some nb \<Rightarrow> nb object)"

end
