(* ===== verification/GoTime.thy ===== *)
theory GoTime
  imports GoStrings
begin

text \<open>
  The part of Go's \<^verbatim>\<open>time\<close> that the data service uses, on local calendar fields: parsing and formatting with the layout
  \<^verbatim>\<open>2006-01-02 15:04:05\<close>, the layout \<^verbatim>\<open>200601\<close>, and the first of the months between two times. The zone is one in which
  every local time that occurs exists, such as one without daylight saving time.
\<close>

section \<open>Local times\<close>

record go_time =
  tm_year :: nat
  tm_month :: nat
  tm_day :: nat
  tm_hour :: nat
  tm_minute :: nat
  tm_second :: nat
  tm_nano :: nat

definition leap_year :: "nat \<Rightarrow> bool" where
  "leap_year y \<longleftrightarrow> y mod 4 = 0 \<and> (y mod 100 \<noteq> 0 \<or> y mod 400 = 0)"

definition days_in :: "nat \<Rightarrow> nat \<Rightarrow> nat" where
  "days_in m y = (if m = 2 then (if leap_year y then 29 else 28) else if m \<in> {4, 6, 9, 11} then 30 else 31)"

definition valid_time :: "go_time \<Rightarrow> bool" where
  "valid_time t \<longleftrightarrow> tm_year t < 10000 \<and> 0 < tm_month t \<and> tm_month t \<le> 12 \<and>
     0 < tm_day t \<and> tm_day t \<le> days_in (tm_month t) (tm_year t) \<and>
     tm_hour t < 24 \<and> tm_minute t < 60 \<and> tm_second t < 60 \<and> tm_nano t < 1000000000"

section \<open>Parsing\<close>

text \<open>A number of two digits, or of one if the layout does not fix the width.\<close>

definition getnum :: "bool \<Rightarrow> string \<Rightarrow> (nat \<times> string) option" where
  "getnum fixed s =
     (case s of
        c # d # r \<Rightarrow> if \<not> is_digit c then None
                    else if is_digit d then Some (10 * digit_value c + digit_value d, r)
                    else if fixed then None else Some (digit_value c, d # r)
      | [c] \<Rightarrow> if is_digit c \<and> \<not> fixed then Some (digit_value c, []) else None
      | [] \<Rightarrow> None)"

definition get_year :: "string \<Rightarrow> (nat \<times> string) option" where
  "get_year s =
     (case s of
        a # b # c # d # r \<Rightarrow>
          if is_digit a \<and> is_digit b \<and> is_digit c \<and> is_digit d
          then Some (1000 * digit_value a + 100 * digit_value b + 10 * digit_value c + digit_value d, r) else None
      | _ \<Rightarrow> None)"

definition skip_char :: "char \<Rightarrow> string \<Rightarrow> string option" where
  "skip_char c s = (case s of d # r \<Rightarrow> if d = c then Some r else None | [] \<Rightarrow> None)"

definition cut_space :: "string \<Rightarrow> string" where
  "cut_space s = dropWhile (\<lambda>c. c = CHR '' '') s"

definition skip_space :: "string \<Rightarrow> string option" where
  "skip_space s = (case s of c # r \<Rightarrow> if c = CHR '' '' then Some (cut_space r) else None | [] \<Rightarrow> Some [])"

text \<open>A fraction of a second is accepted after the seconds though the layout has none; digits after the ninth are dropped.\<close>

definition digits_value :: "string \<Rightarrow> nat" where
  "digits_value s = foldl (\<lambda>n c. 10 * n + digit_value c) 0 s"

definition get_fraction :: "string \<Rightarrow> nat \<times> string" where
  "get_fraction s =
     (case s of
        p # d # r \<Rightarrow>
          if (p = CHR ''.'' \<or> p = CHR '','') \<and> is_digit d then
            let ds = take 9 (takeWhile is_digit (d # r))
            in (digits_value ds * 10 ^ (9 - length ds), dropWhile is_digit (d # r))
          else (0, s)
      | _ \<Rightarrow> (0, s))"

definition guarded :: "bool \<Rightarrow> unit option" where
  "guarded b = (if b then Some () else None)"

definition parse_time :: "string \<Rightarrow> go_time option" where
  "parse_time s =
     do { (year, s) \<leftarrow> get_year s;
          s \<leftarrow> skip_char (CHR ''-'') s;
          (month, s) \<leftarrow> getnum True s;
          _ \<leftarrow> guarded (0 < month \<and> month \<le> 12);
          s \<leftarrow> skip_char (CHR ''-'') s;
          (day, s) \<leftarrow> getnum True s;
          s \<leftarrow> skip_space s;
          (hour, s) \<leftarrow> getnum False s;
          _ \<leftarrow> guarded (hour < 24);
          s \<leftarrow> skip_char (CHR '':'') s;
          (minute, s) \<leftarrow> getnum True s;
          _ \<leftarrow> guarded (minute < 60);
          s \<leftarrow> skip_char (CHR '':'') s;
          (second, s) \<leftarrow> getnum True s;
          _ \<leftarrow> guarded (second < 60);
          let (nano, s) = get_fraction s;
          _ \<leftarrow> guarded (s = [] \<and> 0 < day \<and> day \<le> days_in month year);
          Some \<lparr>tm_year = year, tm_month = month, tm_day = day, tm_hour = hour, tm_minute = minute, tm_second = second, tm_nano = nano\<rparr> }"

section \<open>Formatting\<close>

definition digit_char :: "nat \<Rightarrow> char" where
  "digit_char n = char_of (48 + n mod 10)"

definition pad2 :: "nat \<Rightarrow> string" where
  "pad2 n = [digit_char (n div 10), digit_char n]"

definition pad4 :: "nat \<Rightarrow> string" where
  "pad4 n = [digit_char (n div 1000), digit_char (n div 100), digit_char (n div 10), digit_char n]"

definition format_time :: "go_time \<Rightarrow> string" where
  "format_time t = pad4 (tm_year t) @ ''-'' @ pad2 (tm_month t) @ ''-'' @ pad2 (tm_day t) @ '' '' @
     pad2 (tm_hour t) @ '':'' @ pad2 (tm_minute t) @ '':'' @ pad2 (tm_second t)"

lemma digit_char [simp]: "is_digit (digit_char n)" "digit_value (digit_char n) = n mod 10"
  by (simp_all add: is_digit_def digit_value_def digit_char_def)

lemma getnum_pad2: "n < 100 \<Longrightarrow> getnum b (pad2 n @ r) = Some (n, r)"
  by (simp add: getnum_def pad2_def)

lemma get_year_pad4:
  assumes "n < 10000"
  shows "get_year (pad4 n @ r) = Some (n, r)"
proof -
  have m: "n div 1000 mod 10 = n div 1000" using assms by simp
  have "n = 10 * (n div 10) + n mod 10" by simp
  moreover have "n div 10 = 10 * (n div 100) + n div 10 mod 10"
    using mult_div_mod_eq [of 10 "n div 10"] div_mult2_eq [of n 10 10] by simp
  moreover have "n div 100 = 10 * (n div 1000) + n div 100 mod 10"
    using mult_div_mod_eq [of 10 "n div 100"] div_mult2_eq [of n 100 10] by simp
  ultimately have "1000 * (n div 1000 mod 10) + 100 * (n div 100 mod 10) + 10 * (n div 10 mod 10) + n mod 10 = n" using m by linarith
  then show ?thesis using m by (simp add: get_year_def pad4_def)
qed

lemma days_in_le: "days_in m y \<le> 31"
  by (simp add: days_in_def)

lemma parse_format_time:
  assumes "valid_time t"
  shows "parse_time (format_time t) = Some (t\<lparr>tm_nano := 0\<rparr>)"
proof -
  have day: "tm_day t < 100" using assms days_in_le [of "tm_month t" "tm_year t"] by (simp add: valid_time_def)
  have num: "getnum b (pad2 n) = Some (n, [])" if "n < 100" for b n using getnum_pad2 [OF that, of b "[]"] by simp
  have pad: "getnum b (pad2 n @ r) = Some (n, r)" if "n < 100" for b n r by (rule getnum_pad2 [OF that])
  have space: "skip_space (CHR '' '' # pad2 n @ r) = Some (pad2 n @ r)" if "n < 100" for n r
  proof -
    have "digit_char (n div 10) \<noteq> CHR '' ''" using digit_char(1) [of "n div 10"] by (auto simp: is_digit_def)
    then show ?thesis by (simp add: skip_space_def cut_space_def pad2_def)
  qed
  show ?thesis
    using assms day
    by (simp add: parse_time_def format_time_def get_year_pad4 skip_char_def pad num space guarded_def valid_time_def get_fraction_def
        getnum_pad2)
qed

section \<open>Months\<close>

definition month_index :: "go_time \<Rightarrow> nat" where
  "month_index t = 12 * tm_year t + (tm_month t - 1)"

definition format_month :: "nat \<Rightarrow> string" where
  "format_month k = pad4 (k div 12) @ pad2 (k mod 12 + 1)"

definition time_nanos :: "go_time \<Rightarrow> nat" where
  "time_nanos t = ((((month_index t * 31 + (tm_day t - 1)) * 24 + tm_hour t) * 60 + tm_minute t) * 60 + tm_second t) * 1000000000 + tm_nano t"

lemma mixed_radix:
  fixes m :: nat
  assumes "d < 31" "h < 24" "mi < 60" "s < 60" "n < 1000000000"
  shows "((((m * 31 + d) * 24 + h) * 60 + mi) * 60 + s) * 1000000000 + n < (m + 1) * 2678400000000000"
proof -
  have "m * 31 + d + 1 \<le> (m + 1) * 31" using assms(1) by simp
  moreover have "(m * 31 + d) * 24 + h + 1 \<le> (m * 31 + d + 1) * 24" using assms(2) by simp
  moreover have "((m * 31 + d) * 24 + h) * 60 + mi + 1 \<le> ((m * 31 + d) * 24 + h + 1) * 60" using assms(3) by simp
  ultimately show ?thesis using assms(4,5) by simp
qed

lemma month_index_mono:
  assumes "valid_time t" "valid_time u" "time_nanos t \<le> time_nanos u"
  shows "month_index t \<le> month_index u"
proof (rule ccontr)
  assume "\<not> ?thesis"
  then have less: "month_index u + 1 \<le> month_index t" by simp
  have "tm_day u - 1 < 31" using assms(2) days_in_le [of "tm_month u" "tm_year u"] by (simp add: valid_time_def) linarith
  then have "time_nanos u < (month_index u + 1) * 2678400000000000"
    unfolding time_nanos_def by (rule mixed_radix) (use assms(2) in \<open>simp_all add: valid_time_def\<close>)
  moreover have "month_index t * 2678400000000000 \<le> time_nanos t" by (simp add: time_nanos_def)
  moreover have "(month_index u + 1) * 2678400000000000 \<le> month_index t * 2678400000000000" using less by (rule mult_le_mono1)
  ultimately show False using assms(3) by (meson leD le_trans)
qed

lemma pad2_inj: "m < 100 \<Longrightarrow> n < 100 \<Longrightarrow> pad2 m = pad2 n \<Longrightarrow> m = n"
  using getnum_pad2 [of m True "[]"] getnum_pad2 [of n True "[]"] by simp

lemma pad4_inj: "m < 10000 \<Longrightarrow> n < 10000 \<Longrightarrow> pad4 m = pad4 n \<Longrightarrow> m = n"
  using get_year_pad4 [of m "[]"] get_year_pad4 [of n "[]"] by simp

lemma format_month_inj:
  assumes "j < 120000" "k < 120000" "format_month j = format_month k"
  shows "j = k"
proof -
  have "pad4 (j div 12) = pad4 (k div 12)" "pad2 (j mod 12 + 1) = pad2 (k mod 12 + 1)"
    using assms(3) by (auto simp: format_month_def pad4_def)
  then have "j div 12 = k div 12" "j mod 12 = k mod 12"
    using assms(1,2) pad4_inj [of "j div 12" "k div 12"] pad2_inj [of "j mod 12 + 1" "k mod 12 + 1"] by simp_all
  then show ?thesis by (metis div_mult_mod_eq)
qed

lemma month_index_less: "valid_time t \<Longrightarrow> month_index t < 120000"
  unfolding month_index_def valid_time_def by linarith

end
