(* ===== verification/DataService.thy ===== *)
theory DataService
  imports GoTime Response
begin

text \<open>
  Model of \<^verbatim>\<open>pkg/data\<close>, the data service, and of the start of \<^verbatim>\<open>cmd/data\<close>: queries of metrics and KPIs, which are
  sums that the search server computes over monthly indices, the lists of metrics, tags and KPIs, which are read from the
  database, and the time series of tags, which come from a third service. The rows the database returns, the replies of the
  two servers and their JSON values are arguments. \<open>None\<close> is a panic.
\<close>

section \<open>JSON values\<close>

text \<open>A number is what \<open>ParseFloat\<close> and \<open>ParseInt\<close> read in its text, \<open>None\<close> if they fail. A name of an object may occur twice.\<close>

datatype json_doc = JNil | JTruth bool | JNum "u64 option" "u64 option" | JStr string | JArr "json_doc list" | JObj "(string \<times> json_doc) list"

text \<open>A decoder gives the value after the assignment, and whether the type of the JSON value did not fit.\<close>

type_synonym 'a decoder = "json_doc \<Rightarrow> 'a \<Rightarrow> 'a \<times> bool"

definition dec_string :: "string decoder" where
  "dec_string j v = (case j of JStr s \<Rightarrow> (s, False) | JNil \<Rightarrow> (v, False) | _ \<Rightarrow> (v, True))"

definition dec_bool :: "bool decoder" where
  "dec_bool j v = (case j of JTruth b \<Rightarrow> (b, False) | JNil \<Rightarrow> (v, False) | _ \<Rightarrow> (v, True))"

definition dec_float :: "u64 decoder" where
  "dec_float j v = (case j of JNum (Some x) _ \<Rightarrow> (x, False) | JNil \<Rightarrow> (v, False) | _ \<Rightarrow> (v, True))"

definition dec_int :: "u64 decoder" where
  "dec_int j v = (case j of JNum _ (Some i) \<Rightarrow> (i, False) | JNil \<Rightarrow> (v, False) | _ \<Rightarrow> (v, True))"

definition dec_pointer :: "'a \<Rightarrow> 'a decoder \<Rightarrow> 'a option decoder" where
  "dec_pointer zero d j v =
     (if j = JNil then (None, False) else let (x, e) = d j (case v of None \<Rightarrow> zero | Some x \<Rightarrow> x) in (Some x, e))"

definition dec_slice :: "'a \<Rightarrow> 'a decoder \<Rightarrow> 'a list option decoder" where
  "dec_slice zero d j v =
     (case j of
        JArr js \<Rightarrow> (Some (map (\<lambda>j. fst (d j zero)) js), \<exists>j \<in> set js. snd (d j zero))
      | JNil \<Rightarrow> (None, False) | _ \<Rightarrow> (v, True))"

text \<open>The fields of a struct are found by their names, in upper or lower case.\<close>

definition lower :: "char \<Rightarrow> char" where
  "lower c = (if 65 \<le> (of_char c :: nat) \<and> (of_char c :: nat) \<le> 90 then char_of ((of_char c :: nat) + 32) else c)"

definition field_decoder :: "(string \<times> 'a decoder) list \<Rightarrow> string \<Rightarrow> 'a decoder option" where
  "field_decoder ds n =
     (case map_of ds n of Some d \<Rightarrow> Some d | None \<Rightarrow> map_of (map (\<lambda>(k, d). (map lower k, d)) ds) (map lower n))"

definition dec_struct :: "(string \<times> 'a decoder) list \<Rightarrow> 'a decoder" where
  "dec_struct ds j v =
     (case j of
        JObj fs \<Rightarrow> foldl (\<lambda>(v, e) (n, j). case field_decoder ds n of
                            None \<Rightarrow> (v, e) | Some d \<Rightarrow> let (v, e') = d j v in (v, e \<or> e')) (v, False) fs
      | JNil \<Rightarrow> (v, False) | _ \<Rightarrow> (v, True))"

text \<open>\<open>Unmarshal\<close> of a text that is no JSON (\<open>None\<close>) fails as well.\<close>

definition unmarshal :: "'a decoder \<Rightarrow> json_doc option \<Rightarrow> 'a \<Rightarrow> 'a option" where
  "unmarshal d body zero =
     (case body of None \<Rightarrow> None | Some j \<Rightarrow> let (v, e) = d j zero in if e then None else Some v)"

section \<open>Requests and results\<close>

record MetricsQueryRequest =
  mq_MetricsCodes :: "string list option"
  mq_StartTime :: string
  mq_EndTime :: string
  mq_Granularity :: string

record MetricsQueryParams =
  mp_MetricsCodes :: "string list"
  mp_StartTime :: go_time
  mp_EndTime :: go_time
  mp_Granularity :: string

record MetricsMetadata =
  md_ID :: string
  md_MetricsCode :: string
  md_MetricsName :: string
  md_MeasureType :: string
  md_CalculateType :: string
  md_TimeGranularity :: string

record MetricsResult =
  mr_MetricsCode :: string
  mr_StartTime :: string
  mr_EndTime :: string
  mr_Value :: u64

record KpiQueryRequest =
  kq_Ids :: "string list option"
  kq_StartTime :: string
  kq_EndTime :: string
  kq_Granularity :: string

record KpiQueryParams =
  kp_Ids :: "string list"
  kp_StartTime :: go_time
  kp_EndTime :: go_time
  kp_Granularity :: string

record KpiResult =
  kr_Id :: string
  kr_StartTime :: string
  kr_EndTime :: string
  kr_Value :: u64

record 'a ResponseModel =
  rm_Data :: "string + 'a"
  rm_Total :: u64

section \<open>The servers behind the service\<close>

text \<open>What an HTTP request returns: an error, or the status with the body that is read, which is an error or a text.\<close>

datatype http_reply = Http_failed string | Http_reply nat "string + json_doc option"

datatype body_value = BString string | BBool bool | BInt u64

text \<open>Columns that may be \<open>NULL\<close> are options.\<close>

record KpiRow =
  kc_id :: "string option"
  kc_tenant_id :: "string option"
  kc_revision :: "u64 option"
  kc_created_by :: "string option"
  kc_created_time :: "go_time option"
  kc_updated_by :: "string option"
  kc_updated_time :: "go_time option"
  kc_name :: "string option"
  kc_formula :: "string option"
  kc_formula_data_name :: "string option"
  kc_formula_ori :: "string option"
  kc_time_granularity :: "string option"
  kc_target_data :: "string option"
  kc_single_quota :: "byte list option"
  kc_default_tag :: "byte list option"
  kc_can_delete :: "byte list option"
  kc_unit :: "string option"
  kc_target_data_type :: "string option"
  kc_status :: "string option"

record TagRow =
  tc_id :: "string option"
  tc_tenant_id :: "string option"
  tc_revision :: "u64 option"
  tc_created_by :: "string option"
  tc_created_time :: "go_time option"
  tc_updated_by :: "string option"
  tc_updated_time :: "go_time option"
  tc_tag_id :: "string option"
  tc_tag_name :: "string option"
  tc_tag_desc :: "string option"
  tc_last_syn_time :: "go_time option"
  tc_tag_type :: "string option"
  tc_tag_attribute :: "string option"
  tc_enable :: "u64 option"
  tc_scada_id :: "string option"
  tc_operator :: "string option"
  tc_operate_value :: "string option"

record MetricsRow =
  mc_id :: "string option"
  mc_tenant_id :: "string option"
  mc_revision :: "u64 option"
  mc_created_by :: "string option"
  mc_created_time :: "go_time option"
  mc_updated_by :: "string option"
  mc_updated_time :: "go_time option"
  mc_data_point :: "string option"
  mc_metrics_code :: "string option"
  mc_metrics_name :: "string option"
  mc_measure_type :: "string option"
  mc_enable :: "bool option"
  mc_metrics_type :: "string option"
  mc_calculate_type :: "string option"
  mc_note :: "string option"

text \<open>The answers of the database to the four queries: an error, or the rows and the error that ends them, if any. A row of
  the first has the six columns of the statement.\<close>

record database =
  db_metric :: "string \<Rightarrow> string + string option list list"
  db_kpis :: "string + KpiRow list \<times> string option"
  db_tags :: "string + TagRow list \<times> string option"
  db_metrics :: "string + MetricsRow list \<times> string option"

record DataManager =
  dm_db :: "database option"
  dm_es :: "string \<Rightarrow> string \<Rightarrow> http_reply"
  dm_scadaURL :: string
  dm_escadaURL :: string
  dm_scadaClient :: "(string \<Rightarrow> (string \<times> body_value) list \<Rightarrow> http_reply) option"
  dm_escadaClient :: "(string \<Rightarrow> (string \<times> body_value) list \<Rightarrow> http_reply) option"

section \<open>Queries of the search server\<close>

text \<open>\<open>Scan\<close> into strings fails at a column that is \<open>NULL\<close>.\<close>

definition scan_null :: "nat \<Rightarrow> string \<Rightarrow> string" where
  "scan_null i name = ''sql: Scan error on column index '' @ show_nat i @ '', name '' @ [CHR 0x22] @ name @ [CHR 0x22] @
     '': converting NULL to string is unsupported''"

fun scan_strings :: "(nat \<times> string \<times> string option) list \<Rightarrow> string + string list" where
  "scan_strings [] = Inr []"
| "scan_strings ((i, name, c) # cs) =
     (case c of None \<Rightarrow> Inl (scan_null i name)
      | Some s \<Rightarrow> (case scan_strings cs of Inl e \<Rightarrow> Inl e | Inr ss \<Rightarrow> Inr (s # ss)))"

definition metrics_columns :: "string list" where
  "metrics_columns = [''id'', ''metrics_code'', ''metrics_name'', ''measure_type'', ''calculate_type'', ''time_granularity'']"

definition getMetricsMetadata :: "database \<Rightarrow> string \<Rightarrow> string + MetricsMetadata" where
  "getMetricsMetadata db code =
     (case db_metric db code of
        Inl e \<Rightarrow> Inl e
      | Inr [] \<Rightarrow> Inl ''sql: no rows in result set''
      | Inr (row # _) \<Rightarrow>
          (case scan_strings (zip [0..<6] (zip metrics_columns row)) of
             Inl e \<Rightarrow> Inl e
           | Inr [i, c, n, mt, ct, tg] \<Rightarrow> Inr \<lparr>md_ID = i, md_MetricsCode = c, md_MetricsName = n, md_MeasureType = mt,
               md_CalculateType = ct, md_TimeGranularity = tg\<rparr>
           | Inr _ \<Rightarrow> Inl ''sql: expected 6 destination arguments in Scan''))"

function index_loop :: "string \<Rightarrow> nat \<Rightarrow> nat \<Rightarrow> string list" where
  "index_loop prefix current stop =
     (if stop < current then [] else (prefix @ ''_'' @ format_month current) # index_loop prefix (current + 1) stop)"
  by pat_completeness auto
termination by (relation "measure (\<lambda>(_, current, stop). Suc stop - current)") auto

declare index_loop.simps [simp del]

definition buildIndexNames :: "string \<Rightarrow> go_time \<Rightarrow> go_time \<Rightarrow> string list" where
  "buildIndexNames prefix startTime endTime = index_loop prefix (month_index startTime) (month_index endTime)"

definition text_lines :: "string list \<Rightarrow> string" where
  "text_lines ls = join_with [CHR 0x0A] ls"

definition esQueryTemplate :: string where
  "esQueryTemplate = text_lines
    [''{'',
     ''    \"size\": 0,'',
     ''    \"query\": {'',
     ''        \"bool\": {'',
     ''            \"must\": ['',
     ''                {'',
     ''                    \"range\": {'',
     ''                        \"s_time\": {'',
     ''                            \"gte\": \"%s\",'',
     ''                            \"lt\": \"%s\"'',
     ''                        }'',
     ''                    }'',
     ''                },'',
     ''                {'',
     ''                    \"term\": {'',
     ''                        \"metrics_id\": {'',
     ''                            \"value\": \"%s\"'',
     ''                        }'',
     ''                    }'',
     ''                }'',
     ''            ]'',
     ''        }'',
     ''    },'',
     ''    \"aggs\": {'',
     ''        \"total_value\": {'',
     ''            \"sum\": {'',
     ''                \"field\": \"s_data\"'',
     ''            }'',
     ''        }'',
     ''    }'',
     ''}'']"

definition kpiESQueryTemplate :: string where
  "kpiESQueryTemplate = text_lines
    [''{'',
     ''    \"size\": 0,'',
     ''    \"query\": {'',
     ''        \"bool\": {'',
     ''            \"must\": ['',
     ''                {'',
     ''                    \"range\": {'',
     ''                        \"s_time\": {'',
     ''                            \"gte\": \"%s\",'',
     ''                            \"lt\": \"%s\"'',
     ''                        }'',
     ''                    }'',
     ''                },'',
     ''                {'',
     ''                    \"term\": {'',
     ''                        \"kpi_id\": \"%s\"'',
     ''                    }'',
     ''                }'',
     ''            ]'',
     ''        }'',
     ''    },'',
     ''    \"aggs\": {'',
     ''        \"data\": {'',
     ''            \"sum\": {'',
     ''                \"field\": \"s_data\"'',
     ''            }'',
     ''        }'',
     ''    }'',
     ''}'']"

definition buildESQuery :: "string \<Rightarrow> go_time \<Rightarrow> go_time \<Rightarrow> string" where
  "buildESQuery metricsID startTime endTime =
     Sprintf esQueryTemplate [AStr (format_time startTime), AStr (format_time endTime), AStr metricsID]"

definition buildKpiESQuery :: "string \<Rightarrow> go_time \<Rightarrow> go_time \<Rightarrow> string" where
  "buildKpiESQuery metricsID startTime endTime =
     Sprintf kpiESQueryTemplate [AStr (format_time startTime), AStr (format_time endTime), AStr metricsID]"

datatype es_error = Es_failed string | Es_status nat | Es_read string

definition searchES :: "(string \<Rightarrow> string \<Rightarrow> http_reply) \<Rightarrow> string list \<Rightarrow> string \<Rightarrow> es_error + json_doc option" where
  "searchES es indices queryBody =
     (case es (join_with '','' indices) queryBody of
        Http_failed e \<Rightarrow> Inl (Es_failed e)
      | Http_reply status body \<Rightarrow>
          if 299 < status then Inl (Es_status status)
          else (case body of Inl e \<Rightarrow> Inl (Es_read e) | Inr b \<Rightarrow> Inr b))"

definition parseESSumAggregation :: "json_doc option \<Rightarrow> u64" where
  "parseESSumAggregation raw =
     (case unmarshal (dec_struct [(''aggregations'', dec_struct [(''total_value'', dec_struct [(''value'', dec_float)])])]) raw 0 of
        None \<Rightarrow> 0 | Some v \<Rightarrow> v)"

definition parseESDataAggregation :: "json_doc option \<Rightarrow> u64" where
  "parseESDataAggregation raw =
     (case unmarshal (dec_struct [(''aggregations'', dec_struct [(''data'', dec_struct [(''value'', dec_float)])])]) raw 0 of
        None \<Rightarrow> 0 | Some v \<Rightarrow> v)"

text \<open>The result of one code; a failure is a result with the value 0.\<close>

definition metric_result :: "database \<Rightarrow> (string \<Rightarrow> string \<Rightarrow> http_reply) \<Rightarrow> MetricsQueryParams \<Rightarrow> string \<Rightarrow> MetricsResult" where
  "metric_result db es params code =
     (let indices = buildIndexNames ''metrics_data'' (mp_StartTime params) (mp_EndTime params);
          failed = \<lparr>mr_MetricsCode = code, mr_StartTime = format_time (mp_StartTime params),
            mr_EndTime = format_time (mp_EndTime params), mr_Value = 0\<rparr>
      in case getMetricsMetadata db code of
           Inl _ \<Rightarrow> failed
         | Inr meta \<Rightarrow>
             (case searchES es indices (buildESQuery (md_ID meta) (mp_StartTime params) (mp_EndTime params)) of
                Inl _ \<Rightarrow> failed
              | Inr esRaw \<Rightarrow> failed\<lparr>mr_Value := parseESSumAggregation esRaw\<rparr>))"

definition QueryMetrics :: "DataManager \<Rightarrow> MetricsQueryParams \<Rightarrow> (string \<rightharpoonup> MetricsResult) option" where
  "QueryMetrics m params =
     (if mp_MetricsCodes params = [] then Some Map.empty
      else do { db \<leftarrow> dm_db m;
                Some (foldl (\<lambda>results code. results(code \<mapsto> metric_result db (dm_es m) params code)) Map.empty (mp_MetricsCodes params)) })"

definition kpi_result :: "(string \<Rightarrow> string \<Rightarrow> http_reply) \<Rightarrow> KpiQueryParams \<Rightarrow> string \<Rightarrow> KpiResult" where
  "kpi_result es params i =
     (let indices = buildIndexNames ''kpi_data'' (kp_StartTime params) (kp_EndTime params);
          failed = \<lparr>kr_Id = i, kr_StartTime = format_time (kp_StartTime params), kr_EndTime = format_time (kp_EndTime params), kr_Value = 0\<rparr>
      in case searchES es indices (buildKpiESQuery i (kp_StartTime params) (kp_EndTime params)) of
           Inl _ \<Rightarrow> failed
         | Inr esRaw \<Rightarrow> failed\<lparr>kr_Value := parseESDataAggregation esRaw\<rparr>)"

definition QueryKpi :: "DataManager \<Rightarrow> KpiQueryParams \<Rightarrow> string \<rightharpoonup> KpiResult" where
  "QueryKpi m params = foldl (\<lambda>results i. results(i \<mapsto> kpi_result (dm_es m) params i)) Map.empty (kp_Ids params)"

section \<open>Lists of the database\<close>

record KpiInfo =
  ki_Id :: string
  ki_TenantId :: "string option"
  ki_Revision :: "u64 option"
  ki_CreatedBy :: "string option"
  ki_CreatedTime :: "go_time option"
  ki_UpdatedBy :: "string option"
  ki_UpdatedTime :: "go_time option"
  ki_Name :: string
  ki_Formula :: "string option"
  ki_FormulaDataName :: "string option"
  ki_FormulaOri :: string
  ki_TimeGranularity :: string
  ki_TargetData :: "string option"
  ki_SingleQuota :: bool
  ki_DefaultTag :: bool
  ki_CanDelete :: bool
  ki_Unit :: "string option"
  ki_TargetDataType :: string
  ki_Status :: string

record TagInfo =
  ti_Id :: string
  ti_TenantId :: "string option"
  ti_Revision :: "u64 option"
  ti_CreatedBy :: "string option"
  ti_CreatedTime :: "go_time option"
  ti_UpdatedBy :: "string option"
  ti_UpdatedTime :: "go_time option"
  ti_TagId :: "string option"
  ti_TagName :: "string option"
  ti_TagDesc :: "string option"
  ti_LastSynTime :: "go_time option"
  ti_TagType :: "string option"
  ti_TagAttribute :: "string option"
  ti_Enable :: "u64 option"
  ti_ScadaId :: string
  ti_Operator :: "string option"
  ti_OperateValue :: "string option"

record MetricsInfo =
  mi_Id :: string
  mi_TenantId :: "string option"
  mi_Revision :: "u64 option"
  mi_CreatedBy :: "string option"
  mi_CreatedTime :: "go_time option"
  mi_UpdatedBy :: "string option"
  mi_UpdatedTime :: "go_time option"
  mi_DataPoint :: "string option"
  mi_MetricsCode :: "string option"
  mi_MetricsName :: "string option"
  mi_MeasureType :: "string option"
  mi_Enable :: "bool option"
  mi_MetricsType :: "string option"
  mi_CalculateType :: "string option"
  mi_Note :: "string option"

text \<open>A column of bytes is true if its first byte is 1; it is empty if it is \<open>NULL\<close>.\<close>

definition bit_column :: "byte list option \<Rightarrow> bool" where
  "bit_column c = (case c of Some (b # _) \<Rightarrow> b = 1 | _ \<Rightarrow> False)"

definition scan_kpi :: "KpiRow \<Rightarrow> string + KpiInfo" where
  "scan_kpi r =
     (case scan_strings [(0, ''id'', kc_id r), (7, ''name'', kc_name r), (10, ''formula_ori'', kc_formula_ori r),
             (11, ''time_granularity'', kc_time_granularity r), (17, ''target_data_type'', kc_target_data_type r),
             (18, ''status'', kc_status r)] of
        Inl e \<Rightarrow> Inl (''scan ems_kpi row failed: '' @ e)
      | Inr ss \<Rightarrow>
          Inr \<lparr>ki_Id = ss ! 0, ki_TenantId = kc_tenant_id r, ki_Revision = kc_revision r, ki_CreatedBy = kc_created_by r,
            ki_CreatedTime = kc_created_time r, ki_UpdatedBy = kc_updated_by r, ki_UpdatedTime = kc_updated_time r,
            ki_Name = ss ! 1, ki_Formula = kc_formula r, ki_FormulaDataName = kc_formula_data_name r, ki_FormulaOri = ss ! 2,
            ki_TimeGranularity = ss ! 3, ki_TargetData = kc_target_data r, ki_SingleQuota = bit_column (kc_single_quota r),
            ki_DefaultTag = bit_column (kc_default_tag r), ki_CanDelete = bit_column (kc_can_delete r), ki_Unit = kc_unit r,
            ki_TargetDataType = ss ! 4, ki_Status = ss ! 5\<rparr>)"

definition scan_tag :: "TagRow \<Rightarrow> string + TagInfo" where
  "scan_tag r =
     (case scan_strings [(0, ''id'', tc_id r), (14, ''scada_id'', tc_scada_id r)] of
        Inl e \<Rightarrow> Inl (''scan ems_tag row failed: '' @ e)
      | Inr ss \<Rightarrow>
          Inr \<lparr>ti_Id = ss ! 0, ti_TenantId = tc_tenant_id r, ti_Revision = tc_revision r, ti_CreatedBy = tc_created_by r,
            ti_CreatedTime = tc_created_time r, ti_UpdatedBy = tc_updated_by r, ti_UpdatedTime = tc_updated_time r,
            ti_TagId = tc_tag_id r, ti_TagName = tc_tag_name r, ti_TagDesc = tc_tag_desc r, ti_LastSynTime = tc_last_syn_time r,
            ti_TagType = tc_tag_type r, ti_TagAttribute = tc_tag_attribute r, ti_Enable = tc_enable r, ti_ScadaId = ss ! 1,
            ti_Operator = tc_operator r, ti_OperateValue = tc_operate_value r\<rparr>)"

definition scan_metrics :: "MetricsRow \<Rightarrow> string + MetricsInfo" where
  "scan_metrics r =
     (case scan_strings [(0, ''id'', mc_id r)] of
        Inl e \<Rightarrow> Inl (''scan ems_statistics_metrics row failed: '' @ e)
      | Inr ss \<Rightarrow>
          Inr \<lparr>mi_Id = ss ! 0, mi_TenantId = mc_tenant_id r, mi_Revision = mc_revision r, mi_CreatedBy = mc_created_by r,
            mi_CreatedTime = mc_created_time r, mi_UpdatedBy = mc_updated_by r, mi_UpdatedTime = mc_updated_time r,
            mi_DataPoint = mc_data_point r, mi_MetricsCode = mc_metrics_code r, mi_MetricsName = mc_metrics_name r,
            mi_MeasureType = mc_measure_type r, mi_Enable = mc_enable r, mi_MetricsType = mc_metrics_type r,
            mi_CalculateType = mc_calculate_type r, mi_Note = mc_note r\<rparr>)"

text \<open>The loop over the rows stops at the first one that cannot be scanned.\<close>

fun scan_rows :: "('r \<Rightarrow> string + 'i) \<Rightarrow> 'r list \<Rightarrow> string + 'i list" where
  "scan_rows scan [] = Inr []"
| "scan_rows scan (r # rs) =
     (case scan r of Inl e \<Rightarrow> Inl e
      | Inr i \<Rightarrow> (case scan_rows scan rs of Inl e \<Rightarrow> Inl e | Inr is \<Rightarrow> Inr (i # is)))"

definition list_table :: "string \<Rightarrow> ('r \<Rightarrow> string + 'i) \<Rightarrow> string + 'r list \<times> string option \<Rightarrow> string + 'i list" where
  "list_table table scan answer =
     (case answer of
        Inl e \<Rightarrow> Inl (''query '' @ table @ '' failed: '' @ e)
      | Inr (rows, rowsErr) \<Rightarrow>
          (case scan_rows scan rows of
             Inl e \<Rightarrow> Inl e
           | Inr result \<Rightarrow>
               (case rowsErr of Some e \<Rightarrow> Inl (''iterate '' @ table @ '' rows failed: '' @ e) | None \<Rightarrow> Inr result)))"

definition ListKpis :: "DataManager \<Rightarrow> (string + KpiInfo list) option" where
  "ListKpis m = map_option (\<lambda>db. list_table ''ems_kpi'' scan_kpi (db_kpis db)) (dm_db m)"

definition ListTags :: "DataManager \<Rightarrow> (string + TagInfo list) option" where
  "ListTags m = map_option (\<lambda>db. list_table ''ems_tag'' scan_tag (db_tags db)) (dm_db m)"

definition ListMetrics :: "DataManager \<Rightarrow> (string + MetricsInfo list) option" where
  "ListMetrics m = map_option (\<lambda>db. list_table ''ems_statistics_metrics'' scan_metrics (db_metrics db)) (dm_db m)"

section \<open>Time series of tags\<close>

record TagTimeSeriesRequest =
  tq_Select :: string
  tq_Start :: string
  tq_End :: string
  tq_Latest :: bool
  tq_Limit :: "u64 option"
  tq_Mode :: string

record TimeSeriesTO =
  to_Time :: string
  to_Value :: string

record DataPointTimeSeries =
  dp_TagId :: string
  dp_TagName :: string
  dp_TagDesc :: string
  dp_Data :: "TimeSeriesTO option list option"

record TagTimeSeriesResponse =
  tr_Success :: bool
  tr_Code :: u64
  tr_Message :: string
  tr_Data :: "DataPointTimeSeries option list option"

text \<open>A decoder of one field of a struct.\<close>

definition dec_field :: "('s \<Rightarrow> 'f) \<Rightarrow> ('f \<Rightarrow> 's \<Rightarrow> 's) \<Rightarrow> 'f decoder \<Rightarrow> 's decoder" where
  "dec_field get put d j s = (let (f, e) = d j (get s) in (put f s, e))"

definition dec_TimeSeriesTO :: "TimeSeriesTO decoder" where
  "dec_TimeSeriesTO = dec_struct
     [(''time'', dec_field to_Time (\<lambda>x s. s\<lparr>to_Time := x\<rparr>) dec_string),
      (''value'', dec_field to_Value (\<lambda>x s. s\<lparr>to_Value := x\<rparr>) dec_string)]"

definition dec_DataPointTimeSeries :: "DataPointTimeSeries decoder" where
  "dec_DataPointTimeSeries = dec_struct
     [(''tagId'', dec_field dp_TagId (\<lambda>x s. s\<lparr>dp_TagId := x\<rparr>) dec_string),
      (''tagName'', dec_field dp_TagName (\<lambda>x s. s\<lparr>dp_TagName := x\<rparr>) dec_string),
      (''tagDesc'', dec_field dp_TagDesc (\<lambda>x s. s\<lparr>dp_TagDesc := x\<rparr>) dec_string),
      (''data'', dec_field dp_Data (\<lambda>x s. s\<lparr>dp_Data := x\<rparr>)
         (dec_slice None (dec_pointer \<lparr>to_Time = [], to_Value = []\<rparr> dec_TimeSeriesTO)))]"

definition dec_TagTimeSeriesResponse :: "TagTimeSeriesResponse decoder" where
  "dec_TagTimeSeriesResponse = dec_struct
     [(''success'', dec_field tr_Success (\<lambda>x s. s\<lparr>tr_Success := x\<rparr>) dec_bool),
      (''code'', dec_field tr_Code (\<lambda>x s. s\<lparr>tr_Code := x\<rparr>) dec_int),
      (''message'', dec_field tr_Message (\<lambda>x s. s\<lparr>tr_Message := x\<rparr>) dec_string),
      (''data'', dec_field tr_Data (\<lambda>x s. s\<lparr>tr_Data := x\<rparr>)
         (dec_slice None (dec_pointer \<lparr>dp_TagId = [], dp_TagName = [], dp_TagDesc = [], dp_Data = None\<rparr> dec_DataPointTimeSeries)))]"

text \<open>The body of the request is a map, which \<open>Marshal\<close> writes in the order of its keys.\<close>

definition series_body :: "TagTimeSeriesRequest \<Rightarrow> string \<rightharpoonup> body_value" where
  "series_body req =
     (let b = [''select'' \<mapsto> BString (tq_Select req), ''latest'' \<mapsto> BBool (tq_Latest req), ''mode'' \<mapsto> BString ''raw''];
          b = (if tq_Start req \<noteq> [] then b(''start'' \<mapsto> BString (tq_Start req)) else b);
          b = (if tq_End req \<noteq> [] then b(''end'' \<mapsto> BString (tq_End req)) else b);
          b = (case tq_Limit req of Some l \<Rightarrow> b(''limit'' \<mapsto> BInt l) | None \<Rightarrow> b)
      in if tq_Mode req \<noteq> [] then b(''mode'' \<mapsto> BString (tq_Mode req)) else b)"

definition marshal_body :: "(string \<rightharpoonup> body_value) \<Rightarrow> (string \<times> body_value) list" where
  "marshal_body b = List.map_filter (\<lambda>k. map_option (Pair k) (b k)) [''end'', ''latest'', ''limit'', ''mode'', ''select'', ''start'']"

datatype series_error = Ts_request string | Ts_call string | Ts_read string | Ts_status nat | Ts_decode

definition series_reply :: "http_reply \<Rightarrow> series_error + TagTimeSeriesResponse" where
  "series_reply r =
     (case r of
        Http_failed e \<Rightarrow> Inl (Ts_call e)
      | Http_reply status body \<Rightarrow>
          (case body of
             Inl e \<Rightarrow> Inl (Ts_read e)
           | Inr b \<Rightarrow>
               if status \<noteq> 200 then Inl (Ts_status status)
               else (case unmarshal dec_TagTimeSeriesResponse b \<lparr>tr_Success = False, tr_Code = 0, tr_Message = [], tr_Data = None\<rparr> of
                       None \<Rightarrow> Inl Ts_decode | Some t \<Rightarrow> Inr t)))"

text \<open>\<open>url_error\<close> is the error of \<open>NewRequest\<close>, which depends on the address only.\<close>

definition QueryTagTimeSeries ::
    "(string \<Rightarrow> string option) \<Rightarrow> DataManager \<Rightarrow> TagTimeSeriesRequest \<Rightarrow> (series_error + TagTimeSeriesResponse) option" where
  "QueryTagTimeSeries url_error m req =
     (let body = marshal_body (series_body req); url = dm_scadaURL m @ ''/di/scada/v1/portal/timeSeries''
      in case url_error url of
           Some e \<Rightarrow> Some (Inl (Ts_request e))
         | None \<Rightarrow> map_option (\<lambda>client. series_reply (client url body)) (dm_scadaClient m))"

definition QueryEscadaTagTimeSeries ::
    "(string \<Rightarrow> string option) \<Rightarrow> DataManager \<Rightarrow> TagTimeSeriesRequest \<Rightarrow> (series_error + TagTimeSeriesResponse) option" where
  "QueryEscadaTagTimeSeries url_error m req =
     (let body = marshal_body (series_body req); url = dm_escadaURL m @ ''/di/scada/v1/portal/timeSeries''
      in case url_error url of
           Some e \<Rightarrow> Some (Inl (Ts_request e))
         | None \<Rightarrow> map_option (\<lambda>client. series_reply (client url body)) (dm_escadaClient m))"

section \<open>Handlers\<close>

text \<open>The body of a request is decoded and its fields are checked; the text of an error is an argument, \<open>bind_error\<close>.\<close>

definition required_string :: "string \<Rightarrow> bool" where
  "required_string s \<longleftrightarrow> s \<noteq> []"

definition bind_metrics :: "json_doc option \<Rightarrow> MetricsQueryRequest option" where
  "bind_metrics body =
     do { q \<leftarrow> unmarshal (dec_struct
            [(''metricsCodes'', dec_field mq_MetricsCodes (\<lambda>x s. s\<lparr>mq_MetricsCodes := x\<rparr>) (dec_slice [] dec_string)),
             (''startTime'', dec_field mq_StartTime (\<lambda>x s. s\<lparr>mq_StartTime := x\<rparr>) dec_string),
             (''endTime'', dec_field mq_EndTime (\<lambda>x s. s\<lparr>mq_EndTime := x\<rparr>) dec_string),
             (''granularity'', dec_field mq_Granularity (\<lambda>x s. s\<lparr>mq_Granularity := x\<rparr>) dec_string)]) body
            \<lparr>mq_MetricsCodes = None, mq_StartTime = [], mq_EndTime = [], mq_Granularity = []\<rparr>;
          if mq_MetricsCodes q \<noteq> None \<and> required_string (mq_StartTime q) \<and> required_string (mq_EndTime q) \<and> mq_Granularity q = ''h''
          then Some q else None }"

definition bind_kpi :: "json_doc option \<Rightarrow> KpiQueryRequest option" where
  "bind_kpi body =
     do { q \<leftarrow> unmarshal (dec_struct
            [(''ids'', dec_field kq_Ids (\<lambda>x s. s\<lparr>kq_Ids := x\<rparr>) (dec_slice [] dec_string)),
             (''startTime'', dec_field kq_StartTime (\<lambda>x s. s\<lparr>kq_StartTime := x\<rparr>) dec_string),
             (''endTime'', dec_field kq_EndTime (\<lambda>x s. s\<lparr>kq_EndTime := x\<rparr>) dec_string),
             (''granularity'', dec_field kq_Granularity (\<lambda>x s. s\<lparr>kq_Granularity := x\<rparr>) dec_string)]) body
            \<lparr>kq_Ids = None, kq_StartTime = [], kq_EndTime = [], kq_Granularity = []\<rparr>;
          if kq_Ids q \<noteq> None \<and> required_string (kq_StartTime q) \<and> required_string (kq_EndTime q) \<and> kq_Granularity q = ''h''
          then Some q else None }"

definition bind_series :: "json_doc option \<Rightarrow> TagTimeSeriesRequest option" where
  "bind_series body =
     do { q \<leftarrow> unmarshal (dec_struct
            [(''select'', dec_field tq_Select (\<lambda>x s. s\<lparr>tq_Select := x\<rparr>) dec_string),
             (''start'', dec_field tq_Start (\<lambda>x s. s\<lparr>tq_Start := x\<rparr>) dec_string),
             (''end'', dec_field tq_End (\<lambda>x s. s\<lparr>tq_End := x\<rparr>) dec_string),
             (''latest'', dec_field tq_Latest (\<lambda>x s. s\<lparr>tq_Latest := x\<rparr>) dec_bool),
             (''limit'', dec_field tq_Limit (\<lambda>x s. s\<lparr>tq_Limit := x\<rparr>) (dec_pointer 0 dec_int)),
             (''mode'', dec_field tq_Mode (\<lambda>x s. s\<lparr>tq_Mode := x\<rparr>) dec_string)]) body
            \<lparr>tq_Select = [], tq_Start = [], tq_End = [], tq_Latest = False, tq_Limit = None, tq_Mode = []\<rparr>;
          if required_string (tq_Select q) then Some q else None }"

text \<open>Status and body of an answer.\<close>

type_synonym 'a reply = "nat \<times> 'a ResponseModel"

definition answer_text :: "nat \<Rightarrow> string \<Rightarrow> 'a reply" where
  "answer_text status text = (status, \<lparr>rm_Data = Inl text, rm_Total = 0\<rparr>)"

definition answer_data :: "'a \<Rightarrow> u64 \<Rightarrow> 'a reply" where
  "answer_data data n = (200, \<lparr>rm_Data = Inr data, rm_Total = n\<rparr>)"

definition TimeLayout :: string where
  "TimeLayout = ''2006-01-02 15:04:05''"

fun indexOf_from :: "int \<Rightarrow> string list \<Rightarrow> string \<Rightarrow> int" where
  "indexOf_from i [] item = - 1"
| "indexOf_from i (s # ss) item = (if s = item then i else indexOf_from (i + 1) ss item)"

definition indexOf :: "string list \<Rightarrow> string \<Rightarrow> int" where
  "indexOf xs item = indexOf_from 0 xs item"

definition queryMetrics :: "string \<Rightarrow> DataManager \<Rightarrow> json_doc option \<Rightarrow> MetricsResult list reply option" where
  "queryMetrics bind_error mgr body =
     (case bind_metrics body of
        None \<Rightarrow> Some (answer_text 400 (''invalid request: '' @ bind_error))
      | Some req \<Rightarrow>
          (case parse_time (mq_StartTime req) of
             None \<Rightarrow> Some (answer_text 400 (''invalid startTime, expected format: '' @ TimeLayout))
           | Some startTime \<Rightarrow>
               (case parse_time (mq_EndTime req) of
                  None \<Rightarrow> Some (answer_text 400 (''invalid endTime, expected format: '' @ TimeLayout))
                | Some endTime \<Rightarrow>
                    (let codes = (case mq_MetricsCodes req of None \<Rightarrow> [] | Some cs \<Rightarrow> cs)
                     in do { results \<leftarrow> QueryMetrics mgr \<lparr>mp_MetricsCodes = codes, mp_StartTime = startTime, mp_EndTime = endTime,
                               mp_Granularity = mq_Granularity req\<rparr>;
                             let resultList = List.map_filter results codes;
                             let resultList = sort_key (\<lambda>r. indexOf codes (mr_MetricsCode r)) resultList;
                             Some (answer_data resultList (of_nat (length codes))) }))))"

definition queryKpi :: "string \<Rightarrow> DataManager \<Rightarrow> json_doc option \<Rightarrow> KpiResult list reply" where
  "queryKpi bind_error mgr body =
     (case bind_kpi body of
        None \<Rightarrow> answer_text 400 (''invalid request: '' @ bind_error)
      | Some req \<Rightarrow>
          (case parse_time (kq_StartTime req) of
             None \<Rightarrow> answer_text 400 (''invalid startTime, expected format: '' @ TimeLayout)
           | Some startTime \<Rightarrow>
               (case parse_time (kq_EndTime req) of
                  None \<Rightarrow> answer_text 400 (''invalid endTime, expected format: '' @ TimeLayout)
                | Some endTime \<Rightarrow>
                    (let ids = (case kq_Ids req of None \<Rightarrow> [] | Some is \<Rightarrow> is);
                         results = QueryKpi mgr \<lparr>kp_Ids = ids, kp_StartTime = startTime, kp_EndTime = endTime,
                           kp_Granularity = kq_Granularity req\<rparr>;
                         resultList = sort_key (\<lambda>r. indexOf ids (kr_Id r)) (List.map_filter results ids)
                     in answer_data resultList (of_nat (length ids))))))"

definition list_answer :: "string \<Rightarrow> string + 'a list \<Rightarrow> 'a list reply" where
  "list_answer what result =
     (case result of
        Inl _ \<Rightarrow> answer_text 500 (''failed to list '' @ what)
      | Inr rs \<Rightarrow> answer_data rs (of_nat (length rs)))"

definition listKpis :: "DataManager \<Rightarrow> KpiInfo list reply option" where
  "listKpis mgr = map_option (list_answer ''kpis'') (ListKpis mgr)"

definition listMetrics :: "DataManager \<Rightarrow> MetricsInfo list reply option" where
  "listMetrics mgr = map_option (list_answer ''metrics'') (ListMetrics mgr)"

definition listTags :: "DataManager \<Rightarrow> TagInfo list reply option" where
  "listTags mgr = map_option (list_answer ''tags'') (ListTags mgr)"

definition series_answer :: "series_error + TagTimeSeriesResponse \<Rightarrow> DataPointTimeSeries option list option reply" where
  "series_answer result =
     (case result of
        Inl _ \<Rightarrow> answer_text 500 ''failed to query tag time series''
      | Inr r \<Rightarrow> if \<not> tr_Success r then answer_text 500 (tr_Message r) else answer_data (tr_Data r) 0)"

definition queryEscadaTagTimeSeries ::
    "(string \<Rightarrow> string option) \<Rightarrow> string \<Rightarrow> DataManager \<Rightarrow> json_doc option \<Rightarrow> DataPointTimeSeries option list option reply option" where
  "queryEscadaTagTimeSeries url_error bind_error mgr body =
     (case bind_series body of
        None \<Rightarrow> Some (answer_text 400 (''invalid request: '' @ bind_error))
      | Some req \<Rightarrow> map_option series_answer (QueryEscadaTagTimeSeries url_error mgr req))"

definition queryFmcsTagTimeSeries ::
    "(string \<Rightarrow> string option) \<Rightarrow> string \<Rightarrow> DataManager \<Rightarrow> json_doc option \<Rightarrow> DataPointTimeSeries option list option reply option" where
  "queryFmcsTagTimeSeries url_error bind_error mgr body =
     (case bind_series body of
        None \<Rightarrow> Some (answer_text 400 (''invalid request: '' @ bind_error))
      | Some req \<Rightarrow> map_option series_answer (QueryTagTimeSeries url_error mgr req))"

section \<open>The start of the service\<close>

record Options =
  op_Port :: string
  op_MySQLHost :: string
  op_ESURLs :: "string list"
  op_ScadaURL :: string
  op_EScadaURL :: string
  op_CertFile :: string
  op_KeyFile :: string

record Config =
  cf_DB :: "database option"
  cf_DataManager :: "DataManager option"
  cf_ScadaURL :: string
  cf_EscadaURL :: string
  cf_CertFile :: string
  cf_KeyFile :: string

text \<open>What the libraries of the database and the search server return: an error or the handle, the error of a ping, the error
  of a ping or whether its status is an error, and the HTTP client.\<close>

record libraries =
  lib_open :: "Options \<Rightarrow> string + database"
  lib_ping :: "database \<Rightarrow> string option"
  lib_es :: "Options \<Rightarrow> string + (string \<Rightarrow> string \<Rightarrow> http_reply)"
  lib_es_ping :: "string + bool"
  lib_http :: "string \<Rightarrow> (string \<times> body_value) list \<Rightarrow> http_reply"

definition WithScadaURL :: "libraries \<Rightarrow> string \<Rightarrow> DataManager \<Rightarrow> DataManager" where
  "WithScadaURL lib url m = m\<lparr>dm_scadaURL := url, dm_scadaClient := Some (lib_http lib)\<rparr>"

definition WithEScadaURL :: "libraries \<Rightarrow> string \<Rightarrow> DataManager \<Rightarrow> DataManager" where
  "WithEScadaURL lib url m = m\<lparr>dm_escadaURL := url, dm_escadaClient := Some (lib_http lib)\<rparr>"

definition NewDataManager :: "database option \<Rightarrow> (string \<Rightarrow> string \<Rightarrow> http_reply) \<Rightarrow> (DataManager \<Rightarrow> DataManager) list \<Rightarrow> DataManager" where
  "NewDataManager db es opts =
     foldl (\<lambda>m opt. opt m) \<lparr>dm_db = db, dm_es = es, dm_scadaURL = [], dm_escadaURL = [], dm_scadaClient = None, dm_escadaClient = None\<rparr> opts"

definition connect_mysql :: "libraries \<Rightarrow> Options \<Rightarrow> string + database option" where
  "connect_mysql lib opts =
     (if op_MySQLHost opts = [] then Inr None
      else case lib_open lib opts of
             Inl e \<Rightarrow> Inl e
           | Inr db \<Rightarrow> (case lib_ping lib db of Some e \<Rightarrow> Inl e | None \<Rightarrow> Inr (Some db)))"

text \<open>A configuration that is \<open>None\<close> is a nil pointer, which is returned with the error of the last call, nil.\<close>

definition options_Config :: "libraries \<Rightarrow> Options \<Rightarrow> string + Config option" where
  "options_Config lib opts =
     (case connect_mysql lib opts of
        Inl e \<Rightarrow> Inl e
      | Inr db \<Rightarrow>
          (case lib_es lib opts of
             Inl e \<Rightarrow> Inl e
           | Inr es \<Rightarrow>
               (case lib_es_ping lib of
                  Inl e \<Rightarrow> Inl e
                | Inr True \<Rightarrow> Inr None
                | Inr False \<Rightarrow>
                    Inr (Some \<lparr>cf_DB = db,
                      cf_DataManager = Some (NewDataManager db es [WithScadaURL lib (op_ScadaURL opts), WithEScadaURL lib (op_EScadaURL opts)]),
                      cf_ScadaURL = op_ScadaURL opts, cf_EscadaURL = op_EScadaURL opts,
                      cf_CertFile = op_CertFile opts, cf_KeyFile = op_KeyFile opts\<rparr>))))"

text \<open>\<open>NewServer\<close> installs the handlers, which takes the data manager from the configuration.\<close>

datatype data_handler = H_queryMetrics | H_listMetrics | H_queryKpi | H_listKpis | H_listTags | H_queryFmcs | H_queryEscada

definition InstallHandler :: "string \<Rightarrow> (string \<times> string \<times> data_handler) list" where
  "InstallHandler prefix =
     [(''POST'', prefix @ ''/metricsData'', H_queryMetrics), (''GET'', prefix @ ''/metrics'', H_listMetrics),
      (''POST'', prefix @ ''/kpi'', H_queryKpi), (''GET'', prefix @ ''/kpis'', H_listKpis), (''GET'', prefix @ ''/tags'', H_listTags),
      (''POST'', prefix @ ''/fmcs/tagTimeSeries'', H_queryFmcs), (''POST'', prefix @ ''/escada/tagTimeSeries'', H_queryEscada)]"

definition InstallHandlers :: "Config option \<Rightarrow> (DataManager option \<times> (string \<times> string \<times> data_handler) list) option" where
  "InstallHandlers c = map_option (\<lambda>c. (cf_DataManager c, InstallHandler ''/api/v1'')) c"

definition data_run :: "libraries \<Rightarrow> Options \<Rightarrow> (string + DataManager option \<times> (string \<times> string \<times> data_handler) list) option" where
  "data_run lib opts =
     (case options_Config lib opts of
        Inl e \<Rightarrow> Some (Inl e)
      | Inr c \<Rightarrow> map_option Inr (InstallHandlers c))"

section \<open>The indices of a range of months\<close>

lemma index_loop_map: "index_loop prefix k m = map (\<lambda>k. prefix @ ''_'' @ format_month k) [k..<Suc m]"
proof (induction prefix k m rule: index_loop.induct)
  case (1 prefix k m)
  show ?case
  proof (cases "m < k")
    case True
    then show ?thesis by (subst index_loop.simps) simp
  next
    case False
    then have "[k..<Suc m] = k # [k + 1..<Suc m]" by (simp only: upt_conv_Cons Suc_eq_plus1 less_Suc_eq_le not_less)
    then show ?thesis using 1 [OF False] False by (subst index_loop.simps) (simp only: if_False list.map)
  qed
qed



section \<open>Queries\<close>

lemma results_foldl: "foldl (\<lambda>m c. m(c \<mapsto> f c)) M cs = (\<lambda>c. if c \<in> set cs then Some (f c) else M c)"
  by (induction cs arbitrary: M) auto

lemma map_filter_results: "List.map_filter (\<lambda>c. if c \<in> set cs then Some (f c) else M c) cs = map f cs"
proof -
  have "List.map_filter (\<lambda>c. if c \<in> set cs then Some (f c) else M c) xs = map f xs" if "set xs \<subseteq> set cs" for xs
    using that by (induction xs) (auto simp: List.map_filter_simps)
  then show ?thesis by simp
qed

lemma insort_key_map: "insort_key k (f x) (map f xs) = map f (insort_key (\<lambda>x. k (f x)) x xs)"
  by (induction xs) auto

lemma sort_key_map_eq: "sort_key k (map f xs) = map f (sort_key (\<lambda>x. k (f x)) xs)"
  by (induction xs) (auto simp: insort_key_map)

lemma indexOf_from_nth: "distinct xs \<Longrightarrow> k < length xs \<Longrightarrow> indexOf_from i xs (xs ! k) = i + int k"
proof (induction xs arbitrary: i k)
  case (Cons x xs)
  then show ?case by (cases k) auto
qed simp

lemma sort_indexOf_distinct:
  assumes "distinct xs"
  shows "sort_key (indexOf xs) xs = xs"
proof (rule sort_key_id_if_sorted)
  have "map (indexOf xs) xs = map int [0..<length xs]"
    using indexOf_from_nth [OF assms, of _ 0] by (intro nth_equalityI) (simp_all add: indexOf_def)
  moreover have "sorted (map int [0..<n])" for n by (simp add: sorted_iff_nth_mono)
  ultimately show "sorted (map (indexOf xs) xs)" by simp
qed

lemma metric_result_code [simp]: "mr_MetricsCode (metric_result db es params code) = code"
  by (simp add: metric_result_def Let_def split: sum.split)

lemma kpi_result_id [simp]: "kr_Id (kpi_result es params i) = i"
  by (simp add: kpi_result_def Let_def split: sum.split)

lemma queryMetrics_ok:
  assumes "bind_metrics body = Some req" and "mq_MetricsCodes req = Some codes" and "parse_time (mq_StartTime req) = Some a"
    and "parse_time (mq_EndTime req) = Some b" and "dm_db mgr = Some db"
  shows "queryMetrics err mgr body = Some (answer_data
     (map (metric_result db (dm_es mgr) \<lparr>mp_MetricsCodes = codes, mp_StartTime = a, mp_EndTime = b, mp_Granularity = mq_Granularity req\<rparr>)
       (sort_key (indexOf codes) codes)) (of_nat (length codes)))"
proof (cases "codes = []")
  case True
  then show ?thesis using assms by (simp add: queryMetrics_def QueryMetrics_def Let_def List.map_filter_simps)
next
  case False
  then show ?thesis using assms
    by (simp add: queryMetrics_def QueryMetrics_def Let_def results_foldl map_filter_results [where M = Map.empty] sort_key_map_eq)
qed


text \<open>Results of the same code stand together, at the place of the first.\<close>

lemma duplicates_moved: "sort_key (indexOf [''a'', ''b'', ''a'']) [''a'', ''b'', ''a''] = [''a'', ''a'', ''b'']"
  by (simp add: indexOf_def)

text \<open>C36: A failure is answered as the sum 0: if the search server fails for every query, the answer has status 200 and the
  value 0 for every code.\<close>

theorem metrics_failure_is_zero:
  assumes "bind_metrics body = Some req" and "mq_MetricsCodes req = Some codes" and "parse_time (mq_StartTime req) = Some a"
    and "parse_time (mq_EndTime req) = Some b" and "dm_db mgr = Some db" and "\<And>index query. dm_es mgr index query = Http_failed e"
  shows "\<exists>rs n. queryMetrics err mgr body = Some (200, \<lparr>rm_Data = Inr rs, rm_Total = n\<rparr>) \<and> mset (map mr_MetricsCode rs) = mset codes \<and>
    (\<forall>r \<in> set rs. mr_Value r = 0)"
proof -
  have "mr_Value (metric_result db (dm_es mgr) params code) = 0" for params code
    by (simp add: metric_result_def searchES_def assms(6) Let_def split: sum.split)
  then show ?thesis using queryMetrics_ok [OF assms(1-5), of err] by (auto simp: answer_data_def multiset.map_comp comp_def)
qed

definition one_row :: database where
  "one_row = \<lparr>db_metric = (\<lambda>code. if code = ''m'' then Inr [[Some ''7'', Some ''m'', Some ''M'', Some ''t'', Some ''c'', Some ''h'']]
       else if code = ''n'' then Inr [[Some ''8'', Some ''n'', Some ''N'', None, Some ''c'', Some ''h'']] else Inr []),
     db_kpis = Inr ([], None), db_tags = Inr ([], None), db_metrics = Inr ([], None)\<rparr>"

definition sum_reply :: "u64 \<Rightarrow> json_doc" where
  "sum_reply v = JObj [(''aggregations'', JObj [(''total_value'', JObj [(''value'', JNum (Some v) None)])])]"

definition with_reply :: "http_reply \<Rightarrow> DataManager" where
  "with_reply r = NewDataManager (Some one_row) (\<lambda>_ _. r) []"

definition metrics_body :: "string \<Rightarrow> json_doc" where
  "metrics_body code = JObj [(''metricsCodes'', JArr [JStr code]), (''startTime'', JStr ''2026-07-01 00:00:00''),
     (''endTime'', JStr ''2026-07-02 00:00:00''), (''granularity'', JStr ''h'')]"

definition july :: "nat \<Rightarrow> go_time" where
  "july d = \<lparr>tm_year = 2026, tm_month = 7, tm_day = d, tm_hour = 0, tm_minute = 0, tm_second = 0, tm_nano = 0\<rparr>"

lemma example_request:
  "bind_metrics (Some (metrics_body code)) = Some \<lparr>mq_MetricsCodes = Some [code], mq_StartTime = ''2026-07-01 00:00:00'',
     mq_EndTime = ''2026-07-02 00:00:00'', mq_Granularity = ''h''\<rparr>"
  "parse_time ''2026-07-01 00:00:00'' = Some (july 1)" "parse_time ''2026-07-02 00:00:00'' = Some (july 2)"
  "dm_db (with_reply r) = Some one_row" "dm_es (with_reply r) = (\<lambda>_ _. r)"
  subgoal by (simp add: bind_metrics_def metrics_body_def unmarshal_def dec_struct_def field_decoder_def dec_field_def dec_slice_def
    dec_string_def required_string_def)
  subgoal by (simp add: july_def) code_simp
  subgoal by (simp add: july_def) code_simp
  by (simp_all add: with_reply_def NewDataManager_def)


lemma metrics_failure_is_zero_witness:
  "\<exists>rs n. queryMetrics [] (with_reply (Http_failed ''refused'')) (Some (metrics_body ''m'')) = Some (200, \<lparr>rm_Data = Inr rs, rm_Total = n\<rparr>) \<and>
     (\<forall>r \<in> set rs. mr_Value r = 0)"
  using metrics_failure_is_zero [OF example_request(1) _ _ _ example_request(4), where e = "''refused''" and err = "[]"]
    example_request(2,3,5) by simp blast

text \<open>A metric one of whose columns is \<open>NULL\<close> is listed with the others, but its sum reads as 0, whatever the search server
  holds: the row is scanned into strings.\<close>

theorem null_column_reads_zero:
  assumes "db_metric db code = Inr (row # rows)" and "length row = 6" and "None \<in> set row"
  shows "mr_Value (metric_result db es params code) = 0"
proof -
  have "\<exists>e. scan_strings cs = Inl e" if "(i, name, None) \<in> set cs" for i name cs
    using that by (induction cs) (auto split: option.splits sum.splits)
  moreover have "\<exists>i name. (i, name, None) \<in> set (zip [0..<6] (zip metrics_columns row))"
  proof -
    have "map (snd \<circ> snd) (zip [0..<6] (zip metrics_columns row)) = row"
      using assms(2) by (simp add: metrics_columns_def flip: map_map)
    then have "set row = (snd \<circ> snd) ` set (zip [0..<6] (zip metrics_columns row))" by (metis set_map)
    then obtain c where "c \<in> set (zip [0..<6] (zip metrics_columns row))" "None = (snd \<circ> snd) c" using assms(3) by blast
    then have "(fst c, fst (snd c), None) \<in> set (zip [0..<6] (zip metrics_columns row))"
      by (metis comp_apply prod.collapse)
    then show ?thesis by blast
  qed
  ultimately obtain e where "scan_strings (zip [0..<6] (zip metrics_columns row)) = Inl e" by blast
  then show ?thesis using assms(1) by (simp add: metric_result_def getMetricsMetadata_def Let_def)
qed

lemma null_column_reads_zero_witness:
  "mr_Value (metric_result one_row (\<lambda>_ _. Http_reply 200 (Inr (Some (sum_reply 5)))) \<lparr>mp_MetricsCodes = [''n''],
     mp_StartTime = july 1, mp_EndTime = july 2, mp_Granularity = ''h''\<rparr> ''n'') = 0"
  using null_column_reads_zero [of one_row "''n''" "[Some ''8'', Some ''n'', Some ''N'', None, Some ''c'', Some ''h'']" "[]"]
  by (simp add: one_row_def)

lemma empty_codes_accepted:
  assumes "dm_db mgr = Some db"
  shows "queryMetrics err mgr (Some (JObj [(''metricsCodes'', JArr []), (''startTime'', JStr ''2026-07-01 00:00:00''),
     (''endTime'', JStr ''2026-07-02 00:00:00''), (''granularity'', JStr ''h'')])) = Some (200, \<lparr>rm_Data = Inr [], rm_Total = 0\<rparr>)"
proof -
  let ?body = "Some (JObj [(''metricsCodes'', JArr []), (''startTime'', JStr ''2026-07-01 00:00:00''),
     (''endTime'', JStr ''2026-07-02 00:00:00''), (''granularity'', JStr ''h'')])"
  have "bind_metrics ?body = Some \<lparr>mq_MetricsCodes = Some [], mq_StartTime = ''2026-07-01 00:00:00'',
     mq_EndTime = ''2026-07-02 00:00:00'', mq_Granularity = ''h''\<rparr>"
    by (simp add: bind_metrics_def unmarshal_def dec_struct_def field_decoder_def dec_field_def dec_slice_def dec_string_def required_string_def)
  from queryMetrics_ok [OF this _ _ _ assms, of "[]"] example_request(2,3) show ?thesis by (simp add: answer_data_def)
qed

section \<open>Lists\<close>

lemma scan_rows_all: "(\<And>r. r \<in> set rs \<Longrightarrow> \<exists>i. scan r = Inr i \<and> P r i) \<Longrightarrow> \<exists>is. scan_rows scan rs = Inr is \<and> list_all2 P rs is"
proof (induction rs)
  case (Cons r rs)
  then obtain i "is" where "scan r = Inr i" "P r i" "scan_rows scan rs = Inr is" "list_all2 P rs is" by fastforce
  then show ?case by simp
qed simp

lemma scan_rows_none: "r \<in> set rs \<Longrightarrow> scan r = Inl e \<Longrightarrow> \<exists>e. scan_rows scan rs = Inl e"
  by (induction rs) (auto split: sum.splits)

definition kpi_complete :: "KpiRow \<Rightarrow> bool" where
  "kpi_complete r \<longleftrightarrow> kc_id r \<noteq> None \<and> kc_name r \<noteq> None \<and> kc_formula_ori r \<noteq> None \<and> kc_time_granularity r \<noteq> None \<and>
     kc_target_data_type r \<noteq> None \<and> kc_status r \<noteq> None"

text \<open>C37: The list of the KPIs has one entry for each row, in the order of the rows, with its id, its name and its optional columns,
  if the columns that are read into strings are not \<open>NULL\<close> in any row; a \<open>NULL\<close> in one of them in one row makes the whole list fail.\<close>

theorem kpis_listed_or_fail:
  assumes "dm_db mgr = Some db" and "db_kpis db = Inr (rows, None)"
  shows "if \<forall>r \<in> set rows. kpi_complete r
    then \<exists>infos. listKpis mgr = Some (200, \<lparr>rm_Data = Inr infos, rm_Total = of_nat (length rows)\<rparr>) \<and>
      list_all2 (\<lambda>r k. kc_id r = Some (ki_Id k) \<and> kc_name r = Some (ki_Name k) \<and> kc_unit r = ki_Unit k \<and>
        ki_CanDelete k = (kc_can_delete r \<noteq> None \<and> kc_can_delete r \<noteq> Some [] \<and> hd (the (kc_can_delete r)) = 1)) rows infos
    else listKpis mgr = Some (500, \<lparr>rm_Data = Inl ''failed to list kpis'', rm_Total = 0\<rparr>)"
proof -
  let ?P = "\<lambda>r k. kc_id r = Some (ki_Id k) \<and> kc_name r = Some (ki_Name k) \<and> kc_unit r = ki_Unit k \<and>
        ki_CanDelete k = (kc_can_delete r \<noteq> None \<and> kc_can_delete r \<noteq> Some [] \<and> hd (the (kc_can_delete r)) = 1)"
  have complete: "\<exists>k. scan_kpi r = Inr k \<and> ?P r k" if "kpi_complete r" for r
    using that by (auto simp: scan_kpi_def kpi_complete_def bit_column_def split: option.splits list.splits)
  have null: "\<exists>e. scan_kpi r = Inl e" if "\<not> kpi_complete r" for r
    using that by (auto simp: scan_kpi_def kpi_complete_def split: option.splits sum.splits)
  show ?thesis
  proof (cases "\<forall>r \<in> set rows. kpi_complete r")
    case True
    then obtain infos where "scan_rows scan_kpi rows = Inr infos" "list_all2 ?P rows infos"
      using scan_rows_all [of rows scan_kpi ?P] complete by blast
    moreover have "length infos = length rows" using calculation(2) by (simp add: list_all2_lengthD)
    ultimately show ?thesis
      using True assms by (simp add: listKpis_def ListKpis_def list_table_def list_answer_def answer_data_def)
  next
    case False
    then obtain r where "r \<in> set rows" "\<not> kpi_complete r" by blast
    then obtain e where "scan_rows scan_kpi rows = Inl e" using null scan_rows_none by metis
    then show ?thesis
      using False assms by (simp add: listKpis_def ListKpis_def list_table_def list_answer_def answer_text_def)
  qed
qed

definition kpi_row :: "string option \<Rightarrow> KpiRow" where
  "kpi_row name = \<lparr>kc_id = Some ''1'', kc_tenant_id = None, kc_revision = None, kc_created_by = None, kc_created_time = None,
     kc_updated_by = None, kc_updated_time = None, kc_name = name, kc_formula = None, kc_formula_data_name = None,
     kc_formula_ori = Some ''a+b'', kc_time_granularity = Some ''h'', kc_target_data = None, kc_single_quota = Some [1],
     kc_default_tag = None, kc_can_delete = Some [0], kc_unit = Some ''kWh'', kc_target_data_type = Some ''1'', kc_status = Some ''1''\<rparr>"

lemma kpis_listed_or_fail_witness:
  "listKpis (with_reply (Http_failed []) \<lparr>dm_db := Some (one_row\<lparr>db_kpis := Inr ([kpi_row (Some ''k''), kpi_row None], None)\<rparr>)\<rparr>) =
     Some (500, \<lparr>rm_Data = Inl ''failed to list kpis'', rm_Total = 0\<rparr>)"
  using kpis_listed_or_fail [of "with_reply (Http_failed []) \<lparr>dm_db := Some (one_row\<lparr>db_kpis := Inr ([kpi_row (Some ''k''), kpi_row None], None)\<rparr>)\<rparr>"
      "one_row\<lparr>db_kpis := Inr ([kpi_row (Some ''k''), kpi_row None], None)\<rparr>" "[kpi_row (Some ''k''), kpi_row None]"]
  by (simp add: kpi_complete_def kpi_row_def)

section \<open>Time series and start\<close>

text \<open>The request for time series names the tags and the mode, \<open>raw\<close> unless the request gives one, and has the start, the end and
  the limit only if they are given; its keys are sorted.\<close>

theorem series_request_sent:
  assumes "url_error (dm_scadaURL mgr @ ''/di/scada/v1/portal/timeSeries'') = None" and "dm_scadaClient mgr = Some client"
  shows "QueryTagTimeSeries url_error mgr req = Some (series_reply (client (dm_scadaURL mgr @ ''/di/scada/v1/portal/timeSeries'')
    ((if tq_End req = [] then [] else [(''end'', BString (tq_End req))]) @
     [(''latest'', BBool (tq_Latest req))] @
     (case tq_Limit req of None \<Rightarrow> [] | Some l \<Rightarrow> [(''limit'', BInt l)]) @
     [(''mode'', BString (if tq_Mode req = [] then ''raw'' else tq_Mode req)), (''select'', BString (tq_Select req))] @
     (if tq_Start req = [] then [] else [(''start'', BString (tq_Start req))]))))"
  using assms by (simp add: QueryTagTimeSeries_def marshal_body_def series_body_def Let_def List.map_filter_simps split: option.split)

lemma series_request_sent_witness:
  "QueryTagTimeSeries (\<lambda>_. None) (NewDataManager None (\<lambda>_ _. Http_failed []) [] \<lparr>dm_scadaURL := ''https://h'',
       dm_scadaClient := Some (\<lambda>_ body. Http_reply (length body) (Inr None))\<rparr>)
     \<lparr>tq_Select = ''t1'', tq_Start = [], tq_End = [], tq_Latest = True, tq_Limit = None, tq_Mode = []\<rparr> = Some (Inl (Ts_status 3))"
  by (subst series_request_sent [where client = "\<lambda>_ body. Http_reply (length body) (Inr None)"]) (simp_all add: series_reply_def)

text \<open>C38: The service panics at its start in one case: the search server answers the ping with an error status. The error is
  then nil, and the configuration too.\<close>

theorem start_panics_on_ping_status:
  "data_run lib opts = None \<longleftrightarrow>
     (op_MySQLHost opts = [] \<or> (\<exists>db. lib_open lib opts = Inr db \<and> lib_ping lib db = None)) \<and>
     (\<exists>es. lib_es lib opts = Inr es) \<and> lib_es_ping lib = Inr True"
  by (auto simp: data_run_def options_Config_def connect_mysql_def InstallHandlers_def split: sum.splits bool.splits option.splits if_splits)

text \<open>Without a database host the service starts, and every list panics.\<close>

lemma no_database_panics:
  assumes "op_MySQLHost opts = []" and "lib_es lib opts = Inr es" and "lib_es_ping lib = Inr False"
  shows "\<exists>m. data_run lib opts = Some (Inr (Some m, InstallHandler ''/api/v1'')) \<and> listKpis m = None \<and> listTags m = None \<and> listMetrics m = None"
  using assms by (simp add: data_run_def options_Config_def connect_mysql_def InstallHandlers_def NewDataManager_def WithScadaURL_def
      WithEScadaURL_def listKpis_def ListKpis_def listTags_def ListTags_def listMetrics_def ListMetrics_def)

end
