(* ===== verification/Bstream.thy ===== *)
theory Bstream
  imports GoPrelude
begin

text \<open>
  Model of \<^verbatim>\<open>pkg/tsdb/chunkenc/bstream.go\<close>: a stream of bits that is written at its end, in an array of bytes
  with a count of the bits still free in the last one, and a reader that takes the bits from a buffer of up to
  eight bytes. The abstraction of both is the list of the bits. The functions of \<^verbatim>\<open>encoding/binary\<close> that
  write and read integers of variable length are written out at the end.
\<close>

section \<open>Bits of words\<close>

text \<open>The lowest \<open>n\<close> bits, the most significant first.\<close>

definition word_bits :: "nat \<Rightarrow> 'a :: len word \<Rightarrow> bool list" where
  "word_bits n w = map (bit w) (rev [0..<n])"

definition bytes_bits :: "byte list \<Rightarrow> bool list" where
  "bytes_bits bs = concat (map (word_bits 8) bs)"

lemma length_word_bits [simp]: "length (word_bits n w) = n"
  by (simp add: word_bits_def)

lemma word_bits_0 [simp]: "word_bits 0 w = []"
  by (simp add: word_bits_def)

lemma word_bits_Suc: "word_bits (Suc n) w = bit w n # word_bits n w"
  by (simp add: word_bits_def)

lemma word_bits_eq_iff: "word_bits n v = word_bits n w \<longleftrightarrow> (\<forall>i < n. bit v i = bit w i)"
  by (auto simp: word_bits_def)

lemma word_bits_cong: "(\<And>i. i < n \<Longrightarrow> bit v i = bit w i) \<Longrightarrow> word_bits n v = word_bits n w"
  by (simp add: word_bits_eq_iff)

lemma word_bits_add: "word_bits (m + n) w = word_bits m (drop_bit n w) @ word_bits n w"
  by (induction m) (simp_all add: word_bits_Suc bit_drop_bit_eq add.commute)

lemma word_bits_split: "k \<le> n \<Longrightarrow> word_bits n w = word_bits (n - k) (drop_bit k w) @ word_bits k w"
  using word_bits_add [of "n - k" k w] by simp

lemma take_word_bits: "k \<le> n \<Longrightarrow> take k (word_bits n w) = word_bits k (drop_bit (n - k) w)"
  using word_bits_split [of "n - k" n w] by simp

lemma drop_word_bits: "k \<le> n \<Longrightarrow> drop k (word_bits n w) = word_bits (n - k) w"
  using word_bits_split [of "n - k" n w] by simp

lemma word_bits_zero: "(\<And>i. i < n \<Longrightarrow> \<not> bit w i) \<Longrightarrow> word_bits n w = replicate n False"
  by (rule nth_equalityI) (auto simp: word_bits_def rev_nth)

lemma word_bits_replicate_iff: "word_bits n w = replicate n False \<longleftrightarrow> (\<forall>i < n. \<not> bit w i)"
  by (induction n) (auto simp: word_bits_Suc less_Suc_eq)

lemma word_bits_inject:
  fixes v w :: "'a :: len word"
  assumes "word_bits n v = word_bits n w" "take_bit n v = v"
  shows "v = take_bit n w"
proof (rule bit_word_eqI)
  fix i
  have "bit v i \<longleftrightarrow> bit (take_bit n v) i" using assms(2) by simp
  then show "bit v i = bit (take_bit n w) i" using assms(1) by (auto simp: word_bits_eq_iff bit_take_bit_iff)
qed

lemma length_bytes_bits [simp]: "length (bytes_bits bs) = 8 * length bs"
  by (induction bs) (simp_all add: bytes_bits_def)

lemma bytes_bits_append [simp]: "bytes_bits (xs @ ys) = bytes_bits xs @ bytes_bits ys"
  by (simp add: bytes_bits_def)

lemma bytes_bits_Nil [simp]: "bytes_bits [] = []"
  by (simp add: bytes_bits_def)

lemma bytes_bits_Cons [simp]: "bytes_bits (x # xs) = word_bits 8 x @ bytes_bits xs"
  by (simp add: bytes_bits_def)

lemma bytes_bits_eq_Nil [simp]: "bytes_bits bs = [] \<longleftrightarrow> bs = []"
  by (cases bs) (auto dest: arg_cong [where f = length])

section \<open>Writing\<close>

record bstream =
  bs_stream :: "byte list"
  bs_count :: byte

text \<open>The first lines of \<open>writeBit\<close> and of \<open>writeByte\<close>: a full stream gets a new byte.\<close>

definition open_byte :: "bstream \<Rightarrow> bstream" where
  "open_byte b = (if bs_count b = 0 then b\<lparr>bs_stream := bs_stream b @ [0], bs_count := 8\<rparr> else b)"

definition writeBit :: "bool \<Rightarrow> bstream \<Rightarrow> bstream" where
  "writeBit v b =
     (let b = open_byte b;
          i = length (bs_stream b) - 1;
          b = (if v then b\<lparr>bs_stream := (bs_stream b)[i := bs_stream b ! i OR push_bit (unat (bs_count b - 1)) 1]\<rparr> else b)
      in b\<lparr>bs_count := bs_count b - 1\<rparr>)"

definition writeByte :: "byte \<Rightarrow> bstream \<Rightarrow> bstream" where
  "writeByte byt b =
     (let b = open_byte b;
          i = length (bs_stream b) - 1
      in b\<lparr>bs_stream := (bs_stream b)[i := bs_stream b ! i OR drop_bit (unat (8 - bs_count b)) byt] @
             [push_bit (unat (bs_count b)) byt]\<rparr>)"

fun write_byte_loop :: "u64 \<Rightarrow> nat \<Rightarrow> bstream \<Rightarrow> u64 \<times> nat \<times> bstream" where
  "write_byte_loop u nbits b =
     (if 8 \<le> nbits then write_byte_loop (push_bit 8 u) (nbits - 8) (writeByte (ucast (drop_bit 56 u)) b)
      else (u, nbits, b))"

declare write_byte_loop.simps [simp del]

primrec write_bit_loop :: "u64 \<Rightarrow> nat \<Rightarrow> bstream \<Rightarrow> bstream" where
  "write_bit_loop u 0 b = b"
| "write_bit_loop u (Suc nbits) b = write_bit_loop (push_bit 1 u) nbits (writeBit (drop_bit 63 u = 1) b)"

definition writeBits :: "u64 \<Rightarrow> nat \<Rightarrow> bstream \<Rightarrow> bstream" where
  "writeBits u nbits b =
     (let (u, nbits, b) = write_byte_loop (push_bit (64 - nbits) u) nbits b
      in write_bit_loop u nbits b)"

text \<open>A stream holds a list of bits, if its bytes are these bits and the free bits of the last byte are zero.\<close>

definition holds :: "bstream \<Rightarrow> bool list \<Rightarrow> bool" where
  "holds b w \<longleftrightarrow> unat (bs_count b) \<le> 8 \<and> bytes_bits (bs_stream b) = w @ replicate (unat (bs_count b)) False"

lemma holds_open_byte:
  assumes "holds b w"
  obtains xs x where "bs_stream (open_byte b) = xs @ [x]" "0 < unat (bs_count (open_byte b))"
    "unat (bs_count (open_byte b)) \<le> 8" "w = bytes_bits xs @ word_bits (8 - unat (bs_count (open_byte b))) (drop_bit (unat (bs_count (open_byte b))) x)"
    "\<And>i. i < unat (bs_count (open_byte b)) \<Longrightarrow> \<not> bit x i"
proof (cases "bs_count b = 0")
  case True
  then show thesis using assms by (intro that [of "bs_stream b" 0]) (simp_all add: open_byte_def holds_def)
next
  case False
  let ?c = "unat (bs_count b)"
  have c: "0 < ?c" "?c \<le> 8" using False assms by (simp_all add: holds_def unat_gt_0)
  have bits: "bytes_bits (bs_stream b) = w @ replicate ?c False" using assms by (simp add: holds_def)
  have "bs_stream b \<noteq> []" using bits c(1) by (metis append_is_Nil_conv bytes_bits_Nil less_irrefl replicate_empty)
  then obtain xs x where s: "bs_stream b = xs @ [x]" by (metis rev_exhaust)
  have "(bytes_bits xs @ word_bits (8 - ?c) (drop_bit ?c x)) @ word_bits ?c x = w @ replicate ?c False"
    using bits s word_bits_split [OF c(2), of x] by simp
  then have "w = bytes_bits xs @ word_bits (8 - ?c) (drop_bit ?c x) \<and> word_bits ?c x = replicate ?c False"
    by (subst (asm) append_eq_append_conv) simp_all
  then show thesis using False s c by (intro that [of xs x]) (auto simp: open_byte_def word_bits_replicate_iff)
qed

lemma holds_writeBit:
  assumes "holds b w"
  shows "holds (writeBit v b) (w @ [v])"
proof -
  obtain xs x where s: "bs_stream (open_byte b) = xs @ [x]" "0 < unat (bs_count (open_byte b))"
    "unat (bs_count (open_byte b)) \<le> 8"
    "w = bytes_bits xs @ word_bits (8 - unat (bs_count (open_byte b))) (drop_bit (unat (bs_count (open_byte b))) x)"
    and z: "\<And>i. i < unat (bs_count (open_byte b)) \<Longrightarrow> \<not> bit x i"
    using holds_open_byte [OF assms] by metis
  define c where "c = unat (bs_count (open_byte b)) - 1"
  have c: "unat (bs_count (open_byte b)) = Suc c" "c \<le> 7" using s(2,3) by (simp_all add: c_def)
  have c1: "unat (bs_count (open_byte b) - 1) = c"
    using c s(2) by (simp add: unat_minus_one c_def unat_gt_0)
  define y where "y = (if v then x OR push_bit c 1 else x)"
  have stream: "bs_stream (writeBit v b) = xs @ [y]" "bs_count (writeBit v b) = bs_count (open_byte b) - 1"
    by (simp_all add: writeBit_def Let_def s(1) c1 y_def)
  have "word_bits 8 y = word_bits (8 - Suc c) (drop_bit (Suc c) y) @ bit y c # word_bits c y"
    using word_bits_split [of "Suc c" 8 y] c(2) by (simp add: word_bits_Suc)
  moreover have "word_bits (8 - Suc c) (drop_bit (Suc c) y) = word_bits (8 - Suc c) (drop_bit (Suc c) x)"
    by (rule word_bits_cong) (simp add: y_def bit_simps)
  moreover have "bit y c = v" using z [of c] c by (simp add: y_def bit_simps)
  moreover have "word_bits c y = replicate c False"
    by (rule word_bits_zero) (use z c in \<open>simp add: y_def bit_simps\<close>)
  ultimately show ?thesis using c by (simp add: holds_def stream c1 s(4))
qed

lemma holds_writeByte:
  assumes "holds b w"
  shows "holds (writeByte byt b) (w @ word_bits 8 byt)"
proof -
  obtain xs x where s: "bs_stream (open_byte b) = xs @ [x]" "0 < unat (bs_count (open_byte b))"
    "unat (bs_count (open_byte b)) \<le> 8"
    "w = bytes_bits xs @ word_bits (8 - unat (bs_count (open_byte b))) (drop_bit (unat (bs_count (open_byte b))) x)"
    and z: "\<And>i. i < unat (bs_count (open_byte b)) \<Longrightarrow> \<not> bit x i"
    using holds_open_byte [OF assms] by metis
  define c where "c = unat (bs_count (open_byte b))"
  have c: "0 < c" "c \<le> 8" using s(2,3) by (simp_all add: c_def)
  have c8: "unat (8 - bs_count (open_byte b)) = 8 - c"
    using c by (simp add: c_def unat_sub word_le_nat_alt)
  define y where "y = x OR drop_bit (8 - c) byt"
  have stream: "bs_stream (writeByte byt b) = xs @ [y, push_bit c byt]" "bs_count (writeByte byt b) = bs_count (open_byte b)"
    by (simp_all add: writeByte_def Let_def s(1) c8 y_def c_def)
  have "word_bits 8 y = word_bits (8 - c) (drop_bit c y) @ word_bits c y" by (rule word_bits_split [OF c(2)])
  moreover have "word_bits (8 - c) (drop_bit c y) = word_bits (8 - c) (drop_bit c x)"
    by (rule word_bits_cong) (use c in \<open>simp add: y_def bit_simps\<close>)
  moreover have "word_bits c y = word_bits c (drop_bit (8 - c) byt)"
    by (rule word_bits_cong) (use z in \<open>simp add: y_def bit_simps c_def\<close>)
  moreover have "word_bits 8 byt = word_bits c (drop_bit (8 - c) byt) @ word_bits (8 - c) byt"
    using word_bits_split [of "8 - c" 8 byt] c by simp
  moreover have "word_bits 8 (push_bit c byt) = word_bits (8 - c) (drop_bit c (push_bit c byt)) @ word_bits c (push_bit c byt)"
    by (rule word_bits_split [OF c(2)])
  moreover have "word_bits (8 - c) (drop_bit c (push_bit c byt)) = word_bits (8 - c) byt"
    by (rule word_bits_cong) (use c in \<open>auto simp: bit_simps\<close>)
  moreover have "word_bits c (push_bit c byt) = replicate c False"
    by (rule word_bits_zero) (simp add: bit_simps)
  ultimately show ?thesis using c by (simp add: holds_def stream s(4) flip: c_def)
qed

lemma holds_write_bit_loop: "n \<le> 64 \<Longrightarrow> holds b w \<Longrightarrow> holds (write_bit_loop u n b) (w @ word_bits n (drop_bit (64 - n) u))"
proof (induction n arbitrary: u b w)
  case (Suc n)
  have top: "drop_bit 63 u = 1 \<longleftrightarrow> bit u 63" for u :: u64
  proof
    assume "drop_bit 63 u = 1"
    then have "bit (drop_bit 63 u) 0" by simp
    then show "bit u 63" by (simp add: bit_drop_bit_eq)
  next
    assume "bit u 63"
    then show "drop_bit 63 u = 1" by (intro bit_word_eqI) (auto simp: bit_simps dest: bit_imp_le_length)
  qed
  have shift: "bit (u * 2) i \<longleftrightarrow> 0 < i \<and> i < 64 \<and> bit u (i - 1)" for i
    by (auto simp: mult.commute [of u 2] bit_double_iff)
  have "word_bits n (drop_bit (64 - Suc n) u) = word_bits n (drop_bit (64 - n) (push_bit 1 u))"
    using Suc.prems(1) by (intro word_bits_cong) (auto simp: bit_drop_bit_eq shift)
  then have "word_bits (Suc n) (drop_bit (64 - Suc n) u) = bit u 63 # word_bits n (drop_bit (64 - n) (push_bit 1 u))"
    using Suc.prems(1) by (simp add: word_bits_Suc bit_drop_bit_eq)
  then show ?case
    using Suc.IH [of "writeBit (drop_bit 63 u = 1) b" "w @ [bit u 63]" "push_bit 1 u"] Suc.prems
      holds_writeBit [OF Suc.prems(2), of "bit u 63"] by (simp add: top)
qed simp

lemma holds_write_byte_loop:
  assumes "n \<le> 64" "holds b w"
  shows "\<exists>u' n' b' bits. write_byte_loop u n b = (u', n', b') \<and> n' < 8 \<and> holds b' (w @ bits) \<and>
    word_bits n (drop_bit (64 - n) u) = bits @ word_bits n' (drop_bit (64 - n') u')"
  using assms
proof (induction n arbitrary: u b w rule: less_induct)
  case (less n)
  show ?case
  proof (cases "8 \<le> n")
    case True
    let ?b = "writeByte (ucast (drop_bit 56 u)) b"
    have h: "holds ?b (w @ word_bits 8 (ucast (drop_bit 56 u) :: byte))"
      by (rule holds_writeByte [OF less.prems(2)])
    have "n - 8 < n" "n - 8 \<le> 64" using True less.prems(1) by simp_all
    from less.IH [OF this h, of "push_bit 8 u"]
    obtain u' n' b' bits where ih: "write_byte_loop (push_bit 8 u) (n - 8) ?b = (u', n', b')" "n' < 8"
      "holds b' ((w @ word_bits 8 (ucast (drop_bit 56 u) :: byte)) @ bits)"
      "word_bits (n - 8) (drop_bit (64 - (n - 8)) (push_bit 8 u)) = bits @ word_bits n' (drop_bit (64 - n') u')"
      by (elim exE conjE)
    have "word_bits n (drop_bit (64 - n) u) =
        word_bits (n - (n - 8)) (drop_bit (n - 8) (drop_bit (64 - n) u)) @ word_bits (n - 8) (drop_bit (64 - n) u)"
      by (rule word_bits_split) simp
    moreover have "word_bits (n - (n - 8)) (drop_bit (n - 8) (drop_bit (64 - n) u)) = word_bits 8 (ucast (drop_bit 56 u) :: byte)"
    proof -
      have "drop_bit (n - 8) (drop_bit (64 - n) u) = drop_bit 56 u" using True less.prems(1) by (simp add: drop_bit_drop_bit)
      moreover have "word_bits 8 (drop_bit 56 u) = word_bits 8 (ucast (drop_bit 56 u) :: byte)"
        by (simp add: word_bits_def bit_ucast_iff)
      ultimately show ?thesis using True by simp
    qed
    moreover have "word_bits (n - 8) (drop_bit (64 - n) u) = word_bits (n - 8) (drop_bit (64 - (n - 8)) (push_bit 8 u))"
      using True less.prems(1) by (intro word_bits_cong) (auto simp: bit_simps)
    ultimately show ?thesis using ih by (subst write_byte_loop.simps) (auto simp: True)
  next
    case False
    then show ?thesis using less.prems by (subst write_byte_loop.simps) auto
  qed
qed

lemma holds_writeBits:
  assumes "n \<le> 64" "holds b w"
  shows "holds (writeBits u n b) (w @ word_bits n u)"
proof -
  obtain u' n' b' bits where l: "write_byte_loop (push_bit (64 - n) u) n b = (u', n', b')" "n' < 8" "holds b' (w @ bits)"
    "word_bits n (drop_bit (64 - n) (push_bit (64 - n) u)) = bits @ word_bits n' (drop_bit (64 - n') u')"
    using holds_write_byte_loop [OF assms] by blast
  have "word_bits n (drop_bit (64 - n) (push_bit (64 - n) u)) = word_bits n u"
    using assms(1) by (intro word_bits_cong) (auto simp: bit_simps)
  then show ?thesis using holds_write_bit_loop [OF _ l(3), of n' u'] l by (simp add: writeBits_def)
qed

section \<open>Reading\<close>

datatype read_err = IoEOF | IoUnexpectedEOF | VarintOverflow

record bstreamReader =
  br_stream :: "byte list"
  br_streamOffset :: nat
  br_buffer :: u64
  br_valid :: byte

definition newBReader :: "byte list \<Rightarrow> bstreamReader" where
  "newBReader b = \<lparr>br_stream = b, br_streamOffset = 0, br_buffer = 0, br_valid = 0\<rparr>"

text \<open>\<^verbatim>\<open>binary.BigEndian.Uint64\<close> of a slice of at least eight bytes, and the loop over fewer bytes.\<close>

definition be_uint64 :: "byte list \<Rightarrow> u64" where
  "be_uint64 b =
     ucast (b ! 7) OR push_bit 8 (ucast (b ! 6)) OR push_bit 16 (ucast (b ! 5)) OR push_bit 24 (ucast (b ! 4)) OR
     push_bit 32 (ucast (b ! 3)) OR push_bit 40 (ucast (b ! 2)) OR push_bit 48 (ucast (b ! 1)) OR push_bit 56 (ucast (b ! 0))"

definition load_bytes :: "nat \<Rightarrow> byte list \<Rightarrow> u64" where
  "load_bytes nbytes b = foldl (\<lambda>buffer i. buffer OR push_bit (8 * (nbytes - i - 1)) (ucast (b ! i))) 0 [0..<nbytes]"

definition loadNextBuffer :: "byte \<Rightarrow> bstreamReader \<Rightarrow> bool \<times> bstreamReader" where
  "loadNextBuffer nbits r =
     (let rest = drop (br_streamOffset r) (br_stream r)
      in if length (br_stream r) \<le> br_streamOffset r then (False, r)
         else if br_streamOffset r + 8 < length (br_stream r)
         then (True, r\<lparr>br_buffer := be_uint64 rest, br_streamOffset := br_streamOffset r + 8, br_valid := 64\<rparr>)
         else
           let nbytes = unat (nbits div 8 + 1);
               nbytes = (if length (br_stream r) < br_streamOffset r + nbytes
                         then length (br_stream r) - br_streamOffset r else nbytes)
           in (True, r\<lparr>br_buffer := load_bytes nbytes rest, br_streamOffset := br_streamOffset r + nbytes,
                 br_valid := of_nat (nbytes * 8)\<rparr>))"

definition readBitFast :: "bstreamReader \<Rightarrow> (read_err + bool) \<times> bstreamReader" where
  "readBitFast r =
     (if br_valid r = 0 then (Inl IoEOF, r)
      else let valid = br_valid r - 1
           in (Inr (br_buffer r AND push_bit (unat valid) 1 \<noteq> 0), r\<lparr>br_valid := valid\<rparr>))"

definition readBit :: "bstreamReader \<Rightarrow> (read_err + bool) \<times> bstreamReader" where
  "readBit r =
     (let (ok, r) = (if br_valid r = 0 then loadNextBuffer 1 r else (True, r))
      in if \<not> ok then (Inl IoEOF, r) else readBitFast r)"

definition readBitsFast :: "byte \<Rightarrow> bstreamReader \<Rightarrow> (read_err + u64) \<times> bstreamReader" where
  "readBitsFast nbits r =
     (if br_valid r < nbits then (Inl IoEOF, r)
      else let bitmask = push_bit (unat nbits) 1 - 1; valid = br_valid r - nbits
           in (Inr (drop_bit (unat valid) (br_buffer r) AND bitmask), r\<lparr>br_valid := valid\<rparr>))"

definition readBits :: "byte \<Rightarrow> bstreamReader \<Rightarrow> (read_err + u64) \<times> bstreamReader" where
  "readBits nbits r =
     (let (ok, r) = (if br_valid r = 0 then loadNextBuffer nbits r else (True, r))
      in if \<not> ok then (Inl IoEOF, r)
         else if nbits \<le> br_valid r then readBitsFast nbits r
         else
           let bitmask = push_bit (unat (br_valid r)) 1 - 1;
               nbits = nbits - br_valid r;
               v = push_bit (unat nbits) (br_buffer r AND bitmask);
               (ok, r) = loadNextBuffer nbits (r\<lparr>br_valid := 0\<rparr>)
           in if \<not> ok then (Inl IoEOF, r)
              else
                let bitmask = push_bit (unat nbits) 1 - 1;
                    v = v OR (drop_bit (unat (br_valid r - nbits)) (br_buffer r) AND bitmask)
                in (Inr v, r\<lparr>br_valid := br_valid r - nbits\<rparr>))"

definition ReadByte :: "bstreamReader \<Rightarrow> (read_err + byte) \<times> bstreamReader" where
  "ReadByte r = (case readBits 8 r of (Inl e, r) \<Rightarrow> (Inl e, r) | (Inr v, r) \<Rightarrow> (Inr (ucast v), r))"

text \<open>The bits that a reader has not taken yet.\<close>

definition pending :: "bstreamReader \<Rightarrow> bool list" where
  "pending r = word_bits (unat (br_valid r)) (br_buffer r) @ bytes_bits (drop (br_streamOffset r) (br_stream r))"

definition reader_ok :: "bstreamReader \<Rightarrow> bool" where
  "reader_ok r \<longleftrightarrow> unat (br_valid r) \<le> 64 \<and> br_streamOffset r \<le> length (br_stream r)"

lemma newBReader_pending [simp]: "pending (newBReader b) = bytes_bits b" "reader_ok (newBReader b)"
  by (simp_all add: newBReader_def pending_def reader_ok_def)

lemma push_mask: "(push_bit n 1 :: 'a :: len word) - 1 = mask n"
  by (simp add: mask_eq_exp_minus_1 push_bit_eq_mult)

lemma bit_load_fold:
  "bit (foldl (\<lambda>buffer i. buffer OR push_bit (f i) (ucast (b ! i :: byte))) (z :: u64) is) k \<longleftrightarrow>
     bit z k \<or> (\<exists>i \<in> set is. f i \<le> k \<and> k < 64 \<and> bit (b ! i) (k - f i))"
proof (induction "is" arbitrary: z)
  case (Cons i "is")
  have "bit (z OR push_bit (f i) (ucast (b ! i))) k \<longleftrightarrow> bit z k \<or> f i \<le> k \<and> k < 64 \<and> bit (b ! i) (k - f i)"
    by (auto simp: bit_simps)
  then show ?case using Cons.IH [of "z OR push_bit (f i) (ucast (b ! i))"] by auto
qed simp

lemma byte_split_word:
  fixes w :: u64
  assumes "\<And>k. k < 8 * length bs \<Longrightarrow> bit w k = bit (bs ! (length bs - 1 - k div 8)) (k mod 8)"
  shows "word_bits (8 * length bs) w = bytes_bits bs"
  using assms
proof (induction bs arbitrary: w)
  case (Cons x xs)
  have "word_bits (8 * length (x # xs)) w =
      word_bits (8 * length (x # xs) - 8 * length xs) (drop_bit (8 * length xs) w) @ word_bits (8 * length xs) w"
    by (rule word_bits_split) simp
  moreover have "word_bits 8 (drop_bit (8 * length xs) w) = word_bits 8 (ucast x :: u64)"
  proof (rule word_bits_cong)
    fix i :: nat assume "i < 8"
    then show "bit (drop_bit (8 * length xs) w) i = bit (ucast x :: u64) i"
      using Cons.prems [of "8 * length xs + i"] by (simp add: bit_simps)
  qed
  moreover have "word_bits 8 (ucast x :: u64) = word_bits 8 x" by (simp add: word_bits_def bit_ucast_iff)
  moreover have "word_bits (8 * length xs) w = bytes_bits xs"
  proof (rule Cons.IH)
    fix k assume k: "k < 8 * length xs"
    then have "k div 8 < length xs" by (simp add: less_mult_imp_div_less mult.commute)
    then have "length (x # xs) - 1 - k div 8 = Suc (length xs - 1 - k div 8)" by simp
    then show "bit w k = bit (xs ! (length xs - 1 - k div 8)) (k mod 8)"
      using Cons.prems [of k] k by simp
  qed
  ultimately show ?case by simp
qed simp

lemma load_bytes_bits:
  assumes "n \<le> 8" "n \<le> length bs"
  shows "word_bits (8 * n) (load_bytes n bs) = bytes_bits (take n bs)"
proof -
  have "word_bits (8 * length (take n bs)) (load_bytes n bs) = bytes_bits (take n bs)"
  proof (rule byte_split_word)
    fix k assume "k < 8 * length (take n bs)"
    then have k: "k < 8 * n" using assms by simp
    then have d: "k div 8 < n" by (simp add: less_mult_imp_div_less mult.commute)
    have "8 * (n - i - 1) \<le> k \<and> bit (bs ! i) (k - 8 * (n - i - 1)) \<longleftrightarrow> i = n - 1 - k div 8 \<and> bit (bs ! i) (k mod 8)"
      if i: "i < n" for i
    proof (cases "i = n - 1 - k div 8")
      case True
      then have "n - i - 1 = k div 8" using d by simp
      then show ?thesis using True by (simp add: minus_mult_div_eq_mod)
    next
      case False
      have "\<not> bit (bs ! i) (k - 8 * (n - i - 1))" if "8 * (n - i - 1) \<le> k"
      proof
        assume "bit (bs ! i) (k - 8 * (n - i - 1))"
        then have "k - 8 * (n - i - 1) < 8" by (auto dest: bit_imp_le_length)
        then have "k div 8 = n - i - 1" using that by (intro div_nat_eqI) simp_all
        then show False using False i by simp
      qed
      then show ?thesis using False by blast
    qed
    moreover have "n - 1 - k div 8 < n" "k < 64" using d k assms(1) by simp_all
    ultimately show "bit (load_bytes n bs) k = bit (take n bs ! (length (take n bs) - 1 - k div 8)) (k mod 8)"
      using assms(2) d by (auto simp: load_bytes_def bit_load_fold min_def)
  qed
  then show ?thesis using assms(2) by (simp add: min_absorb2)
qed

lemma be_uint64_load: "be_uint64 b = load_bytes 8 b"
proof -
  have "[0..<8] = [0, 1, 2, 3, 4, 5, 6, 7 :: nat]" by (simp add: upt_conv_Cons)
  then show ?thesis
    unfolding load_bytes_def be_uint64_def by (intro bit_word_eqI) (auto simp: bit_simps)
qed

text \<open>What \<open>loadNextBuffer\<close> brings: the bits stay what they are, and there are as many in the buffer as were asked
  for, or all.\<close>

lemma loadNextBuffer_pending:
  assumes ok: "reader_ok r" and empty: "br_valid r = 0" and n: "0 < unat nbits" "unat nbits \<le> 64"
    and enough: "unat nbits \<le> length (pending r)"
  shows "\<exists>r'. loadNextBuffer nbits r = (True, r') \<and> reader_ok r' \<and> pending r' = pending r \<and>
    br_stream r' = br_stream r \<and> unat nbits \<le> unat (br_valid r')"
proof -
  define rest where "rest = drop (br_streamOffset r) (br_stream r)"
  have p: "pending r = bytes_bits rest" using empty by (simp add: pending_def rest_def)
  have off: "br_streamOffset r < length (br_stream r)" using enough n by (simp add: p rest_def)
  show ?thesis
  proof (cases "br_streamOffset r + 8 < length (br_stream r)")
    case True
    then have "word_bits 64 (be_uint64 rest) = bytes_bits (take 8 rest)"
      using load_bytes_bits [of 8 rest] by (simp add: be_uint64_load rest_def)
    moreover have "bytes_bits (take 8 rest) @ bytes_bits (drop 8 rest) = bytes_bits rest"
      by (metis append_take_drop_id bytes_bits_append)
    moreover have "drop (br_streamOffset r + 8) (br_stream r) = drop 8 rest" by (simp add: rest_def add.commute)
    ultimately show ?thesis
      using True off n(2) unfolding loadNextBuffer_def rest_def [symmetric] Let_def
      by (simp add: reader_ok_def pending_def p [unfolded pending_def])
  next
    case False
    have nb: "unat (nbits div 8 + 1) = unat nbits div 8 + 1"
      using n(2) by (simp add: unat_word_ariths(1) unat_div)
    define k where "k = (if length (br_stream r) < br_streamOffset r + unat (nbits div 8 + 1)
        then length (br_stream r) - br_streamOffset r else unat (nbits div 8 + 1))"
    have rest: "length rest = length (br_stream r) - br_streamOffset r" "length rest \<le> 8" "unat nbits \<le> 8 * length rest"
      using False enough by (simp_all add: p rest_def)
    have k: "k \<le> length rest" "k \<le> 8" "unat nbits \<le> 8 * k"
      using rest unfolding k_def nb by (auto split: if_split)
    have "(of_nat k * 8 :: byte) = of_nat (8 * k)" by simp
    then have v: "unat (of_nat k * 8 :: byte) = 8 * k" using k(2) by (simp only: unat_of_nat) simp
    have "bytes_bits (take k rest) @ bytes_bits (drop k rest) = bytes_bits rest"
      by (metis append_take_drop_id bytes_bits_append)
    moreover have "drop (br_streamOffset r + k) (br_stream r) = drop k rest" by (simp add: rest_def add.commute)
    moreover have "br_streamOffset r + k \<le> length (br_stream r)" using k(1) off by (simp add: rest_def)
    moreover have "loadNextBuffer nbits r = (True, r\<lparr>br_buffer := load_bytes k rest, br_streamOffset := br_streamOffset r + k,
        br_valid := of_nat (k * 8)\<rparr>)"
      using False off unfolding loadNextBuffer_def rest_def [symmetric] Let_def k_def [symmetric] by simp
    ultimately show ?thesis
      using k(2,3) load_bytes_bits [OF k(2,1)] by (simp add: reader_ok_def pending_def p [unfolded pending_def] v)
  qed
qed

lemma readBitsFast_pending:
  assumes ok: "reader_ok r" and n: "unat nbits \<le> unat (br_valid r)" and bits: "pending r = word_bits (unat nbits) u @ rest"
  shows "\<exists>r'. readBitsFast nbits r = (Inr (take_bit (unat nbits) u), r') \<and> reader_ok r' \<and> pending r' = rest \<and>
    br_stream r' = br_stream r"
proof -
  let ?n = "unat nbits" and ?v = "unat (br_valid r)"
  have sub: "unat (br_valid r - nbits) = ?v - ?n" using n by (simp add: unat_sub word_le_nat_alt)
  have "word_bits ?v (br_buffer r) = word_bits (?v - (?v - ?n)) (drop_bit (?v - ?n) (br_buffer r)) @ word_bits (?v - ?n) (br_buffer r)"
    by (rule word_bits_split) simp
  then have "word_bits ?n (drop_bit (?v - ?n) (br_buffer r)) @
      (word_bits (?v - ?n) (br_buffer r) @ bytes_bits (drop (br_streamOffset r) (br_stream r))) = word_bits ?n u @ rest"
    using bits n by (simp add: pending_def)
  then have eq: "word_bits ?n (drop_bit (?v - ?n) (br_buffer r)) = word_bits ?n u"
    "word_bits (?v - ?n) (br_buffer r) @ bytes_bits (drop (br_streamOffset r) (br_stream r)) = rest"
    by simp_all
  have "take_bit ?n (drop_bit (?v - ?n) (br_buffer r)) = take_bit ?n u"
    using eq(1) by (intro bit_word_eqI) (auto simp: word_bits_eq_iff bit_take_bit_iff)
  moreover have "?v - ?n \<le> 64" using ok by (auto simp: reader_ok_def)
  ultimately show ?thesis
    using n ok eq(2) unfolding readBitsFast_def Let_def push_mask
    by (simp add: word_less_nat_alt not_less sub pending_def reader_ok_def take_bit_eq_mask)
qed

lemma readBits_pending:
  assumes ok: "reader_ok r" and n: "0 < unat nbits" "unat nbits \<le> 64" and bits: "pending r = word_bits (unat nbits) u @ rest"
  shows "\<exists>r'. readBits nbits r = (Inr (take_bit (unat nbits) u), r') \<and> reader_ok r' \<and> pending r' = rest \<and>
    br_stream r' = br_stream r"
proof -
  have enough: "unat nbits \<le> length (pending r)" using bits by simp
  obtain r1 where load: "(if br_valid r = 0 then loadNextBuffer nbits r else (True, r)) = (True, r1)"
    and r1: "reader_ok r1" "pending r1 = pending r" "br_stream r1 = br_stream r" "0 < unat (br_valid r1)"
  proof (cases "br_valid r = 0")
    case True
    then show thesis using loadNextBuffer_pending [OF ok True n enough] n(1) that by force
  next
    case False
    then show thesis using ok that [of r] by (simp add: unat_gt_0)
  qed
  show ?thesis
  proof (cases "nbits \<le> br_valid r1")
    case True
    then have "readBits nbits r = readBitsFast nbits r1" by (simp add: readBits_def load)
    then show ?thesis
      using readBitsFast_pending [OF r1(1) _ bits [folded r1(2)]] True r1(3) by (simp add: word_le_nat_alt)
  next
    case False
    let ?v = "unat (br_valid r1)" and ?n = "unat nbits"
    define m where "m = nbits - br_valid r1"
    have m: "unat m = ?n - ?v" "?v < ?n" using False by (simp_all add: m_def unat_sub word_le_nat_alt)
    define r2 where "r2 = r1\<lparr>br_valid := 0\<rparr>"
    have tail: "pending r1 = word_bits ?v (br_buffer r1) @ pending r2"
      by (simp add: pending_def r2_def)
    have "word_bits ?n u = word_bits (?n - unat m) (drop_bit (unat m) u) @ word_bits (unat m) u"
      by (rule word_bits_split) (simp add: m(1))
    then have "word_bits ?v (br_buffer r1) @ pending r2 = word_bits ?v (drop_bit (unat m) u) @ (word_bits (unat m) u @ rest)"
      using bits m by (simp add: r1(2) [symmetric] tail)
    then have hd: "word_bits ?v (br_buffer r1) = word_bits ?v (drop_bit (unat m) u)"
      and p2: "pending r2 = word_bits (unat m) u @ rest" by simp_all
    have "reader_ok r2" "br_valid r2 = 0" using r1(1) by (simp_all add: r2_def reader_ok_def)
    then obtain r3 where l3: "loadNextBuffer m r2 = (True, r3)" and r3: "reader_ok r3" "pending r3 = pending r2"
      "br_stream r3 = br_stream r2" "unat m \<le> unat (br_valid r3)"
    proof -
      have "0 < unat m" "unat m \<le> 64" "unat m \<le> length (pending r2)" using m n p2 by simp_all
      then show thesis
        using loadNextBuffer_pending [OF \<open>reader_ok r2\<close> \<open>br_valid r2 = 0\<close>, of m] that by blast
    qed
    obtain r4 where r4: "readBitsFast m r3 = (Inr (take_bit (unat m) u), r4)" "reader_ok r4" "pending r4 = rest"
      "br_stream r4 = br_stream r3"
      using readBitsFast_pending [OF r3(1,4) p2 [folded r3(2)]] by blast
    have eq: "drop_bit (unat (br_valid r3 - m)) (br_buffer r3) AND mask (unat m) = take_bit (unat m) u"
      "r4 = r3\<lparr>br_valid := br_valid r3 - m\<rparr>"
      using r4(1) r3(4) unfolding readBitsFast_def Let_def push_mask by (auto simp: word_less_nat_alt)
    have "push_bit (unat m) (br_buffer r1 AND mask ?v) OR take_bit (unat m) u = take_bit ?n u"
    proof (rule bit_word_eqI)
      fix i assume "i < LENGTH(64)"
      moreover have "bit (br_buffer r1) (i - unat m) = bit u i" if "unat m \<le> i" "i < ?n"
        using hd that m by (auto simp: word_bits_eq_iff bit_drop_bit_eq)
      ultimately show "bit (push_bit (unat m) (br_buffer r1 AND mask ?v) OR take_bit (unat m) u) i = bit (take_bit ?n u) i"
        using m by (auto simp: bit_simps)
    qed
    then have "readBits nbits r = (Inr (take_bit ?n u), r4)"
      using False unfolding readBits_def load Let_def push_mask prod.case m_def [symmetric] r2_def [symmetric] l3
      by (simp add: eq)
    then show ?thesis using r4 r3(3) r1(3) by (simp add: r2_def)
  qed
qed

text \<open>A bit and a byte.\<close>

lemma readBitFast_pending:
  assumes ok: "reader_ok r" and v: "br_valid r \<noteq> 0" and bits: "pending r = v # rest"
  shows "\<exists>r'. readBitFast r = (Inr v, r') \<and> reader_ok r' \<and> pending r' = rest \<and> br_stream r' = br_stream r"
proof -
  obtain k where k: "unat (br_valid r) = Suc k" using v by (metis unat_eq_zero not0_implies_Suc)
  then have sub: "unat (br_valid r - 1) = k" using v by (simp add: unat_minus_one)
  have "bit (br_buffer r) k = v" "word_bits k (br_buffer r) @ bytes_bits (drop (br_streamOffset r) (br_stream r)) = rest"
    using bits by (simp_all add: pending_def k word_bits_Suc)
  moreover have "br_buffer r AND push_bit k 1 \<noteq> 0 \<longleftrightarrow> bit (br_buffer r) k"
    using ok k by (simp add: reader_ok_def bit_iff_and_push_bit_not_eq_0)
  ultimately show ?thesis using v ok k by (simp add: readBitFast_def Let_def sub pending_def reader_ok_def)
qed

lemma readBit_pending:
  assumes ok: "reader_ok r" and bits: "pending r = v # rest"
  shows "\<exists>r'. readBit r = (Inr v, r') \<and> reader_ok r' \<and> pending r' = rest \<and> br_stream r' = br_stream r"
proof (cases "br_valid r = 0")
  case True
  obtain r' where r': "loadNextBuffer 1 r = (True, r')" "reader_ok r'" "pending r' = pending r" "br_stream r' = br_stream r"
    "1 \<le> unat (br_valid r')"
    using loadNextBuffer_pending [OF ok True, of 1] bits by auto
  moreover have "br_valid r' \<noteq> 0" using r'(5) by auto
  ultimately show ?thesis using readBitFast_pending [of r' v rest] bits True by (auto simp: readBit_def)
next
  case False
  then show ?thesis using readBitFast_pending [OF ok False bits] by (simp add: readBit_def)
qed

lemma ReadByte_pending:
  assumes ok: "reader_ok r" and bits: "pending r = word_bits 8 x @ rest"
  shows "\<exists>r'. ReadByte r = (Inr x, r') \<and> reader_ok r' \<and> pending r' = rest \<and> br_stream r' = br_stream r"
proof -
  have "word_bits 8 x = word_bits (unat (8 :: byte)) (ucast x :: u64)" by (simp add: word_bits_def bit_ucast_iff)
  then obtain r' where r': "readBits 8 r = (Inr (take_bit 8 (ucast x)), r')" "reader_ok r'" "pending r' = rest"
    "br_stream r' = br_stream r"
    using readBits_pending [OF ok, of 8 "ucast x" rest] bits by auto
  moreover have "ucast (take_bit 8 (ucast x :: u64)) = x" by (rule bit_word_eqI) (simp add: bit_simps)
  ultimately show ?thesis by (simp add: ReadByte_def)
qed

section \<open>Integers of variable length\<close>

text \<open>\<^verbatim>\<open>binary.PutUvarint\<close> and \<^verbatim>\<open>binary.PutVarint\<close>: the bytes they put.\<close>

function put_uvarint :: "u64 \<Rightarrow> byte list" where
  "put_uvarint x = (if 128 \<le> x then (ucast x OR 128) # put_uvarint (drop_bit 7 x) else [ucast x])"
  by pat_completeness auto
termination
proof (relation "measure unat")
  fix x :: u64
  assume "128 \<le> x"
  then have "128 \<le> unat x" by (simp add: word_le_nat_alt)
  then show "(drop_bit 7 x, x) \<in> measure unat" by (simp add: drop_bit_eq_div unat_div)
qed simp

declare put_uvarint.simps [simp del]

definition zigzag :: "u64 \<Rightarrow> u64" where
  "zigzag x = (if sint x < 0 then NOT (push_bit 1 x) else push_bit 1 x)"

definition put_varint :: "u64 \<Rightarrow> byte list" where
  "put_varint x = put_uvarint (zigzag x)"

text \<open>\<^verbatim>\<open>binary.ReadUvarint\<close> and \<^verbatim>\<open>binary.ReadVarint\<close>; an end of the stream behind the first byte is an unexpected one.\<close>

function read_uvarint_loop :: "nat \<Rightarrow> u64 \<Rightarrow> bstreamReader \<Rightarrow> (read_err + u64) \<times> bstreamReader" where
  "read_uvarint_loop i x r =
     (if 10 \<le> i then (Inl VarintOverflow, r)
      else case ReadByte r of
        (Inl e, r) \<Rightarrow> (Inl (if 0 < i \<and> e = IoEOF then IoUnexpectedEOF else e), r)
      | (Inr b, r) \<Rightarrow>
          if b < 128 then
            (if i = 9 \<and> 1 < b then (Inl VarintOverflow, r) else (Inr (x OR push_bit (7 * i) (ucast b)), r))
          else read_uvarint_loop (Suc i) (x OR push_bit (7 * i) (ucast (b AND 127))) r)"
  by pat_completeness auto
termination by (relation "measure (\<lambda>(i, _, _). 10 - i)") auto

declare read_uvarint_loop.simps [simp del]

definition ReadUvarint :: "bstreamReader \<Rightarrow> (read_err + u64) \<times> bstreamReader" where
  "ReadUvarint r = read_uvarint_loop 0 0 r"

definition ReadVarint :: "bstreamReader \<Rightarrow> (read_err + u64) \<times> bstreamReader" where
  "ReadVarint r =
     (case ReadUvarint r of
        (Inl e, r) \<Rightarrow> (Inl e, r)
      | (Inr ux, r) \<Rightarrow> (Inr (if bit ux 0 then NOT (drop_bit 1 ux) else drop_bit 1 ux), r))"

lemma unzigzag:
  "(if bit (zigzag x) 0 then NOT (drop_bit 1 (zigzag x)) else drop_bit 1 (zigzag x)) = x"
proof -
  have neg: "sint x < 0 \<longleftrightarrow> bit x 63" using bit_last_iff [of x] by simp
  have b: "bit (push_bit (Suc 0) x) n \<longleftrightarrow> 1 \<le> n \<and> n < 64 \<and> bit x (n - 1)" for n
    unfolding bit_push_bit_iff by auto
  show ?thesis
  proof (rule bit_word_eqI)
    fix n assume "n < LENGTH(64)"
    then have "n < 63 \<or> n = 63" by auto
    then show "bit (if bit (zigzag x) 0 then NOT (drop_bit 1 (zigzag x)) else drop_bit 1 (zigzag x)) n = bit x n"
      by (auto simp: zigzag_def neg bit_not_iff bit_drop_bit_eq b simp del: push_bit_Suc)
  qed
qed

lemma bit_127: "bit (127 :: int) k \<longleftrightarrow> k < 7"
proof -
  have "(127 :: int) = mask 7" by (simp add: mask_eq_exp_minus_1)
  then show ?thesis by (simp only: bit_mask_iff possible_bit_int simp_thms)
qed

lemma bit_128: "bit (128 :: int) k \<longleftrightarrow> k = 7"
proof -
  have "(128 :: int) = 2 ^ 7" by simp
  then show ?thesis by (simp only: bit_exp_iff possible_bit_int simp_thms)
qed

text \<open>A byte of a varint and what it adds: one that is not the last, and the last one.\<close>

lemma uvarint_more:
  assumes "128 \<le> (x :: u64)" "i \<le> 9" "x = drop_bit (7 * i) u" "acc = take_bit (7 * i) u"
  shows "i < 9" "\<not> (ucast x :: byte) OR 128 < 128" "drop_bit 7 x = drop_bit (7 * Suc i) u"
    "acc OR push_bit (7 * i) (ucast (((ucast x :: byte) OR 128) AND 127)) = take_bit (7 * Suc i) u"
proof -
  let ?b = "(ucast x :: byte) OR 128"
  show "i < 9"
  proof (rule ccontr)
    assume "\<not> i < 9"
    then have "x = drop_bit 63 u" using assms(2,3) by (simp add: le_less)
    moreover have "unat u < 2 ^ 64" using unsigned_less [of u] by simp
    then have "unat u div 2 ^ 63 < 128" by (simp add: less_mult_imp_div_less)
    ultimately have "x < 128" by (simp add: word_less_nat_alt drop_bit_eq_div unat_div)
    then show False using assms(1) by simp
  qed
  have "bit (unat ?b) 7" by (simp add: bit_unsigned_iff bit_simps)
  then have "take_bit 7 (unat ?b) \<noteq> unat ?b" by (metis bit_take_bit_iff less_irrefl)
  then show "\<not> ?b < 128" using take_bit_nat_eq_self_iff [of 7 "unat ?b"] by (simp add: word_less_nat_alt)
  show "drop_bit 7 x = drop_bit (7 * Suc i) u" by (simp add: assms(3) drop_bit_drop_bit add.commute)
  show "acc OR push_bit (7 * i) (ucast (?b AND 127)) = take_bit (7 * Suc i) u"
  proof (rule bit_word_eqI)
    fix n assume "n < LENGTH(64)"
    then show "bit (acc OR push_bit (7 * i) (ucast (?b AND 127))) n = bit (take_bit (7 * Suc i) u) n"
      by (auto simp: assms(3,4) bit_simps bit_127 bit_128)
  qed
qed

lemma uvarint_last:
  assumes "\<not> 128 \<le> (x :: u64)" "i \<le> 9" "x = drop_bit (7 * i) u" "acc = take_bit (7 * i) u"
  shows "(ucast x :: byte) < 128" "i = 9 \<Longrightarrow> \<not> 1 < (ucast x :: byte)"
    "acc OR push_bit (7 * i) (ucast (ucast x :: byte)) = u"
proof -
  have small: "unat x < 128" using assms(1) by (simp add: not_le word_less_nat_alt)
  have unat_b: "unat (ucast x :: byte) = unat x" using small by (simp add: unsigned_ucast_eq take_bit_nat_eq_self)
  then show "(ucast x :: byte) < 128" using small by (simp add: word_less_nat_alt)
  show "\<not> 1 < (ucast x :: byte)" if "i = 9"
  proof -
    have "unat u < 2 ^ 64" using unsigned_less [of u] by simp
    then have "unat u div 2 ^ 63 < 2" by (simp add: less_mult_imp_div_less)
    then have "unat x < 2" using that assms(3) by (simp add: drop_bit_eq_div unat_div)
    then show ?thesis by (simp add: word_less_nat_alt unat_b)
  qed
  have "ucast (ucast x :: byte) = x"
    using small by (simp add: word_unat_eq_iff unsigned_ucast_eq unsigned_take_bit_eq take_bit_nat_eq_self)
  moreover have "bit (acc OR push_bit (7 * i) x) n = bit u n" if "n < 64" for n
    using that by (cases "n < 7 * i") (simp_all add: assms(3,4) bit_simps)
  ultimately show "acc OR push_bit (7 * i) (ucast (ucast x :: byte)) = u" by (intro bit_word_eqI) simp
qed

lemma read_uvarint_put:
  assumes "reader_ok r" "pending r = bytes_bits (put_uvarint x) @ rest" "i \<le> 9" "x = drop_bit (7 * i) u"
    and "acc = take_bit (7 * i) u"
  shows "\<exists>r'. read_uvarint_loop i acc r = (Inr u, r') \<and> reader_ok r' \<and> pending r' = rest \<and> br_stream r' = br_stream r"
  using assms
proof (induction x arbitrary: r i acc rule: put_uvarint.induct)
  case (1 x)
  show ?case
  proof (cases "128 \<le> x")
    case True
    let ?b = "(ucast x :: byte) OR 128"
    note more = uvarint_more [OF True "1.prems"(3-5)]
    have "pending r = word_bits 8 ?b @ (bytes_bits (put_uvarint (drop_bit 7 x)) @ rest)"
      using "1.prems"(2) True by (simp add: put_uvarint.simps [of x])
    then obtain r1 where r1: "ReadByte r = (Inr ?b, r1)" "reader_ok r1"
      "pending r1 = bytes_bits (put_uvarint (drop_bit 7 x)) @ rest" "br_stream r1 = br_stream r"
      using ReadByte_pending [OF "1.prems"(1)] by blast
    show ?thesis
      using "1.IH" [OF True r1(2,3), of "Suc i"] more r1(1,4) by (subst read_uvarint_loop.simps) simp
  next
    case False
    have "pending r = word_bits 8 (ucast x :: byte) @ rest"
      using "1.prems"(2) False by (simp add: put_uvarint.simps [of x])
    then obtain r1 where r1: "ReadByte r = (Inr (ucast x), r1)" "reader_ok r1" "pending r1 = rest" "br_stream r1 = br_stream r"
      using ReadByte_pending [OF "1.prems"(1)] by blast
    then show ?thesis using uvarint_last [OF False "1.prems"(3-5)] "1.prems"(3) by (subst read_uvarint_loop.simps) auto
  qed
qed

lemma ReadUvarint_put:
  assumes "reader_ok r" "pending r = bytes_bits (put_uvarint x) @ rest"
  shows "\<exists>r'. ReadUvarint r = (Inr x, r') \<and> reader_ok r' \<and> pending r' = rest \<and> br_stream r' = br_stream r"
  using read_uvarint_put [OF assms, of 0 x 0] by (simp add: ReadUvarint_def)

lemma ReadVarint_put:
  assumes "reader_ok r" "pending r = bytes_bits (put_varint x) @ rest"
  shows "\<exists>r'. ReadVarint r = (Inr x, r') \<and> reader_ok r' \<and> pending r' = rest \<and> br_stream r' = br_stream r"
  using ReadUvarint_put [OF assms(1) assms(2) [unfolded put_varint_def]] unzigzag [of x] by (auto simp: ReadVarint_def)

lemma holds_write_bytes: "holds b w \<Longrightarrow> holds (fold writeByte bs b) (w @ bytes_bits bs)"
proof (induction bs arbitrary: b w)
  case (Cons x bs)
  show ?case using Cons.IH [OF holds_writeByte [OF Cons.prems, of x]] by simp
qed simp

text \<open>A stream that ends within the bits asked for is noticed only when the buffer is empty: here twenty bits are left, thirty are
  asked for, and the reader returns four of them, moved, and counts more valid bits than the buffer has.\<close>

lemma short_stream_misread:
  "(let (_, r) = readBits 4 (newBReader [31, 46, 61]); (v, r) = readBits 30 r in (v, br_valid r)) = (Inr 1006632960, 246)"
  by code_simp

end
