(* ===== verification/XorChunk.thy ===== *)
theory XorChunk
  imports Bstream BinUtil
begin

text \<open>
  Model of \<^verbatim>\<open>pkg/tsdb/chunkenc/xor.go\<close> and of the constructors in \<^verbatim>\<open>pkg/tsdb/chunkenc/chunk.go\<close>: a chunk of samples,
  a time stamp and a \<^verbatim>\<open>float64\<close> each, of which only the first is stored as it is. The others are stored as the
  change of the difference of the time stamps, and as the bits in which the value differs from the one before.
  An appender writes at the end of the stream of a chunk, an iterator reads it from the beginning. A time stamp is
  an \<^verbatim>\<open>int64\<close> and a value its bit pattern, both words of 64 bits.
\<close>

section \<open>Chunks\<close>

datatype Encoding = EncNone | EncXOR | EncOther byte

definition Encoding_of :: "byte \<Rightarrow> Encoding" where
  "Encoding_of e = (if e = 0 then EncNone else if e = 1 then EncXOR else EncOther e)"

definition Encoding_String :: "Encoding \<Rightarrow> string" where
  "Encoding_String e = (case e of EncNone \<Rightarrow> ''none'' | EncXOR \<Rightarrow> ''XOR'' | EncOther _ \<Rightarrow> ''<unknown>'')"

record XORChunk =
  xc_b :: bstream

definition NewXORChunk :: XORChunk where
  "NewXORChunk = \<lparr>xc_b = \<lparr>bs_stream = [0, 0], bs_count = 0\<rparr>\<rparr>"

text \<open>\<open>FromData\<close> and the \<open>Get\<close> of the pool: an unknown encoding is an error.\<close>

definition FromData :: "Encoding \<Rightarrow> byte list \<Rightarrow> XORChunk option" where
  "FromData e d = (if e = EncXOR then Some \<lparr>xc_b = \<lparr>bs_stream = d, bs_count = 0\<rparr>\<rparr> else None)"

definition Bytes :: "XORChunk \<Rightarrow> byte list" where
  "Bytes c = bs_stream (xc_b c)"

text \<open>\<^verbatim>\<open>binary.BigEndian\<close> for the number of samples in the first two bytes.\<close>

definition be_uint16 :: "byte list \<Rightarrow> u16 option" where
  "be_uint16 b = need 2 b (be_word (b ! 0) (b ! 1))"

definition put_be_uint16 :: "byte list \<Rightarrow> u16 \<Rightarrow> byte list option" where
  "put_be_uint16 b w = need 2 b (b[0 := ucast (drop_bit 8 w), 1 := ucast w])"

definition NumSamples :: "XORChunk \<Rightarrow> nat option" where
  "NumSamples c = map_option unat (be_uint16 (Bytes c))"

text \<open>\<^verbatim>\<open>bits.LeadingZeros64\<close> and \<^verbatim>\<open>bits.TrailingZeros64\<close>.\<close>

definition LeadingZeros64 :: "u64 \<Rightarrow> nat" where
  "LeadingZeros64 x = length (takeWhile Not (word_bits 64 x))"

definition TrailingZeros64 :: "u64 \<Rightarrow> nat" where
  "TrailingZeros64 x = length (takeWhile Not (rev (word_bits 64 x)))"

section \<open>Appending\<close>

text \<open>The stream of an appender is the one of its chunk.\<close>

record xorAppender =
  xa_b :: bstream
  xa_t :: u64
  xa_v :: f64
  xa_tDelta :: u64
  xa_leading :: byte
  xa_trailing :: byte

definition bitRange :: "u64 \<Rightarrow> nat \<Rightarrow> bool" where
  "bitRange x nbits \<longleftrightarrow> - ((2 ^ (nbits - 1)) - 1) \<le> sint x \<and> sint x \<le> 2 ^ (nbits - 1)"

definition writeVDelta :: "f64 \<Rightarrow> xorAppender \<Rightarrow> xorAppender" where
  "writeVDelta v a =
     (let vDelta = f64_bits v XOR f64_bits (xa_v a)
      in if vDelta = 0 then a\<lparr>xa_b := writeBit False (xa_b a)\<rparr>
         else
           let b = writeBit True (xa_b a);
               leading = of_nat (LeadingZeros64 vDelta) :: byte;
               trailing = of_nat (TrailingZeros64 vDelta) :: byte;
               leading = (if 32 \<le> leading then 31 else leading)
           in if xa_leading a \<noteq> 255 \<and> xa_leading a \<le> leading \<and> xa_trailing a \<le> trailing
              then a\<lparr>xa_b := writeBits (drop_bit (unat (xa_trailing a)) vDelta)
                     (64 - unat (xa_leading a) - unat (xa_trailing a)) (writeBit False b)\<rparr>
              else
                let b = writeBits (ucast leading) 5 (writeBit True b);
                    sigbits = 64 - leading - trailing
                in a\<lparr>xa_leading := leading, xa_trailing := trailing,
                     xa_b := writeBits (drop_bit (unat trailing) vDelta) (unat sigbits) (writeBits (ucast sigbits) 6 b)\<rparr>)"

text \<open>The change of the difference.\<close>

definition write_dod :: "u64 \<Rightarrow> bstream \<Rightarrow> bstream" where
  "write_dod dod b =
     (if dod = 0 then writeBit False b
      else if bitRange dod 14 then writeBits dod 14 (writeBits 2 2 b)
      else if bitRange dod 17 then writeBits dod 17 (writeBits 6 3 b)
      else if bitRange dod 20 then writeBits dod 20 (writeBits 14 4 b)
      else writeBits dod 64 (writeBits 15 4 b))"

text \<open>\<open>Append\<close> between the reading and the writing of the number of samples, which decides how the sample is stored.\<close>

definition append_sample :: "u16 \<Rightarrow> u64 \<Rightarrow> f64 \<Rightarrow> xorAppender \<Rightarrow> xorAppender" where
  "append_sample num t v a =
     (let tDelta = (if num = 0 then 0 else t - xa_t a);
          a = (if num = 0 then a\<lparr>xa_b := writeBits (f64_bits v) 64 (fold writeByte (put_varint t) (xa_b a))\<rparr>
             else if num = 1 then writeVDelta v (a\<lparr>xa_b := fold writeByte (put_uvarint tDelta) (xa_b a)\<rparr>)
             else writeVDelta v (a\<lparr>xa_b := write_dod (tDelta - xa_tDelta a) (xa_b a)\<rparr>))
      in a\<lparr>xa_t := t, xa_v := v, xa_tDelta := tDelta\<rparr>)"

definition Append :: "u64 \<Rightarrow> f64 \<Rightarrow> xorAppender \<Rightarrow> xorAppender option" where
  "Append t v a =
     do { num \<leftarrow> be_uint16 (bs_stream (xa_b a));
          let a = append_sample num t v a;
          stream \<leftarrow> put_be_uint16 (bs_stream (xa_b a)) (num + 1);
          Some (a\<lparr>xa_b := (xa_b a)\<lparr>bs_stream := stream\<rparr>\<rparr>) }"

section \<open>Iterating\<close>

record xorIterator =
  it_br :: bstreamReader
  it_numTotal :: u16
  it_numRead :: u16
  it_t :: u64
  it_val :: f64
  it_leading :: byte
  it_trailing :: byte
  it_tDelta :: u64
  it_err :: "read_err option"

text \<open>A new iterator and one that is reset differ in the time before the first sample.\<close>

definition start_iterator :: "u64 \<Rightarrow> byte list \<Rightarrow> xorIterator option" where
  "start_iterator t bytes =
     do { body \<leftarrow> slice_from bytes 2;
          num \<leftarrow> be_uint16 bytes;
          Some \<lparr>it_br = newBReader body, it_numTotal = num, it_numRead = 0, it_t = t, it_val = F64 0, it_leading = 0,
            it_trailing = 0, it_tDelta = 0, it_err = None\<rparr> }"

definition chunk_Iterator :: "XORChunk \<Rightarrow> xorIterator option" where
  "chunk_Iterator c = start_iterator (push_bit 63 1) (Bytes c)"

definition iterator_Reset :: "byte list \<Rightarrow> xorIterator \<Rightarrow> xorIterator option" where
  "iterator_Reset b it = start_iterator 0 b"

definition At :: "xorIterator \<Rightarrow> u64 \<times> f64" where
  "At it = (it_t it, it_val it)"

text \<open>The fast variants of the reads are tried first.\<close>

definition next_bit :: "bstreamReader \<Rightarrow> (read_err + bool) \<times> bstreamReader" where
  "next_bit r = (case readBitFast r of (Inl _, r) \<Rightarrow> readBit r | (Inr v, r) \<Rightarrow> (Inr v, r))"

definition next_bits :: "byte \<Rightarrow> bstreamReader \<Rightarrow> (read_err + u64) \<times> bstreamReader" where
  "next_bits n r = (case readBitsFast n r of (Inl _, r) \<Rightarrow> readBits n r | (Inr v, r) \<Rightarrow> (Inr v, r))"

definition iterator_fail :: "read_err \<Rightarrow> bstreamReader \<Rightarrow> xorIterator \<Rightarrow> bool \<times> xorIterator" where
  "iterator_fail e br it = (False, it\<lparr>it_br := br, it_err := Some e\<rparr>)"

text \<open>The end of \<open>readValue\<close>: the meaningful bits of the value.\<close>

definition read_meaningful :: "xorIterator \<Rightarrow> bool \<times> xorIterator" where
  "read_meaningful it =
     (case next_bits (64 - it_leading it - it_trailing it) (it_br it) of
        (Inl e, br) \<Rightarrow> iterator_fail e br it
      | (Inr bits, br) \<Rightarrow>
          (True, it\<lparr>it_br := br, it_val := F64 (f64_bits (it_val it) XOR push_bit (unat (it_trailing it)) bits),
             it_numRead := it_numRead it + 1\<rparr>))"

definition readValue :: "xorIterator \<Rightarrow> bool \<times> xorIterator" where
  "readValue it =
     (case next_bit (it_br it) of
        (Inl e, br) \<Rightarrow> iterator_fail e br it
      | (Inr False, br) \<Rightarrow> (True, it\<lparr>it_br := br, it_numRead := it_numRead it + 1\<rparr>)
      | (Inr True, br) \<Rightarrow>
          (case next_bit br of
             (Inl e, br) \<Rightarrow> iterator_fail e br it
           | (Inr False, br) \<Rightarrow> read_meaningful (it\<lparr>it_br := br\<rparr>)
           | (Inr True, br) \<Rightarrow>
               (case next_bits 5 br of
                  (Inl e, br) \<Rightarrow> iterator_fail e br it
                | (Inr leading, br) \<Rightarrow>
                    let it = it\<lparr>it_leading := ucast leading\<rparr>
                    in (case next_bits 6 br of
                          (Inl e, br) \<Rightarrow> iterator_fail e br it
                        | (Inr bits, br) \<Rightarrow>
                            let mbits = ucast bits :: byte;
                                mbits = (if mbits = 0 then 64 else mbits)
                            in read_meaningful (it\<lparr>it_br := br, it_trailing := 64 - it_leading it - mbits\<rparr>)))))"

primrec dod_prefix :: "nat \<Rightarrow> byte \<Rightarrow> bstreamReader \<Rightarrow> (read_err + byte) \<times> bstreamReader" where
  "dod_prefix 0 d r = (Inr d, r)"
| "dod_prefix (Suc n) d r =
     (let d = push_bit 1 d
      in case next_bit r of
           (Inl e, r) \<Rightarrow> (Inl e, r)
         | (Inr False, r) \<Rightarrow> (Inr d, r)
         | (Inr True, r) \<Rightarrow> dod_prefix n (d OR 1) r)"

definition signed_bits :: "byte \<Rightarrow> u64 \<Rightarrow> u64" where
  "signed_bits sz bits = (if push_bit (unat (sz - 1)) 1 < bits then bits - push_bit (unat sz) 1 else bits)"

definition read_dod :: "bstreamReader \<Rightarrow> (read_err + u64) \<times> bstreamReader" where
  "read_dod r =
     (case dod_prefix 4 0 r of
        (Inl e, r) \<Rightarrow> (Inl e, r)
      | (Inr d, r) \<Rightarrow>
          if d = 15 then readBits 64 r
          else
            let sz = (if d = 2 then 14 else if d = 6 then 17 else if d = 14 then 20 else 0) :: byte
            in if sz = 0 then (Inr 0, r)
               else (case next_bits sz r of
                 (Inl e, r) \<Rightarrow> (Inl e, r)
               | (Inr bits, r) \<Rightarrow> (Inr (signed_bits sz bits), r)))"

definition Next :: "xorIterator \<Rightarrow> bool \<times> xorIterator" where
  "Next it =
     (if it_err it \<noteq> None \<or> it_numRead it = it_numTotal it then (False, it)
      else if it_numRead it = 0 then
        (case ReadVarint (it_br it) of
           (Inl e, br) \<Rightarrow> iterator_fail e br it
         | (Inr t, br) \<Rightarrow>
             (case readBits 64 br of
                (Inl e, br) \<Rightarrow> iterator_fail e br it
              | (Inr v, br) \<Rightarrow> (True, it\<lparr>it_br := br, it_t := t, it_val := F64 v, it_numRead := it_numRead it + 1\<rparr>)))
      else if it_numRead it = 1 then
        (case ReadUvarint (it_br it) of
           (Inl e, br) \<Rightarrow> iterator_fail e br it
         | (Inr tDelta, br) \<Rightarrow> readValue (it\<lparr>it_br := br, it_tDelta := tDelta, it_t := it_t it + tDelta\<rparr>))
      else
        (case read_dod (it_br it) of
           (Inl e, br) \<Rightarrow> iterator_fail e br it
         | (Inr dod, br) \<Rightarrow>
             let tDelta = it_tDelta it + dod
             in readValue (it\<lparr>it_br := br, it_tDelta := tDelta, it_t := it_t it + tDelta\<rparr>)))"

lemma read_meaningful_numbers:
  "snd (read_meaningful it) = it' \<Longrightarrow> it_numTotal it' = it_numTotal it \<and>
     (fst (read_meaningful it) \<longrightarrow> it_numRead it' = it_numRead it + 1)"
  by (auto simp: read_meaningful_def iterator_fail_def split: prod.splits sum.splits)

lemma readValue_numbers:
  "it_numTotal (snd (readValue it)) = it_numTotal it \<and>
   (fst (readValue it) \<longrightarrow> it_numRead (snd (readValue it)) = it_numRead it + 1)"
  by (auto simp: readValue_def Let_def iterator_fail_def read_meaningful_numbers [OF refl]
      split: prod.splits sum.splits bool.splits)

lemma readValue_True:
  "readValue it = (True, it') \<Longrightarrow> it_numTotal it' = it_numTotal it \<and> it_numRead it' = it_numRead it + 1"
  using readValue_numbers [of it] by simp

lemma Next_numbers:
  assumes "Next it = (True, it')"
  shows "it_numTotal it' = it_numTotal it \<and> it_numRead it' = it_numRead it + 1 \<and> it_numRead it \<noteq> it_numTotal it"
  using assms
  by (auto simp: Next_def Let_def iterator_fail_def dest!: readValue_True split: prod.splits sum.splits if_splits)

lemma Next_fewer:
  assumes "Next it = (True, it')"
  shows "unat (it_numTotal it' - it_numRead it') < unat (it_numTotal it - it_numRead it)"
proof -
  let ?left = "it_numTotal it - it_numRead it"
  have n: "it_numTotal it' = it_numTotal it" "it_numRead it' = it_numRead it + 1" "?left \<noteq> 0"
    using Next_numbers [OF assms] by auto
  have "it_numTotal it' - it_numRead it' = ?left - 1" by (simp add: n(1,2))
  then have "unat (it_numTotal it' - it_numRead it') = unat ?left - 1" by (simp only: unat_minus_one [OF n(3)])
  moreover have "unat ?left \<noteq> 0" using n(3) by (simp add: unat_eq_zero)
  ultimately show ?thesis by simp
qed

text \<open>The client's loop: as long as there is a next sample, take it. The loop ends, whatever the bytes are.\<close>

function drain :: "xorIterator \<Rightarrow> (u64 \<times> f64) list \<times> xorIterator" where
  "drain it = (case Next it of (True, it') \<Rightarrow> (let (ss, e) = drain it' in (At it' # ss, e)) | (False, it') \<Rightarrow> ([], it'))"
  by pat_completeness auto
termination by (relation "measure (\<lambda>it. unat (it_numTotal it - it_numRead it))") (auto intro: Next_fewer)

declare drain.simps [simp del]

text \<open>\<open>Appender\<close> restores the state behind the last sample by reading all of them.\<close>

definition chunk_Appender :: "XORChunk \<Rightarrow> (read_err + xorAppender) option" where
  "chunk_Appender c =
     do { it \<leftarrow> chunk_Iterator c;
          num \<leftarrow> be_uint16 (Bytes c);
          let it = snd (drain it);
          Some (case it_err it of
             Some e \<Rightarrow> Inl e
           | None \<Rightarrow> Inr \<lparr>xa_b = xc_b c, xa_t = it_t it, xa_v = it_val it, xa_tDelta = it_tDelta it,
               xa_leading = (if num = 0 then 255 else it_leading it), xa_trailing = it_trailing it\<rparr>) }"

primrec append_all :: "(u64 \<times> f64) list \<Rightarrow> xorAppender \<Rightarrow> xorAppender option" where
  "append_all [] a = Some a"
| "append_all (s # ss) a = do { a \<leftarrow> Append (fst s) (snd s) a; append_all ss a }"

text \<open>A writer opens an appender on the chunk and appends its samples.\<close>

definition append_session :: "(u64 \<times> f64) list \<Rightarrow> XORChunk \<Rightarrow> (read_err + XORChunk) option" where
  "append_session ss c =
     do { r \<leftarrow> chunk_Appender c;
          case r of Inl e \<Rightarrow> Some (Inl e) | Inr a \<Rightarrow> do { a \<leftarrow> append_all ss a; Some (Inr (c\<lparr>xc_b := xa_b a\<rparr>)) } }"

text \<open>\<open>Seek\<close> advances to the first sample that is not before the given time.\<close>

function seek_loop :: "u64 \<Rightarrow> xorIterator \<Rightarrow> bool \<times> xorIterator" where
  "seek_loop t it =
     (if sint (it_t it) < sint t \<or> it_numRead it = 0 then
        (case Next it of (True, it') \<Rightarrow> seek_loop t it' | (False, it') \<Rightarrow> (False, it'))
      else (True, it))"
  by pat_completeness auto
termination by (relation "measure (\<lambda>(_, it). unat (it_numTotal it - it_numRead it))") (auto intro: Next_fewer)

declare seek_loop.simps [simp del]

definition iterator_Seek :: "u64 \<Rightarrow> xorIterator \<Rightarrow> bool \<times> xorIterator" where
  "iterator_Seek t it = (if it_err it \<noteq> None then (False, it) else seek_loop t it)"

section \<open>A value is read back\<close>

lemma length_takeWhile_le: "j < length xs \<Longrightarrow> \<not> P (xs ! j) \<Longrightarrow> length (takeWhile P xs) \<le> j"
  by (metis not_le nth_mem set_takeWhileD takeWhile_nth)

lemma LeadingZeros64_le:
  assumes "bit x k"
  shows "LeadingZeros64 x \<le> 63 - k"
proof -
  have "k < 64" using bit_imp_le_length [OF assms] by simp
  then have "word_bits 64 x ! (63 - k) = bit x k" by (simp add: word_bits_def rev_nth)
  then show ?thesis unfolding LeadingZeros64_def using assms by (intro length_takeWhile_le) simp_all
qed

lemma TrailingZeros64_le:
  assumes "bit x k"
  shows "TrailingZeros64 x \<le> k"
proof -
  have "k < 64" using bit_imp_le_length [OF assms] by simp
  then have "rev (word_bits 64 x) ! k = bit x k" by (simp add: word_bits_def rev_map)
  then show ?thesis using assms \<open>k < 64\<close> unfolding TrailingZeros64_def by (intro length_takeWhile_le) simp_all
qed

lemma zeros_less:
  assumes "x \<noteq> 0"
  shows "LeadingZeros64 x + TrailingZeros64 x < 64"
proof -
  obtain k where "bit x k" using assms by (auto simp: bit_eq_iff)
  then show ?thesis using LeadingZeros64_le TrailingZeros64_le bit_imp_le_length [of x k] by fastforce
qed

lemma meaningful_bits:
  assumes "l \<le> LeadingZeros64 x" "tr \<le> TrailingZeros64 x" "l + tr < 64"
  shows "push_bit tr (take_bit (64 - l - tr) (drop_bit tr x)) = x"
proof (rule bit_word_eqI)
  fix i assume "i < LENGTH(64)"
  then show "bit (push_bit tr (take_bit (64 - l - tr) (drop_bit tr x))) i = bit x i"
    using LeadingZeros64_le [of x i] TrailingZeros64_le [of x i] assms
    by (cases "tr \<le> i") (auto simp: bit_simps)
qed

lemma next_bit_pending:
  assumes "reader_ok r" "pending r = v # rest"
  obtains r' where "next_bit r = (Inr v, r')" "reader_ok r'" "pending r' = rest"
proof (cases "br_valid r = 0")
  case True
  then have "next_bit r = readBit r" by (simp add: next_bit_def readBitFast_def)
  then show thesis using readBit_pending [OF assms] that by auto
next
  case False
  then show thesis using readBitFast_pending [OF assms(1) False assms(2)] that by (auto simp: next_bit_def)
qed

lemma next_bits_pending:
  assumes "reader_ok r" "pending r = word_bits (unat n) u @ rest" "0 < unat n" "unat n \<le> 64"
  obtains r' where "next_bits n r = (Inr (take_bit (unat n) u), r')" "reader_ok r'" "pending r' = rest"
proof (cases "br_valid r < n")
  case True
  then have "next_bits n r = readBits n r" by (simp add: next_bits_def readBitsFast_def)
  then show thesis using readBits_pending [OF assms(1,3,4,2)] that by auto
next
  case False
  then have "unat n \<le> unat (br_valid r)" by (simp add: word_less_nat_alt)
  then show thesis using readBitsFast_pending [OF assms(1) _ assms(2)] that by (auto simp: next_bits_def)
qed

text \<open>The leading and trailing zeros of an appender; at the start there are none.\<close>

definition zeros_ok :: "xorAppender \<Rightarrow> bool" where
  "zeros_ok a \<longleftrightarrow> xa_leading a = 255 \<or> unat (xa_leading a) \<le> 31 \<and> unat (xa_leading a) + unat (xa_trailing a) < 64"

definition same_zeros :: "xorAppender \<Rightarrow> xorIterator \<Rightarrow> bool" where
  "same_zeros a it \<longleftrightarrow>
     (if xa_leading a = 255 then it_leading it = 0 \<and> it_trailing it = 0
      else it_leading it = xa_leading a \<and> it_trailing it = xa_trailing a)"

lemma read_meaningful_pending:
  assumes "reader_ok (it_br it)" "pending (it_br it) = word_bits (64 - l - tr) (drop_bit tr x) @ rest"
    and "unat (it_leading it) = l" "unat (it_trailing it) = tr" "l + tr < 64"
    and "l \<le> LeadingZeros64 x" "tr \<le> TrailingZeros64 x"
  shows "\<exists>br. read_meaningful it = (True, it\<lparr>it_br := br, it_val := F64 (f64_bits (it_val it) XOR x),
      it_numRead := it_numRead it + 1\<rparr>) \<and> reader_ok br \<and> pending br = rest"
proof -
  have n: "unat (64 - it_leading it - it_trailing it) = 64 - l - tr"
    using assms(3-5) by (simp add: unat_sub word_le_nat_alt)
  obtain br where "next_bits (64 - it_leading it - it_trailing it) (it_br it) = (Inr (take_bit (64 - l - tr) (drop_bit tr x)), br)"
    "reader_ok br" "pending br = rest"
    using next_bits_pending [OF assms(1), of "64 - it_leading it - it_trailing it" "drop_bit tr x" rest] assms(2,5)
    unfolding n by auto
  then show ?thesis using meaningful_bits [OF assms(6,7,5)] assms(4) by (intro exI [of _ br]) (simp add: read_meaningful_def)
qed

text \<open>What \<open>writeVDelta\<close> writes, \<open>readValue\<close> reads.\<close>

definition after_value :: "xorIterator \<Rightarrow> bstreamReader \<Rightarrow> f64 \<Rightarrow> byte \<times> byte \<Rightarrow> xorIterator" where
  "after_value it br v zs =
     it\<lparr>it_leading := fst zs, it_trailing := snd zs, it_br := br, it_val := v, it_numRead := it_numRead it + 1\<rparr>"

lemma value_reused:
  assumes h: "holds (xa_b a) w" and z: "zeros_ok a" "xa_leading a \<noteq> 255" and x: "x = f64_bits v XOR f64_bits (xa_v a)" "x \<noteq> 0"
    and fits: "unat (xa_leading a) \<le> LeadingZeros64 x" "unat (xa_trailing a) \<le> TrailingZeros64 x"
  shows "\<exists>bits. holds (writeBits (drop_bit (unat (xa_trailing a)) x) (64 - unat (xa_leading a) - unat (xa_trailing a))
        (writeBit False (writeBit True (xa_b a)))) (w @ bits) \<and>
     (\<forall>it rest. same_zeros a it \<and> it_val it = xa_v a \<and> reader_ok (it_br it) \<and> pending (it_br it) = bits @ rest \<longrightarrow>
        (\<exists>br. readValue it = (True, after_value it br v (it_leading it, it_trailing it)) \<and> reader_ok br \<and> pending br = rest))"
proof -
  define l tr where "l = unat (xa_leading a)" and "tr = unat (xa_trailing a)"
  let ?bits = "[True, False] @ word_bits (64 - l - tr) (drop_bit tr x)"
  have lt: "l + tr < 64" using z by (auto simp: zeros_ok_def l_def tr_def)
  have "holds (writeBits (drop_bit tr x) (64 - l - tr) (writeBit False (writeBit True (xa_b a)))) (w @ ?bits)"
    using holds_writeBits [OF _ holds_writeBit [OF holds_writeBit [OF h, of True], of False], of "64 - l - tr" "drop_bit tr x"]
    by simp
  moreover have "\<exists>br. readValue it = (True, after_value it br v (it_leading it, it_trailing it)) \<and> reader_ok br \<and> pending br = rest"
    if it: "same_zeros a it" "it_val it = xa_v a" "reader_ok (it_br it)" "pending (it_br it) = ?bits @ rest" for it rest
  proof -
    obtain br1 where br1: "next_bit (it_br it) = (Inr True, br1)" "reader_ok br1"
      "pending br1 = False # word_bits (64 - l - tr) (drop_bit tr x) @ rest"
      using next_bit_pending [OF it(3)] it(4) by auto
    obtain br2 where br2: "next_bit br1 = (Inr False, br2)" "reader_ok br2"
      "pending br2 = word_bits (64 - l - tr) (drop_bit tr x) @ rest"
      using next_bit_pending [OF br1(2,3)] by auto
    have "\<exists>br. read_meaningful (it\<lparr>it_br := br2\<rparr>) = (True, it\<lparr>it_br := br2\<rparr>\<lparr>it_br := br,
        it_val := F64 (f64_bits (it_val (it\<lparr>it_br := br2\<rparr>)) XOR x), it_numRead := it_numRead (it\<lparr>it_br := br2\<rparr>) + 1\<rparr>) \<and>
        reader_ok br \<and> pending br = rest"
      by (rule read_meaningful_pending [where l = l and tr = tr])
        (use br2 it(1) z(2) lt fits in \<open>auto simp: same_zeros_def l_def tr_def\<close>)
    moreover have "F64 (f64_bits (xa_v a) XOR x) = v" by (simp add: x(1) xor.left_commute)
    ultimately show ?thesis using br1(1) br2(1) it(2) by (auto simp: readValue_def after_value_def)
  qed
  ultimately show ?thesis unfolding l_def [symmetric] tr_def [symmetric] by blast
qed

lemma value_fresh:
  assumes h: "holds (xa_b a) w" and x: "x = f64_bits v XOR f64_bits (xa_v a)" "x \<noteq> 0"
    and zs: "leading = (if 32 \<le> (of_nat (LeadingZeros64 x) :: byte) then 31 else of_nat (LeadingZeros64 x))"
      "trailing = of_nat (TrailingZeros64 x)" "sigbits = 64 - leading - trailing"
  shows "unat leading \<le> 31 \<and> unat leading + unat trailing < 64 \<and>
    (\<exists>bits. holds (writeBits (drop_bit (unat trailing) x) (unat sigbits) (writeBits (ucast sigbits) 6
        (writeBits (ucast leading) 5 (writeBit True (writeBit True (xa_b a)))))) (w @ bits) \<and>
     (\<forall>it rest. it_val it = xa_v a \<and> reader_ok (it_br it) \<and> pending (it_br it) = bits @ rest \<longrightarrow>
        (\<exists>br. readValue it = (True, after_value it br v (leading, trailing)) \<and> reader_ok br \<and> pending br = rest)))"
proof -
  define l tr where "l = unat leading" and "tr = unat trailing"
  have lz: "unat (of_nat (LeadingZeros64 x) :: byte) = LeadingZeros64 x" "unat (of_nat (TrailingZeros64 x) :: byte) = TrailingZeros64 x"
    using zeros_less [OF x(2)] by (simp_all add: unat_of_nat)
  have l: "l \<le> 31" "l \<le> LeadingZeros64 x" "tr = TrailingZeros64 x"
    using lz by (auto simp: l_def tr_def zs(1,2) word_le_nat_alt)
  have lt: "l + tr < 64" using l zeros_less [OF x(2)] by simp
  have sig: "unat sigbits = 64 - l - tr" using lt by (simp add: zs(3) unat_sub word_le_nat_alt l_def tr_def)
  let ?bits = "[True, True] @ word_bits 5 (ucast leading :: u64) @ word_bits 6 (ucast sigbits :: u64) @
    word_bits (64 - l - tr) (drop_bit tr x)"
  have "holds (writeBits (drop_bit tr x) (unat sigbits) (writeBits (ucast sigbits) 6
        (writeBits (ucast leading) 5 (writeBit True (writeBit True (xa_b a)))))) (w @ ?bits)"
    using holds_writeBits [OF _ holds_writeBits [OF _ holds_writeBits [OF _ holds_writeBit [OF holds_writeBit [OF h, of True], of True],
            of 5 "ucast leading"], of 6 "ucast sigbits"], of "unat sigbits" "drop_bit tr x"]
    by (simp add: sig)
  moreover have "\<exists>br. readValue it = (True, after_value it br v (leading, trailing)) \<and> reader_ok br \<and> pending br = rest"
    if it: "it_val it = xa_v a" "reader_ok (it_br it)" "pending (it_br it) = ?bits @ rest" for it rest
  proof -
    obtain br1 where br1: "next_bit (it_br it) = (Inr True, br1)" "reader_ok br1"
      "pending br1 = True # word_bits 5 (ucast leading :: u64) @ word_bits 6 (ucast sigbits :: u64) @ word_bits (64 - l - tr) (drop_bit tr x) @ rest"
      using next_bit_pending [OF it(2)] it(3) by auto
    obtain br2 where br2: "next_bit br1 = (Inr True, br2)" "reader_ok br2"
      "pending br2 = word_bits (unat (5 :: byte)) (ucast leading :: u64) @ word_bits 6 (ucast sigbits :: u64) @ word_bits (64 - l - tr) (drop_bit tr x) @ rest"
      using next_bit_pending [OF br1(2,3)] by auto
    obtain br3 where br3: "next_bits 5 br2 = (Inr (take_bit 5 (ucast leading)), br3)" "reader_ok br3"
      "pending br3 = word_bits (unat (6 :: byte)) (ucast sigbits :: u64) @ word_bits (64 - l - tr) (drop_bit tr x) @ rest"
      using next_bits_pending [OF br2(2,3)] by auto
    obtain br4 where br4: "next_bits 6 br3 = (Inr (take_bit 6 (ucast sigbits)), br4)" "reader_ok br4"
      "pending br4 = word_bits (64 - l - tr) (drop_bit tr x) @ rest"
      using next_bits_pending [OF br3(2,3)] by auto
    have lead: "ucast (take_bit 5 (ucast leading :: u64)) = leading"
      using l(1) by (simp add: word_unat_eq_iff unsigned_ucast_eq unsigned_take_bit_eq take_bit_nat_eq_self flip: l_def)
    have "(if ucast (take_bit 6 (ucast sigbits :: u64)) = (0 :: byte) then 64 else ucast (take_bit 6 (ucast sigbits :: u64))) = sigbits"
    proof (cases "unat sigbits = 64")
      case True
      then have "sigbits = 64" by (simp add: word_unat_eq_iff)
      then show ?thesis by simp
    next
      case False
      then have "unat sigbits < 64" "unat sigbits \<noteq> 0" using sig lt by simp_all
      moreover from this have "ucast (take_bit 6 (ucast sigbits :: u64)) = sigbits"
        by (simp add: word_unat_eq_iff unsigned_ucast_eq unsigned_take_bit_eq take_bit_nat_eq_self)
      ultimately show ?thesis by (auto simp: unat_eq_zero)
    qed
    moreover have "64 - leading - sigbits = trailing" by (simp add: zs(3))
    ultimately have rv: "readValue it = read_meaningful (it\<lparr>it_leading := leading, it_br := br4, it_trailing := trailing\<rparr>)"
      using br1(1) br2(1) br3(1) br4(1) lead by (simp add: readValue_def Let_def)
    let ?it = "it\<lparr>it_leading := leading, it_br := br4, it_trailing := trailing\<rparr>"
    have "\<exists>br. read_meaningful ?it = (True, ?it\<lparr>it_br := br,
        it_val := F64 (f64_bits (it_val ?it) XOR x), it_numRead := it_numRead ?it + 1\<rparr>) \<and> reader_ok br \<and> pending br = rest"
      by (rule read_meaningful_pending [where l = l and tr = tr])
        (use br4 lt l in \<open>simp_all add: l_def tr_def\<close>)
    moreover have "F64 (f64_bits (xa_v a) XOR x) = v" by (simp add: x(1) xor.left_commute)
    ultimately show ?thesis using it(1) by (auto simp: rv after_value_def)
  qed
  ultimately show ?thesis using l lt unfolding l_def [symmetric] tr_def [symmetric] by blast
qed

lemma writeVDelta_read:
  assumes h: "holds (xa_b a) w" and z: "zeros_ok a"
  shows "\<exists>bits b l tr. writeVDelta v a = a\<lparr>xa_leading := l, xa_trailing := tr, xa_b := b\<rparr> \<and> holds b (w @ bits) \<and>
    zeros_ok (writeVDelta v a) \<and>
    (\<forall>it rest. same_zeros a it \<and> it_val it = xa_v a \<and> reader_ok (it_br it) \<and> pending (it_br it) = bits @ rest \<longrightarrow>
       (\<exists>br zs. readValue it = (True, after_value it br v zs) \<and> reader_ok br \<and> pending br = rest \<and>
          same_zeros (writeVDelta v a) (after_value it br v zs)))"
proof -
  define x where "x = f64_bits v XOR f64_bits (xa_v a)"
  define leading where "leading = (if 32 \<le> (of_nat (LeadingZeros64 x) :: byte) then 31 else of_nat (LeadingZeros64 x) :: byte)"
  define trailing where "trailing = (of_nat (TrailingZeros64 x) :: byte)"
  define sigbits where "sigbits = 64 - leading - trailing"
  have w: "writeVDelta v a =
     (if x = 0 then a\<lparr>xa_b := writeBit False (xa_b a)\<rparr>
      else if xa_leading a \<noteq> 255 \<and> xa_leading a \<le> leading \<and> xa_trailing a \<le> trailing
      then a\<lparr>xa_b := writeBits (drop_bit (unat (xa_trailing a)) x) (64 - unat (xa_leading a) - unat (xa_trailing a))
             (writeBit False (writeBit True (xa_b a)))\<rparr>
      else a\<lparr>xa_leading := leading, xa_trailing := trailing,
             xa_b := writeBits (drop_bit (unat trailing) x) (unat sigbits) (writeBits (ucast sigbits) 6
               (writeBits (ucast leading) 5 (writeBit True (writeBit True (xa_b a)))))\<rparr>)"
    unfolding writeVDelta_def Let_def x_def leading_def trailing_def sigbits_def by (rule refl)
  consider "x = 0" | "x \<noteq> 0" "xa_leading a \<noteq> 255" "xa_leading a \<le> leading" "xa_trailing a \<le> trailing"
    | "x \<noteq> 0" "\<not> (xa_leading a \<noteq> 255 \<and> xa_leading a \<le> leading \<and> xa_trailing a \<le> trailing)" by blast
  then show ?thesis
  proof cases
    assume x0: "x = 0"
    have v: "v = xa_v a"
      by (intro f64.expand bit_word_eqI) (use x0 in \<open>auto simp: x_def bit_eq_iff bit_xor_iff\<close>)
    have same: "same_zeros (writeVDelta v a) (after_value it br v' (it_leading it, it_trailing it)) = same_zeros a it" for it br v'
      by (simp add: w x0 same_zeros_def after_value_def)
    have "\<exists>br zs. readValue it = (True, after_value it br v zs) \<and> reader_ok br \<and> pending br = rest \<and>
        same_zeros (writeVDelta v a) (after_value it br v zs)"
      if it: "same_zeros a it" "it_val it = xa_v a" "reader_ok (it_br it)" "pending (it_br it) = [False] @ rest" for it rest
    proof -
      obtain br where "next_bit (it_br it) = (Inr False, br)" "reader_ok br" "pending br = rest"
        using next_bit_pending [OF it(3)] it(4) by auto
      moreover from this have "readValue it = (True, after_value it br v (it_leading it, it_trailing it))"
        using it(2) v by (simp add: readValue_def after_value_def)
      ultimately show ?thesis using same it(1) by blast
    qed
    moreover have "holds (writeBit False (xa_b a)) (w @ [False])" by (rule holds_writeBit [OF h])
    ultimately show ?thesis
      using z by (intro exI [of _ "[False]"] exI [of _ "writeBit False (xa_b a)"] exI [of _ "xa_leading a"] exI [of _ "xa_trailing a"])
        (simp add: w x0 zeros_ok_def)
  next
    assume c: "x \<noteq> 0" "xa_leading a \<noteq> 255" "xa_leading a \<le> leading" "xa_trailing a \<le> trailing"
    have "unat leading \<le> LeadingZeros64 x" "unat trailing = TrailingZeros64 x"
      using zeros_less [OF c(1)] by (auto simp: leading_def trailing_def unat_of_nat word_le_nat_alt)
    then have fits: "unat (xa_leading a) \<le> LeadingZeros64 x" "unat (xa_trailing a) \<le> TrailingZeros64 x"
      using c(3,4) by (simp_all add: word_le_nat_alt)
    let ?b = "writeBits (drop_bit (unat (xa_trailing a)) x) (64 - unat (xa_leading a) - unat (xa_trailing a))
        (writeBit False (writeBit True (xa_b a)))"
    obtain bits where bits: "holds ?b (w @ bits)"
      "\<And>it rest. same_zeros a it \<and> it_val it = xa_v a \<and> reader_ok (it_br it) \<and> pending (it_br it) = bits @ rest \<Longrightarrow>
        \<exists>br. readValue it = (True, after_value it br v (it_leading it, it_trailing it)) \<and> reader_ok br \<and> pending br = rest"
      using value_reused [OF h z c(2) x_def c(1) fits] by blast
    have a': "writeVDelta v a = a\<lparr>xa_b := ?b\<rparr>" using c by (simp add: w)
    have "same_zeros (a\<lparr>xa_b := ?b\<rparr>) (after_value it br v (it_leading it, it_trailing it)) = same_zeros a it" for it br
      by (simp add: same_zeros_def after_value_def)
    then have "\<exists>br zs. readValue it = (True, after_value it br v zs) \<and> reader_ok br \<and> pending br = rest \<and>
        same_zeros (writeVDelta v a) (after_value it br v zs)"
      if "same_zeros a it \<and> it_val it = xa_v a \<and> reader_ok (it_br it) \<and> pending (it_br it) = bits @ rest" for it rest
      using bits(2) [OF that] that unfolding a' by blast
    moreover have "zeros_ok (writeVDelta v a)" using z by (simp add: a' zeros_ok_def)
    moreover have "writeVDelta v a = a\<lparr>xa_leading := xa_leading a, xa_trailing := xa_trailing a, xa_b := ?b\<rparr>" by (simp add: a')
    ultimately show ?thesis using bits(1) by blast
  next
    assume c: "x \<noteq> 0" "\<not> (xa_leading a \<noteq> 255 \<and> xa_leading a \<le> leading \<and> xa_trailing a \<le> trailing)"
    let ?b = "writeBits (drop_bit (unat trailing) x) (unat sigbits) (writeBits (ucast sigbits) 6
               (writeBits (ucast leading) 5 (writeBit True (writeBit True (xa_b a)))))"
    obtain bits where l: "unat leading \<le> 31" "unat leading + unat trailing < 64" and bits: "holds ?b (w @ bits)"
      "\<And>it rest. it_val it = xa_v a \<and> reader_ok (it_br it) \<and> pending (it_br it) = bits @ rest \<Longrightarrow>
        \<exists>br. readValue it = (True, after_value it br v (leading, trailing)) \<and> reader_ok br \<and> pending br = rest"
      using value_fresh [OF h x_def c(1) leading_def trailing_def sigbits_def] by blast
    have a': "writeVDelta v a = a\<lparr>xa_leading := leading, xa_trailing := trailing, xa_b := ?b\<rparr>"
      using c by (auto simp: w)
    have "leading \<noteq> 255" using l(1) by auto
    then have "same_zeros (a\<lparr>xa_leading := leading, xa_trailing := trailing, xa_b := ?b\<rparr>) (after_value it br v (leading, trailing))" for it br
      by (simp add: same_zeros_def after_value_def)
    then have "\<exists>br zs. readValue it = (True, after_value it br v zs) \<and> reader_ok br \<and> pending br = rest \<and>
        same_zeros (writeVDelta v a) (after_value it br v zs)"
      if "same_zeros a it \<and> it_val it = xa_v a \<and> reader_ok (it_br it) \<and> pending (it_br it) = bits @ rest" for it rest
      using bits(2) that unfolding a' by blast
    moreover have "zeros_ok (writeVDelta v a)" using l by (simp add: a' zeros_ok_def)
    ultimately show ?thesis using bits(1) a' by blast
  qed
qed

lemma signed_bits_range:
  assumes "bitRange d (unat sz)" "1 < unat sz" "unat sz < 64"
  shows "signed_bits sz (take_bit (unat sz) d) = d"
proof -
  define n i where "n = unat sz" and "i = sint d"
  have "sz \<noteq> 0" using assms(2) by auto
  then have n1: "unat (sz - 1) = n - 1" by (simp add: unat_minus_one n_def)
  have i: "- (2 ^ (n - 1)) < i" "i \<le> 2 ^ (n - 1)" using assms(1) by (simp_all add: bitRange_def n_def i_def)
  have half: "(2 :: int) * 2 ^ (n - 1) = 2 ^ n" using assms(2) by (cases n) (simp_all add: n_def)
  have d: "d = word_of_int i" by (simp add: i_def)
  have ub: "uint (take_bit n d) = take_bit n i"
    using assms(3) by (simp add: d n_def unsigned_take_bit_eq unsigned_of_int take_bit_take_bit min_def)
  have "(2 :: int) ^ (n - 1) < 2 ^ 64" using assms(3) by (intro power_strict_increasing) (auto simp: n_def)
  then have "take_bit 64 ((2 :: int) ^ (n - 1)) = 2 ^ (n - 1)" by (intro take_bit_int_eq_self) simp_all
  moreover have "push_bit (n - 1) 1 = (word_of_int (2 ^ (n - 1)) :: u64)" by (simp add: push_bit_eq_mult)
  ultimately have un: "uint (push_bit (n - 1) 1 :: u64) = 2 ^ (n - 1)" by (simp only: unsigned_of_int) simp
  show ?thesis
  proof (cases "i < 0")
    case True
    then have t: "take_bit n i = i + 2 ^ n"
      using i half by (simp add: take_bit_eq_mod) (smt (verit) mod_add_self2 mod_pos_pos_trivial)
    then have "push_bit (n - 1) 1 < take_bit n d" using i half True by (simp add: word_less_def ub un [simplified])
    moreover have "take_bit n d = word_of_int (i + 2 ^ n)" using ub t by (metis word_of_int_uint)
    ultimately show ?thesis by (simp add: signed_bits_def n1 d flip: n_def)
  next
    case False
    then have t: "take_bit n i = i" using i half by (simp add: take_bit_int_eq_self_iff)
    then have "\<not> push_bit (n - 1) 1 < take_bit n d" using i by (simp add: word_less_def ub un [simplified])
    moreover have "take_bit n d = d" using ub t d by (metis word_of_int_uint)
    ultimately show ?thesis by (simp add: signed_bits_def n1 flip: n_def)
  qed
qed

text \<open>A change of the difference is read back.\<close>

lemma word_bits_prefix:
  "word_bits 2 (2 :: u64) = [True, False]" "word_bits 3 (6 :: u64) = [True, True, False]"
  "word_bits 4 (14 :: u64) = [True, True, True, False]" "word_bits 4 (15 :: u64) = [True, True, True, True]"
  by (simp_all add: word_bits_def upt_rec bit_numeral_rec)

lemma read_ranged:
  fixes sz :: byte
  assumes "dod_prefix 4 0 r = (Inr d, r1)" "reader_ok r1" "pending r1 = word_bits (unat sz) dod @ rest"
    and "(d, sz) \<in> {(2, 14), (6, 17), (14, 20)}" "bitRange dod (unat sz)"
  shows "\<exists>r'. read_dod r = (Inr dod, r') \<and> reader_ok r' \<and> pending r' = rest"
proof -
  have sz: "1 < unat sz" "unat sz < 64" using assms(4) by auto
  obtain r2 where r2: "next_bits sz r1 = (Inr (take_bit (unat sz) dod), r2)" "reader_ok r2" "pending r2 = rest"
    using next_bits_pending [OF assms(2,3)] sz by auto
  then show ?thesis
    using assms(1,4) signed_bits_range [OF assms(5) sz] by (auto simp: read_dod_def Let_def)
qed

lemma dod_prefix_ones:
  assumes "reader_ok r" "pending r = replicate k True @ tail" "k \<le> n" "k < n \<Longrightarrow> tail = False # rest" "k = n \<Longrightarrow> tail = rest"
  shows "\<exists>r'. dod_prefix n d r = (Inr (let d = ((\<lambda>d. push_bit 1 d OR 1) ^^ k) d in if k < n then push_bit 1 d else d), r') \<and>
    reader_ok r' \<and> pending r' = rest"
  using assms
proof (induction k arbitrary: n d r)
  case 0
  show ?case
  proof (cases n)
    case (Suc m)
    then obtain r' where "next_bit r = (Inr False, r')" "reader_ok r'" "pending r' = rest"
      using next_bit_pending [of r False rest] "0.prems" by auto
    then show ?thesis using Suc by simp
  qed (use "0.prems" in simp)
next
  case (Suc k)
  then obtain m where m: "n = Suc m" by (cases n) auto
  obtain r' where r': "next_bit r = (Inr True, r')" "reader_ok r'" "pending r' = replicate k True @ tail"
    using next_bit_pending [OF Suc.prems(1)] Suc.prems(2) by auto
  have "((\<lambda>d. push_bit 1 d OR 1) ^^ Suc k) d = ((\<lambda>d. push_bit 1 d OR 1) ^^ k) (push_bit 1 d OR 1)"
    by (simp only: funpow_Suc_right o_apply)
  moreover have "dod_prefix n d r = dod_prefix m (push_bit 1 d OR 1) r'" using r'(1) m by (simp add: Let_def)
  ultimately show ?case
    using Suc.IH [OF r'(2,3), of m "push_bit 1 d OR 1"] Suc.prems(3-5) m by (simp only: Suc_less_eq Suc_le_mono nat.inject)
qed

lemma write_dod_read:
  assumes h: "holds b w"
  shows "\<exists>bits. holds (write_dod dod b) (w @ bits) \<and>
    (\<forall>r rest. reader_ok r \<and> pending r = bits @ rest \<longrightarrow>
       (\<exists>r'. read_dod r = (Inr dod, r') \<and> reader_ok r' \<and> pending r' = rest))"
proof -
  have prefix: "\<exists>r'. dod_prefix 4 0 r = (Inr d, r') \<and> reader_ok r' \<and> pending r' = rest"
    if "reader_ok r" "pending r = bits @ rest"
      "(d, bits) \<in> {(0, [False]), (2, [True, False]), (6, [True, True, False]), (14, [True, True, True, False]),
         (15, [True, True, True, True])}" for r d bits rest
    using dod_prefix_ones [OF that(1), of 0 "False # rest" 4 rest 0] dod_prefix_ones [OF that(1), of 1 "False # rest" 4 rest 0]
      dod_prefix_ones [OF that(1), of 2 "False # rest" 4 rest 0] dod_prefix_ones [OF that(1), of 3 "False # rest" 4 rest 0]
      dod_prefix_ones [OF that(1), of 4 rest 4 rest 0] that(2,3)
    by (auto simp: eval_nat_numeral Let_def simp del: dod_prefix.simps)
  consider "dod = 0" | "dod \<noteq> 0" "bitRange dod 14" | "dod \<noteq> 0" "\<not> bitRange dod 14" "bitRange dod 17"
    | "dod \<noteq> 0" "\<not> bitRange dod 14" "\<not> bitRange dod 17" "bitRange dod 20"
    | "dod \<noteq> 0" "\<not> bitRange dod 14" "\<not> bitRange dod 17" "\<not> bitRange dod 20" by blast
  then show ?thesis
  proof cases
    case 1
    have "holds (write_dod dod b) (w @ [False])" using holds_writeBit [OF h, of False] 1 by (simp add: write_dod_def)
    moreover have "\<exists>r'. read_dod r = (Inr dod, r') \<and> reader_ok r' \<and> pending r' = rest"
      if "reader_ok r" "pending r = [False] @ rest" for r rest
      using prefix [OF that, of 0] 1 by (auto simp: read_dod_def)
    ultimately show ?thesis by blast
  next
    case 2
    have "holds (write_dod dod b) (w @ [True, False] @ word_bits 14 dod)"
      using holds_writeBits [OF _ holds_writeBits [OF _ h, of 2 2], of 14 dod] 2 by (simp add: write_dod_def word_bits_prefix)
    moreover have "\<exists>r'. read_dod r = (Inr dod, r') \<and> reader_ok r' \<and> pending r' = rest"
      if r: "reader_ok r" "pending r = ([True, False] @ word_bits 14 dod) @ rest" for r rest
      using prefix [OF r(1) r(2) [unfolded append_assoc], of 2] read_ranged [of r 2 _ 14 dod rest] 2(2) by force
    ultimately show ?thesis by blast
  next
    case 3
    have "holds (write_dod dod b) (w @ [True, True, False] @ word_bits 17 dod)"
      using holds_writeBits [OF _ holds_writeBits [OF _ h, of 3 6], of 17 dod] 3 by (simp add: write_dod_def word_bits_prefix)
    moreover have "\<exists>r'. read_dod r = (Inr dod, r') \<and> reader_ok r' \<and> pending r' = rest"
      if r: "reader_ok r" "pending r = ([True, True, False] @ word_bits 17 dod) @ rest" for r rest
      using prefix [OF r(1) r(2) [unfolded append_assoc], of 6] read_ranged [of r 6 _ 17 dod rest] 3(3) by force
    ultimately show ?thesis by blast
  next
    case 4
    have "holds (write_dod dod b) (w @ [True, True, True, False] @ word_bits 20 dod)"
      using holds_writeBits [OF _ holds_writeBits [OF _ h, of 4 14], of 20 dod] 4 by (simp add: write_dod_def word_bits_prefix)
    moreover have "\<exists>r'. read_dod r = (Inr dod, r') \<and> reader_ok r' \<and> pending r' = rest"
      if r: "reader_ok r" "pending r = ([True, True, True, False] @ word_bits 20 dod) @ rest" for r rest
      using prefix [OF r(1) r(2) [unfolded append_assoc], of 14] read_ranged [of r 14 _ 20 dod rest] 4(4) by force
    ultimately show ?thesis by blast
  next
    case 5
    have "holds (write_dod dod b) (w @ [True, True, True, True] @ word_bits 64 dod)"
      using holds_writeBits [OF _ holds_writeBits [OF _ h, of 4 15], of 64 dod] 5 by (simp add: write_dod_def word_bits_prefix)
    moreover have "\<exists>r'. read_dod r = (Inr dod, r') \<and> reader_ok r' \<and> pending r' = rest"
      if r: "reader_ok r" "pending r = ([True, True, True, True] @ word_bits 64 dod) @ rest" for r rest
    proof -
      obtain r1 where r1: "dod_prefix 4 0 r = (Inr 15, r1)" "reader_ok r1" "pending r1 = word_bits (unat (64 :: byte)) dod @ rest"
        using prefix [OF r(1) r(2) [unfolded append_assoc], of 15] by auto
      moreover have "take_bit 64 dod = dod" by (rule take_bit_word_eq_self) simp
      ultimately show ?thesis using readBits_pending [OF r1(2) _ _ r1(3)] by (auto simp: read_dod_def)
    qed
    ultimately show ?thesis by blast
  qed
qed

section \<open>A chunk is read back\<close>

text \<open>An appender and an iterator are in the same state, when the iterator stands behind what the appender has written.\<close>

definition in_step :: "nat \<Rightarrow> xorAppender \<Rightarrow> xorIterator \<Rightarrow> bool" where
  "in_step n a it \<longleftrightarrow> it_err it = None \<and> reader_ok (it_br it) \<and> it_numRead it = of_nat n \<and> same_zeros a it \<and>
     (0 < n \<longrightarrow> it_t it = xa_t a \<and> it_val it = xa_v a) \<and> (1 < n \<longrightarrow> it_tDelta it = xa_tDelta a)"

lemma delta_step:
  assumes h: "holds b (w @ dbits)" and z: "zeros_ok a" and n: "0 < n"
    and a': "a' = (writeVDelta v (a\<lparr>xa_b := b\<rparr>))\<lparr>xa_t := t, xa_v := v, xa_tDelta := td\<rparr>"
    and reads: "\<And>it rest. in_step n a it \<Longrightarrow> it_numRead it \<noteq> it_numTotal it \<Longrightarrow> pending (it_br it) = dbits @ rest \<Longrightarrow>
      \<exists>br. Next it = readValue (it\<lparr>it_br := br, it_tDelta := td, it_t := t\<rparr>) \<and> reader_ok br \<and> pending br = rest"
  shows "\<exists>bits. holds (xa_b a') (w @ bits) \<and> zeros_ok a' \<and>
    (\<forall>it rest. in_step n a it \<and> it_numRead it \<noteq> it_numTotal it \<and> pending (it_br it) = bits @ rest \<longrightarrow>
      (\<exists>it'. Next it = (True, it') \<and> At it' = (t, v) \<and> in_step (Suc n) a' it' \<and>
        it_numTotal it' = it_numTotal it \<and> pending (it_br it') = rest))"
proof -
  let ?a = "a\<lparr>xa_b := b\<rparr>"
  have "holds (xa_b ?a) (w @ dbits)" "zeros_ok ?a" using h z by (simp_all add: zeros_ok_def)
  from writeVDelta_read [OF this, of v] obtain bits b' l tr where
    w: "writeVDelta v ?a = ?a\<lparr>xa_leading := l, xa_trailing := tr, xa_b := b'\<rparr>" "holds b' ((w @ dbits) @ bits)"
      "zeros_ok (writeVDelta v ?a)"
    and r: "\<And>it rest. same_zeros ?a it \<and> it_val it = xa_v ?a \<and> reader_ok (it_br it) \<and> pending (it_br it) = bits @ rest \<Longrightarrow>
       \<exists>br zs. readValue it = (True, after_value it br v zs) \<and> reader_ok br \<and> pending br = rest \<and>
          same_zeros (writeVDelta v ?a) (after_value it br v zs)" by blast
  have "\<exists>it'. Next it = (True, it') \<and> At it' = (t, v) \<and> in_step (Suc n) a' it' \<and>
      it_numTotal it' = it_numTotal it \<and> pending (it_br it') = rest"
    if it: "in_step n a it" "it_numRead it \<noteq> it_numTotal it" "pending (it_br it) = (dbits @ bits) @ rest" for it rest
  proof -
    obtain br where br: "Next it = readValue (it\<lparr>it_br := br, it_tDelta := td, it_t := t\<rparr>)" "reader_ok br" "pending br = bits @ rest"
      using reads [OF it(1,2), of "bits @ rest"] it(3) by auto
    let ?it = "it\<lparr>it_br := br, it_tDelta := td, it_t := t\<rparr>"
    have "same_zeros ?a ?it \<and> it_val ?it = xa_v ?a \<and> reader_ok (it_br ?it) \<and> pending (it_br ?it) = bits @ rest"
      using it(1) br(2,3) n by (simp add: in_step_def same_zeros_def)
    from r [OF this] obtain br' zs where rv: "readValue ?it = (True, after_value ?it br' v zs)" "reader_ok br'" "pending br' = rest"
      "same_zeros (writeVDelta v ?a) (after_value ?it br' v zs)" by blast
    have "same_zeros a' (after_value ?it br' v zs)" using rv(4) by (simp add: a' same_zeros_def)
    then have "in_step (Suc n) a' (after_value ?it br' v zs)"
      using it(1) rv(2) by (simp add: in_step_def a' after_value_def)
    then show ?thesis
      using br(1) rv(1,3) by (intro exI [of _ "after_value ?it br' v zs"]) (simp add: after_value_def At_def)
  qed
  moreover have "holds (xa_b a') (w @ dbits @ bits)" using w(1,2) by (simp add: a')
  moreover have "zeros_ok a'" using w(3) by (simp add: a' zeros_ok_def)
  ultimately show ?thesis by blast
qed

lemma append_sample_read:
  assumes h: "holds (xa_b a) w" and z: "zeros_ok a" and n: "n < 2 ^ 16"
  shows "\<exists>bits. holds (xa_b (append_sample (of_nat n) t v a)) (w @ bits) \<and> zeros_ok (append_sample (of_nat n) t v a) \<and>
    (\<forall>it rest. in_step n a it \<and> it_numRead it \<noteq> it_numTotal it \<and> pending (it_br it) = bits @ rest \<longrightarrow>
      (\<exists>it'. Next it = (True, it') \<and> At it' = (t, v) \<and> in_step (Suc n) (append_sample (of_nat n) t v a) it' \<and>
        it_numTotal it' = it_numTotal it \<and> pending (it_br it') = rest))"
proof -
  have num: "of_nat n = (0 :: u16) \<longleftrightarrow> n = 0" "of_nat n = (1 :: u16) \<longleftrightarrow> n = 1"
    using n by (simp_all add: word_unat_eq_iff unat_of_nat)
  consider "n = 0" | "n = 1" | "1 < n" by linarith
  then show ?thesis
  proof cases
    assume n0: "n = 0"
    let ?bits = "bytes_bits (put_varint t) @ word_bits 64 (f64_bits v)"
    have a': "append_sample (of_nat n) t v a = a\<lparr>xa_b := writeBits (f64_bits v) 64 (fold writeByte (put_varint t) (xa_b a)),
        xa_t := t, xa_v := v, xa_tDelta := 0\<rparr>"
      by (simp add: append_sample_def n0)
    have "\<exists>it'. Next it = (True, it') \<and> At it' = (t, v) \<and> in_step (Suc n) (append_sample (of_nat n) t v a) it' \<and>
        it_numTotal it' = it_numTotal it \<and> pending (it_br it') = rest"
      if it: "in_step n a it \<and> it_numRead it \<noteq> it_numTotal it \<and> pending (it_br it) = ?bits @ rest" for it rest
    proof -
      obtain r1 where r1: "ReadVarint (it_br it) = (Inr t, r1)" "reader_ok r1"
        "pending r1 = word_bits (unat (64 :: byte)) (f64_bits v) @ rest"
        using ReadVarint_put [of "it_br it" t "word_bits 64 (f64_bits v) @ rest"] it by (auto simp: in_step_def)
      moreover have "take_bit 64 (f64_bits v) = f64_bits v" by (rule take_bit_word_eq_self) simp
      ultimately obtain r2 where r2: "readBits 64 r1 = (Inr (f64_bits v), r2)" "reader_ok r2" "pending r2 = rest"
        using readBits_pending [OF r1(2) _ _ r1(3)] by auto
      have "Next it = (True, it\<lparr>it_br := r2, it_t := t, it_val := F64 (f64_bits v), it_numRead := it_numRead it + 1\<rparr>)"
        using it r1(1) r2(1) n0 by (auto simp: Next_def in_step_def)
      then show ?thesis
        using it r2 z by (intro exI [of _ "it\<lparr>it_br := r2, it_t := t, it_val := v, it_numRead := it_numRead it + 1\<rparr>"])
          (simp add: in_step_def At_def a' [unfolded n0, simplified] n0 same_zeros_def)
    qed
    moreover have "holds (xa_b (append_sample (of_nat n) t v a)) (w @ ?bits)"
      using holds_writeBits [OF _ holds_write_bytes [OF h, of "put_varint t"], of 64 "f64_bits v"] by (simp add: a')
    moreover have "zeros_ok (append_sample (of_nat n) t v a)" using z by (simp add: a' zeros_ok_def)
    ultimately show ?thesis by blast
  next
    assume n1: "n = 1"
    let ?b = "fold writeByte (put_uvarint (t - xa_t a)) (xa_b a)"
    show ?thesis
    proof (rule delta_step [OF holds_write_bytes [OF h] z])
      show "0 < n" using n1 by simp
      show "append_sample (of_nat n) t v a = (writeVDelta v (a\<lparr>xa_b := ?b\<rparr>))\<lparr>xa_t := t, xa_v := v, xa_tDelta := t - xa_t a\<rparr>"
        using num by (simp add: append_sample_def n1 Let_def)
    next
      fix it rest
      assume it: "in_step n a it" "it_numRead it \<noteq> it_numTotal it" "pending (it_br it) = bytes_bits (put_uvarint (t - xa_t a)) @ rest"
      then obtain r1 where r1: "ReadUvarint (it_br it) = (Inr (t - xa_t a), r1)" "reader_ok r1" "pending r1 = rest"
        using ReadUvarint_put [of "it_br it"] by (auto simp: in_step_def)
      have "Next it = readValue (it\<lparr>it_br := r1, it_tDelta := t - xa_t a, it_t := t\<rparr>)"
        using it r1(1) n1 by (simp add: Next_def in_step_def)
      then show "\<exists>br. Next it = readValue (it\<lparr>it_br := br, it_tDelta := t - xa_t a, it_t := t\<rparr>) \<and> reader_ok br \<and> pending br = rest"
        using r1(2,3) by blast
    qed
  next
    assume n2: "1 < n"
    let ?dod = "t - xa_t a - xa_tDelta a"
    obtain dbits where d: "holds (write_dod ?dod (xa_b a)) (w @ dbits)"
      "\<And>r rest. reader_ok r \<and> pending r = dbits @ rest \<Longrightarrow> \<exists>r'. read_dod r = (Inr ?dod, r') \<and> reader_ok r' \<and> pending r' = rest"
      using write_dod_read [OF h, of ?dod] by blast
    show ?thesis
    proof (rule delta_step [OF d(1) z])
      show "0 < n" using n2 by simp
      show "append_sample (of_nat n) t v a = (writeVDelta v (a\<lparr>xa_b := write_dod ?dod (xa_b a)\<rparr>))\<lparr>xa_t := t, xa_v := v, xa_tDelta := t - xa_t a\<rparr>"
        using n2 num by (simp add: append_sample_def Let_def)
    next
      fix it rest
      assume it: "in_step n a it" "it_numRead it \<noteq> it_numTotal it" "pending (it_br it) = dbits @ rest"
      then obtain r1 where r1: "read_dod (it_br it) = (Inr ?dod, r1)" "reader_ok r1" "pending r1 = rest"
        using d(2) [of "it_br it" rest] by (auto simp: in_step_def)
      have "it_numRead it \<noteq> 0" "it_numRead it \<noteq> 1" using it(1) n2 num by (simp_all add: in_step_def)
      then have "Next it = readValue (it\<lparr>it_br := r1, it_tDelta := t - xa_t a, it_t := t\<rparr>)"
        using it r1(1) n2 by (simp add: Next_def in_step_def)
      then show "\<exists>br. Next it = readValue (it\<lparr>it_br := br, it_tDelta := t - xa_t a, it_t := t\<rparr>) \<and> reader_ok br \<and> pending br = rest"
        using r1(2,3) by blast
    qed
  qed
qed

text \<open>The iterator reads these samples and is then at the second iterator.\<close>

primrec reads :: "(u64 \<times> f64) list \<Rightarrow> xorIterator \<Rightarrow> xorIterator option" where
  "reads [] it = Some it"
| "reads (s # ss) it = (case Next it of (True, it') \<Rightarrow> if At it' = s then reads ss it' else None | (False, _) \<Rightarrow> None)"

lemma reads_append: "reads (xs @ ys) it = Option.bind (reads xs it) (reads ys)"
  by (induction xs arbitrary: it) (auto split: prod.splits bool.splits)

lemma reads_drain: "reads ss it = Some it' \<Longrightarrow> drain it = (ss @ fst (drain it'), snd (drain it'))"
proof (induction ss arbitrary: it)
  case (Cons s ss)
  then obtain it1 where it1: "Next it = (True, it1)" "At it1 = s" "reads ss it1 = Some it'"
    by (auto split: prod.splits bool.splits if_splits)
  then show ?case using Cons.IH [OF it1(3)] by (subst drain.simps) (simp add: case_prod_beta)
qed simp

lemma drain_end: "it_numRead it = it_numTotal it \<Longrightarrow> drain it = ([], it)"
  by (subst drain.simps) (simp add: Next_def)

definition at_start :: "xorIterator \<Rightarrow> bool" where
  "at_start it \<longleftrightarrow> it_err it = None \<and> reader_ok (it_br it) \<and> it_numRead it = 0 \<and> it_leading it = 0 \<and> it_trailing it = 0"

text \<open>A chunk holds samples, when its header is their number, and every iterator at the beginning of its body reads them
  and is then in step with the appender that wrote them.\<close>

definition body_holds :: "(u64 \<times> f64) list \<Rightarrow> xorAppender \<Rightarrow> bool list \<Rightarrow> bool" where
  "body_holds ss a body \<longleftrightarrow> (\<forall>it rest. at_start it \<and> length ss \<le> unat (it_numTotal it) \<and> pending (it_br it) = body @ rest \<longrightarrow>
     (\<exists>it'. reads ss it = Some it' \<and> in_step (length ss) a it' \<and> it_numTotal it' = it_numTotal it \<and> pending (it_br it') = rest))"

definition chunk_holds :: "(u64 \<times> f64) list \<Rightarrow> xorAppender \<Rightarrow> bool" where
  "chunk_holds ss a \<longleftrightarrow> length ss < 2 ^ 16 \<and> zeros_ok a \<and> (ss = [] \<longrightarrow> xa_leading a = 255) \<and>
     (\<exists>body. holds (xa_b a) (word_bits 16 (of_nat (length ss) :: u16) @ body) \<and> body_holds ss a body)"

lemma header_bits:
  fixes num :: u16
  assumes "bytes_bits b = word_bits 16 num @ rest"
  shows "be_uint16 b = Some num" and "bytes_bits (drop 2 b) = rest"
proof -
  have "16 \<le> length (bytes_bits b)" using assms by simp
  then obtain x y r where b: "b = x # y # r" using length_ge_2_conv [of b] by auto
  have e: "word_bits 8 x @ word_bits 8 y @ bytes_bits r = word_bits 8 (drop_bit 8 num) @ word_bits 8 num @ rest"
    using assms word_bits_split [of 8 16 num] by (simp add: b)
  then have x: "word_bits 8 x = word_bits 8 (drop_bit 8 num)" "word_bits 8 y = word_bits 8 num" "bytes_bits r = rest"
    by simp_all
  have "be_word x y = num"
  proof (rule bit_word_eqI)
    fix i assume i: "i < LENGTH(16)"
    have "bit x k = bit num (8 + k)" "bit y k = bit num k" if "k < 8" for k
      using x(1,2) that by (auto simp: word_bits_eq_iff bit_drop_bit_eq)
    then show "bit (be_word x y) i = bit num i"
      using i by (cases "i < 8") (auto simp: be_word_def bit_simps dest: bit_imp_le_length)
  qed
  then show "be_uint16 b = Some num" "bytes_bits (drop 2 b) = rest" using x(3) by (simp_all add: be_uint16_def b need_def)
qed

lemma put_header_bits:
  fixes num w :: u16
  assumes "bytes_bits b = word_bits 16 num @ rest"
  shows "\<exists>b'. put_be_uint16 b w = Some b' \<and> bytes_bits b' = word_bits 16 w @ rest \<and> length b' = length b"
proof -
  have "16 \<le> length (bytes_bits b)" using assms by simp
  then obtain x y r where b: "b = x # y # r" using length_ge_2_conv [of b] by auto
  have "bytes_bits r = rest" using header_bits(2) [OF assms] by (simp add: b)
  moreover have "word_bits 8 (ucast (drop_bit 8 w) :: byte) @ word_bits 8 (ucast w :: byte) = word_bits 16 w"
  proof -
    have "word_bits 8 (ucast (drop_bit 8 w) :: byte) = word_bits 8 (drop_bit 8 w)" "word_bits 8 (ucast w :: byte) = word_bits 8 w"
      by (auto simp: word_bits_def bit_ucast_iff)
    then show ?thesis using word_bits_split [of 8 16 w] by simp
  qed
  ultimately show ?thesis by (simp add: put_be_uint16_def b need_def flip: append_assoc)
qed

lemma Append_sample:
  fixes num :: u16
  assumes h: "holds (xa_b a) (word_bits 16 num @ body)"
    and body': "holds (xa_b (append_sample num t v a)) (word_bits 16 num @ body')"
  shows "\<exists>b. Append t v a = Some ((append_sample num t v a)\<lparr>xa_b := b\<rparr>) \<and> holds b (word_bits 16 (num + 1) @ body')"
proof -
  let ?a = "append_sample num t v a"
  have "be_uint16 (bs_stream (xa_b a)) = Some num"
    using header_bits(1) [of "bs_stream (xa_b a)" num] h by (simp add: holds_def)
  moreover obtain st where st: "put_be_uint16 (bs_stream (xa_b ?a)) (num + 1) = Some st"
    "bytes_bits st = word_bits 16 (num + 1) @ body' @ replicate (unat (bs_count (xa_b ?a))) False"
    using put_header_bits [of "bs_stream (xa_b ?a)" num _ "num + 1"] body' by (auto simp: holds_def)
  moreover have "holds ((xa_b ?a)\<lparr>bs_stream := st\<rparr>) (word_bits 16 (num + 1) @ body')"
    using body' st(2) by (simp add: holds_def)
  ultimately show ?thesis by (intro exI [of _ "(xa_b ?a)\<lparr>bs_stream := st\<rparr>"]) (simp add: Append_def Let_def)
qed

lemma chunk_holds_Append:
  assumes c: "chunk_holds ss a" and fits: "Suc (length ss) < 2 ^ 16"
  shows "\<exists>a'. Append t v a = Some a' \<and> chunk_holds (ss @ [(t, v)]) a'"
proof -
  let ?n = "length ss" and ?num = "of_nat (length ss) :: u16"
  let ?a = "append_sample ?num t v a"
  obtain body where body: "holds (xa_b a) (word_bits 16 ?num @ body)" "body_holds ss a body" and z: "zeros_ok a"
    using c by (auto simp: chunk_holds_def)
  have n: "?n < 2 ^ 16" using fits by simp
  obtain bits where bits: "holds (xa_b ?a) ((word_bits 16 ?num @ body) @ bits)" "zeros_ok ?a"
    and nx: "\<And>it rest. in_step ?n a it \<and> it_numRead it \<noteq> it_numTotal it \<and> pending (it_br it) = bits @ rest \<Longrightarrow>
      \<exists>it'. Next it = (True, it') \<and> At it' = (t, v) \<and> in_step (Suc ?n) ?a it' \<and>
        it_numTotal it' = it_numTotal it \<and> pending (it_br it') = rest"
    using append_sample_read [OF body(1) z n, of t v] by blast
  obtain b where b: "Append t v a = Some (?a\<lparr>xa_b := b\<rparr>)" "holds b (word_bits 16 (?num + 1) @ body @ bits)"
    using Append_sample [OF body(1), of t v "body @ bits"] bits(1) by auto
  have "\<exists>it2. reads (ss @ [(t, v)]) it = Some it2 \<and> in_step (length (ss @ [(t, v)])) (?a\<lparr>xa_b := b\<rparr>) it2 \<and>
      it_numTotal it2 = it_numTotal it \<and> pending (it_br it2) = rest"
    if it: "at_start it" "length (ss @ [(t, v)]) \<le> unat (it_numTotal it)" "pending (it_br it) = (body @ bits) @ rest" for it rest
  proof -
    obtain it1 where it1: "reads ss it = Some it1" "in_step ?n a it1" "it_numTotal it1 = it_numTotal it"
      "pending (it_br it1) = bits @ rest"
      using body(2) it unfolding body_holds_def by fastforce
    have "it_numRead it1 \<noteq> it_numTotal it1"
    proof
      assume "it_numRead it1 = it_numTotal it1"
      then have "unat ?num = unat (it_numTotal it)" using it1(2,3) by (simp add: in_step_def)
      then show False using it(2) n by (simp add: unat_of_nat)
    qed
    then obtain it2 where it2: "Next it1 = (True, it2)" "At it2 = (t, v)" "in_step (Suc ?n) ?a it2"
      "it_numTotal it2 = it_numTotal it1" "pending (it_br it2) = rest"
      using nx [of it1 rest] it1(2,4) by blast
    have "in_step (Suc ?n) (?a\<lparr>xa_b := b\<rparr>) it2" using it2(3) by (simp add: in_step_def same_zeros_def)
    then show ?thesis using it1(1,3) it2 by (simp add: reads_append)
  qed
  then have "body_holds (ss @ [(t, v)]) (?a\<lparr>xa_b := b\<rparr>) (body @ bits)" by (auto simp: body_holds_def)
  moreover have "zeros_ok (?a\<lparr>xa_b := b\<rparr>)" using bits(2) by (simp add: zeros_ok_def)
  moreover have "?num + 1 = of_nat (length (ss @ [(t, v)]))" by simp
  ultimately show ?thesis using b fits unfolding chunk_holds_def by (simp add: add.commute) blast
qed

lemma chunk_holds_append_all:
  assumes "chunk_holds ss a" "length ss + length ts < 2 ^ 16"
  shows "\<exists>a'. append_all ts a = Some a' \<and> chunk_holds (ss @ ts) a'"
  using assms
proof (induction ts arbitrary: ss a)
  case (Cons s ts)
  obtain a1 where a1: "Append (fst s) (snd s) a = Some a1" "chunk_holds (ss @ [s]) a1"
    using chunk_holds_Append [OF Cons.prems(1), of "fst s" "snd s"] Cons.prems(2) by auto
  then show ?case using Cons.IH [OF a1(2)] Cons.prems(2) by auto
qed simp

text \<open>The iterator of a chunk reads all its samples, and the appender restored from it goes on where the one before
  has stopped.\<close>

lemma chunk_holds_iterate:
  assumes c: "chunk_holds ss a"
  shows "\<exists>it it'. start_iterator t (bs_stream (xa_b a)) = Some it \<and> drain it = (ss, it') \<and> in_step (length ss) a it' \<and>
    be_uint16 (bs_stream (xa_b a)) = Some (of_nat (length ss))"
proof -
  let ?num = "of_nat (length ss) :: u16"
  obtain body where body: "holds (xa_b a) (word_bits 16 ?num @ body)" "body_holds ss a body" and n: "length ss < 2 ^ 16"
    using c by (auto simp: chunk_holds_def)
  define pad where "pad = replicate (unat (bs_count (xa_b a))) False"
  have "bytes_bits (bs_stream (xa_b a)) = word_bits 16 ?num @ (body @ pad)" using body(1) by (simp add: holds_def pad_def)
  note hd = header_bits [OF this]
  have "16 \<le> length (bytes_bits (bs_stream (xa_b a)))" using body(1) by (simp add: holds_def)
  then have len: "2 \<le> length (bs_stream (xa_b a))" by simp
  let ?it = "\<lparr>it_br = newBReader (drop 2 (bs_stream (xa_b a))), it_numTotal = ?num, it_numRead = 0, it_t = t, it_val = F64 0,
    it_leading = 0, it_trailing = 0, it_tDelta = 0, it_err = None\<rparr>"
  have start: "start_iterator t (bs_stream (xa_b a)) = Some ?it" using hd(1) len by (simp add: start_iterator_def slice_from_def)
  have "unat ?num = length ss" using n by (simp add: unat_of_nat)
  then have "at_start ?it \<and> length ss \<le> unat (it_numTotal ?it) \<and> pending (it_br ?it) = body @ pad"
    using hd(2) by (simp add: at_start_def)
  then obtain it' where it': "reads ss ?it = Some it'" "in_step (length ss) a it'" "it_numTotal it' = ?num"
    using body(2) [unfolded body_holds_def, rule_format, of ?it pad] by auto
  have "drain it' = ([], it')" using it'(2,3) by (intro drain_end) (simp add: in_step_def)
  then have "drain ?it = (ss, it')" using reads_drain [OF it'(1)] by simp
  then show ?thesis using start it'(2) hd(1) by blast
qed

lemma chunk_holds_Appender:
  assumes c: "chunk_holds ss a"
  shows "\<exists>a'. chunk_Appender \<lparr>xc_b = xa_b a\<rparr> = Some (Inr a') \<and> xa_b a' = xa_b a \<and> chunk_holds ss a'"
proof -
  obtain it it' where it: "start_iterator (push_bit 63 1) (bs_stream (xa_b a)) = Some it" "drain it = (ss, it')"
    "in_step (length ss) a it'" "be_uint16 (bs_stream (xa_b a)) = Some (of_nat (length ss))"
    using chunk_holds_iterate [OF c, of "push_bit 63 1"] by blast
  define a' where "a' = \<lparr>xa_b = xa_b a, xa_t = it_t it', xa_v = it_val it', xa_tDelta = it_tDelta it',
    xa_leading = (if (of_nat (length ss) :: u16) = 0 then 255 else it_leading it'), xa_trailing = it_trailing it'\<rparr>"
  have "chunk_Appender \<lparr>xc_b = xa_b a\<rparr> = Some (Inr a')"
    using it by (simp add: chunk_Appender_def chunk_Iterator_def Bytes_def in_step_def a'_def)
  moreover have n: "(of_nat (length ss) :: u16) = 0 \<longleftrightarrow> ss = []"
    using c by (auto simp: chunk_holds_def word_unat_eq_iff unat_of_nat)
  have step: "in_step (length ss) a' it2" if "in_step (length ss) a it2" for it2
    using that it(3) c unfolding in_step_def same_zeros_def chunk_holds_def
    by (auto simp: a'_def n split: if_splits)
  have "zeros_ok a'"
    using it(3) c unfolding in_step_def same_zeros_def zeros_ok_def chunk_holds_def
    by (auto simp: a'_def n split: if_splits)
  moreover have "ss = [] \<longrightarrow> xa_leading a' = 255" by (simp add: a'_def)
  moreover have "body_holds ss a body \<Longrightarrow> body_holds ss a' body" for body
    unfolding body_holds_def using step by meson
  ultimately show ?thesis using c by (intro exI [of _ a']) (auto simp: chunk_holds_def a'_def)
qed

definition empty_appender :: xorAppender where
  "empty_appender = \<lparr>xa_b = xc_b NewXORChunk, xa_t = 0, xa_v = F64 0, xa_tDelta = 0, xa_leading = 255, xa_trailing = 0\<rparr>"

lemma chunk_holds_new: "chunk_holds [] empty_appender"
proof -
  have "holds (xa_b empty_appender) (word_bits 16 (0 :: u16) @ [])"
    using word_bits_add [of 8 8 "0 :: u16"]
    by (simp add: holds_def empty_appender_def NewXORChunk_def word_bits_zero flip: replicate_add)
  moreover have "body_holds [] empty_appender []"
    by (auto simp: body_holds_def at_start_def in_step_def same_zeros_def empty_appender_def)
  moreover have "zeros_ok empty_appender" by (simp add: zeros_ok_def empty_appender_def)
  ultimately show ?thesis by (auto simp: chunk_holds_def intro: exI [of _ "[]"]) (simp add: empty_appender_def)
qed

text \<open>Writers one after the other, each of whom opens an appender.\<close>

primrec append_sessions :: "(u64 \<times> f64) list list \<Rightarrow> XORChunk \<Rightarrow> (read_err + XORChunk) option" where
  "append_sessions [] c = Some (Inr c)"
| "append_sessions (ss # sss) c =
     do { r \<leftarrow> append_session ss c;
          case r of Inl e \<Rightarrow> Some (Inl e) | Inr c' \<Rightarrow> append_sessions sss c' }"

lemma chunk_holds_sessions:
  assumes "chunk_holds ss a" "length ss + length (concat sss) < 2 ^ 16"
  shows "\<exists>a'. append_sessions sss \<lparr>xc_b = xa_b a\<rparr> = Some (Inr \<lparr>xc_b = xa_b a'\<rparr>) \<and> chunk_holds (ss @ concat sss) a'"
  using assms
proof (induction sss arbitrary: ss a)
  case (Cons ts sss)
  obtain a1 where a1: "chunk_Appender \<lparr>xc_b = xa_b a\<rparr> = Some (Inr a1)" "chunk_holds ss a1"
    using chunk_holds_Appender [OF Cons.prems(1)] by blast
  obtain a2 where a2: "append_all ts a1 = Some a2" "chunk_holds (ss @ ts) a2"
    using chunk_holds_append_all [OF a1(2), of ts] Cons.prems(2) by auto
  then show ?case using Cons.IH [OF a2(2)] Cons.prems(2) a1(1) by (simp add: append_session_def)
qed auto

lemma chunk_holds_from_new:
  assumes "length (concat sss) < 2 ^ 16"
  shows "\<exists>a. append_sessions sss NewXORChunk = Some (Inr \<lparr>xc_b = xa_b a\<rparr>) \<and> chunk_holds (concat sss) a"
  using chunk_holds_sessions [OF chunk_holds_new, of sss] assms by (simp add: empty_appender_def NewXORChunk_def)

text \<open>C19: Whatever samples are appended to a new chunk, fewer than 65536 and by any number of writers one after the other,
  the number in its header is right, and every iterator, new or reset, reads exactly the samples, bit for bit and in
  their order, and ends without an error.\<close>

theorem chunk_roundtrip:
  assumes "length (concat sss) < 2 ^ 16"
  shows "\<exists>c. append_sessions sss NewXORChunk = Some (Inr c) \<and> NumSamples c = Some (length (concat sss)) \<and>
    (\<forall>t. \<exists>it it'. start_iterator t (Bytes c) = Some it \<and> drain it = (concat sss, it') \<and> it_err it' = None)"
proof -
  obtain a where a: "append_sessions sss NewXORChunk = Some (Inr \<lparr>xc_b = xa_b a\<rparr>)" "chunk_holds (concat sss) a"
    using chunk_holds_from_new [OF assms] by blast
  have "NumSamples \<lparr>xc_b = xa_b a\<rparr> = Some (length (concat sss))"
    using chunk_holds_iterate [OF a(2), of 0] assms
    by (auto simp: NumSamples_def Bytes_def unat_of_nat simp del: length_concat)
  moreover have "\<exists>it it'. start_iterator t (Bytes \<lparr>xc_b = xa_b a\<rparr>) = Some it \<and> drain it = (concat sss, it') \<and> it_err it' = None" for t
    using chunk_holds_iterate [OF a(2), of t] by (auto simp: Bytes_def in_step_def)
  ultimately show ?thesis using a(1) by blast
qed

lemma chunk_roundtrip_witness:
  "\<exists>c it it'. append_sessions [[(1000, F64 1), (2000, F64 1)], [(3500, F64 7)]] NewXORChunk = Some (Inr c) \<and> NumSamples c = Some 3 \<and>
     start_iterator 0 (Bytes c) = Some it \<and> drain it = ([(1000, F64 1), (2000, F64 1), (3500, F64 7)], it') \<and> it_err it' = None"
  using chunk_roundtrip [of "[[(1000, F64 1), (2000, F64 1)], [(3500, F64 7)]]"] by fastforce

text \<open>The number of samples has 16 bits and is not checked: one more sample than 65535 makes it 0, and the chunk is
  read as an empty one.\<close>

theorem full_chunk_reads_empty:
  assumes "length (concat sss) = 65535" and "append_sessions sss NewXORChunk = Some (Inr c)"
  shows "\<exists>c'. append_session [(t, v)] c = Some (Inr c') \<and> NumSamples c' = Some 0 \<and>
    (\<forall>t0. \<exists>it it'. start_iterator t0 (Bytes c') = Some it \<and> drain it = ([], it') \<and> it_err it' = None)"
proof -
  let ?ss = "concat sss"
  obtain a where a: "c = \<lparr>xc_b = xa_b a\<rparr>" "chunk_holds ?ss a"
    using chunk_holds_from_new [of sss] assms by auto
  obtain a1 where a1: "chunk_Appender c = Some (Inr a1)" "chunk_holds ?ss a1"
    using chunk_holds_Appender [OF a(2)] a(1) by blast
  have num: "of_nat (length ?ss) = (65535 :: u16)" unfolding assms(1) by simp
  obtain body where body: "holds (xa_b a1) (word_bits 16 (65535 :: u16) @ body)" "zeros_ok a1"
    using a1(2) num by (auto simp: chunk_holds_def)
  have "\<exists>bits. holds (xa_b (append_sample 65535 t v a1)) ((word_bits 16 (65535 :: u16) @ body) @ bits)"
    using append_sample_read [OF body, of 65535 t v] by auto
  then obtain body' where "holds (xa_b (append_sample 65535 t v a1)) (word_bits 16 (65535 :: u16) @ body')"
    by auto
  moreover have "(65535 :: u16) + 1 = 0" by (simp add: word_unat_eq_iff unat_word_ariths)
  ultimately obtain b where b: "Append t v a1 = Some ((append_sample 65535 t v a1)\<lparr>xa_b := b\<rparr>)"
    "holds b (word_bits 16 (0 :: u16) @ body')"
    using Append_sample [OF body(1), of t v body'] by metis
  have "16 \<le> length (bytes_bits (bs_stream b))" using b(2) by (simp add: holds_def)
  then have len: "2 \<le> length (bs_stream b)" by simp
  have hd: "be_uint16 (bs_stream b) = Some 0" using header_bits(1) [of "bs_stream b" 0] b(2) by (simp add: holds_def)
  have "append_session [(t, v)] c = Some (Inr \<lparr>xc_b = b\<rparr>)" using a1(1) b(1) a(1) by (simp add: append_session_def)
  moreover have "NumSamples \<lparr>xc_b = b\<rparr> = Some 0" using hd by (simp add: NumSamples_def Bytes_def)
  moreover have "\<exists>it it'. start_iterator t0 (Bytes \<lparr>xc_b = b\<rparr>) = Some it \<and> drain it = ([], it') \<and> it_err it' = None" for t0
    using hd len by (simp add: start_iterator_def Bytes_def slice_from_def drain_end)
  ultimately show ?thesis by blast
qed

lemma full_chunk_reads_empty_witness:
  "\<exists>c c'. append_sessions [replicate 65535 (0, F64 0)] NewXORChunk = Some (Inr c) \<and>
     append_session [(60, F64 1)] c = Some (Inr c') \<and> NumSamples c' = Some 0"
proof -
  have n: "length (concat [replicate 65535 (0 :: u64, F64 0)]) = 65535" by simp
  then obtain c where c: "append_sessions [replicate 65535 (0, F64 0)] NewXORChunk = Some (Inr c)"
    using chunk_holds_from_new [of "[replicate 65535 (0, F64 0)]"] by auto
  then show ?thesis using full_chunk_reads_empty [OF n c, of 60 "F64 1"] by blast
qed

section \<open>Seeking, and a chunk made of stored bytes\<close>

lemma unat_lt2p_u16: "unat (w :: u16) < 65536"
  using unsigned_less [of w] by simp

lemma seek_reads:
  assumes "reads ss it = Some it'" "unat (it_numRead it) + length ss = unat (it_numTotal it)"
    and "sint (it_t it) < sint t \<or> it_numRead it = 0"
  shows "case dropWhile (\<lambda>s. sint (fst s) < sint t) ss of
      [] \<Rightarrow> \<not> fst (seek_loop t it)
    | s # _ \<Rightarrow> (\<exists>it2. seek_loop t it = (True, it2) \<and> At it2 = s)"
  using assms
proof (induction ss arbitrary: it)
  case Nil
  then have "\<not> fst (Next it)" by (simp add: Next_def word_unat_eq_iff)
  then show ?case using Nil.prems(3) by (subst seek_loop.simps) (auto split: prod.splits bool.splits)
next
  case (Cons s ss)
  obtain it1 where it1: "Next it = (True, it1)" "At it1 = s" "reads ss it1 = Some it'"
    using Cons.prems(1) by (auto split: prod.splits bool.splits if_splits)
  have step: "seek_loop t it = seek_loop t it1" using Cons.prems(3) it1(1) by (subst seek_loop.simps) auto
  have num: "it_numTotal it1 = it_numTotal it" "it_numRead it1 = it_numRead it + 1" using Next_numbers [OF it1(1)] by auto
  have "unat (it_numRead it) + 1 < 2 ^ 16" 
    using Cons.prems(2) unat_lt2p_u16 [of "it_numTotal it"] by simp
  then have read: "unat (it_numRead it1) = unat (it_numRead it) + 1" by (simp add: num unat_word_ariths)
  then have nz: "it_numRead it1 \<noteq> 0" by auto
  show ?case
  proof (cases "sint (fst s) < sint t")
    case True
    then have "sint (it_t it1) < sint t" using it1(2) by (auto simp: At_def)
    then show ?thesis using Cons.IH [OF it1(3)] Cons.prems(2) read num(1) True unfolding step by simp
  next
    case False
    then have "seek_loop t it1 = (True, it1)" using it1(2) nz by (subst seek_loop.simps) (auto simp: At_def)
    then show ?thesis using False step it1(2) by simp
  qed
qed

text \<open>\<open>Seek\<close> on a new iterator finds the first sample that is not before the given time, if there is one.\<close>

lemma chunk_seek:
  assumes c: "chunk_holds ss a" and it: "start_iterator t0 (bs_stream (xa_b a)) = Some it"
  shows "case dropWhile (\<lambda>s. sint (fst s) < sint t) ss of
      [] \<Rightarrow> \<not> fst (iterator_Seek t it)
    | s # _ \<Rightarrow> (\<exists>it2. iterator_Seek t it = (True, it2) \<and> At it2 = s)"
proof -
  obtain body where body: "holds (xa_b a) (word_bits 16 (of_nat (length ss) :: u16) @ body)" "body_holds ss a body"
    and n: "length ss < 2 ^ 16" using c by (auto simp: chunk_holds_def)
  define pad where "pad = replicate (unat (bs_count (xa_b a))) False"
  have "bytes_bits (bs_stream (xa_b a)) = word_bits 16 (of_nat (length ss) :: u16) @ (body @ pad)"
    using body(1) by (simp add: holds_def pad_def)
  note hd = header_bits [OF this]
  have total: "unat (of_nat (length ss) :: u16) = length ss" using n by (simp add: unat_of_nat)
  have start: "at_start it" "it_numTotal it = of_nat (length ss)" "pending (it_br it) = body @ pad" "it_numRead it = 0" "it_err it = None"
    using it hd by (auto simp: start_iterator_def slice_from_def at_start_def bind_eq_Some_conv split: if_splits)
  then obtain it' where "reads ss it = Some it'"
    using body(2) total unfolding body_holds_def by fastforce
  have seek: "iterator_Seek t it = seek_loop t it" using start(5) by (simp add: iterator_Seek_def)
  show ?thesis unfolding seek using seek_reads [OF \<open>reads ss it = Some it'\<close>, of t] start total by simp
qed

text \<open>\<open>FromData\<close> takes the last byte of the data for a full one. A sample that is appended to such a chunk begins in a
  new byte, while an iterator looks for it behind the last bit: it is not read back.\<close>

definition example_samples :: "(u64 \<times> f64) list" where
  "example_samples = [(0, F64 0), (60, F64 0), (120, F64 0)]"

definition example_reopened :: "XORChunk option" where
  "example_reopened =
     (case append_session example_samples NewXORChunk of
        Some (Inr c) \<Rightarrow> FromData EncXOR (Bytes c)
      | _ \<Rightarrow> None)"

lemma sample_after_stored_misread:
  "do { c \<leftarrow> example_reopened;
        r \<leftarrow> append_session [(180, F64 5)] c;
        c' \<leftarrow> (case r of Inl _ \<Rightarrow> None | Inr c' \<Rightarrow> Some c');
        it \<leftarrow> chunk_Iterator c';
        Some (fst (drain it), it_err (snd (drain it))) } =
     Some ([(0, F64 0), (60, F64 0), (120, F64 0), (180, F64 0)], None)"
  by code_simp

end
