(* ===== verification/SampleRing.thy ===== *)
theory SampleRing
  imports XorChunk
begin

text \<open>
  Model of \<^verbatim>\<open>pkg/tsdb/tsdbutil/buffer.go\<close>: an iterator over the samples of a chunk that keeps the samples of the last
  \<open>delta\<close> time units in a ring buffer, which grows when it is full. A loop that does not end is \<open>None\<close>, as a panic is.
\<close>

section \<open>The ring\<close>

record sample =
  s_t :: u64
  s_v :: f64

record sampleRing =
  r_delta :: u64
  r_buf :: "sample list"
  r_i :: int
  r_f :: nat
  r_l :: int

definition no_sample :: sample where
  "no_sample = \<lparr>s_t = 0, s_v = F64 0\<rparr>"

definition ring_reset :: "sampleRing \<Rightarrow> sampleRing" where
  "ring_reset r = r\<lparr>r_l := 0, r_i := - 1, r_f := 0\<rparr>"

definition newSampleRing :: "u64 \<Rightarrow> nat \<Rightarrow> sampleRing" where
  "newSampleRing delta sz = ring_reset \<lparr>r_delta = delta, r_buf = replicate sz no_sample, r_i = 0, r_f = 0, r_l = 0\<rparr>"

text \<open>The samples that fall out of the range are freed at the head; \<open>l\<close> is the capacity before the buffer has grown.\<close>

partial_function (option) free_head :: "nat \<Rightarrow> u64 \<Rightarrow> sampleRing \<Rightarrow> sampleRing option" where
  "free_head l tmin r =
     do { s \<leftarrow> index_at (r_buf r) (r_f r);
          if sint (s_t s) < sint tmin then
            let f = r_f r + 1; f = (if l \<le> f then f - l else f)
            in free_head l tmin (r\<lparr>r_f := f, r_l := r_l r - 1\<rparr>)
          else Some r }"

text \<open>The place for a new sample, in a buffer of twice the size if there is none.\<close>

definition ring_place :: "sampleRing \<Rightarrow> sampleRing" where
  "ring_place r =
     (let l = length (r_buf r)
      in if int l = r_l r
         then r\<lparr>r_buf := take (r_f r) (r_buf r) @ replicate l no_sample @ drop (r_f r) (r_buf r), r_i := int (r_f r), r_f := r_f r + l\<rparr>
         else r\<lparr>r_i := (if int l \<le> r_i r + 1 then r_i r + 1 - int l else r_i r + 1)\<rparr>)"

definition ring_add :: "u64 \<Rightarrow> f64 \<Rightarrow> sampleRing \<Rightarrow> sampleRing option" where
  "ring_add t v r =
     (let l = length (r_buf r);
          r = ring_place r
      in do { _ \<leftarrow> index_at (r_buf r) (nat (r_i r));
              free_head l (t - r_delta r) (r\<lparr>r_buf := (r_buf r)[nat (r_i r) := \<lparr>s_t = t, s_v = v\<rparr>], r_l := r_l r + 1\<rparr>) })"

definition ring_at :: "nat \<Rightarrow> sampleRing \<Rightarrow> (u64 \<times> f64) option" where
  "ring_at i r = map_option (\<lambda>s. (s_t s, s_v s)) (index_at (r_buf r) ((r_f r + i) mod length (r_buf r)))"

definition ring_last :: "sampleRing \<Rightarrow> (u64 \<times> f64) option option" where
  "ring_last r =
     (if r_l r = 0 then Some None
      else do { s \<leftarrow> index_at (r_buf r) (nat (r_i r)); Some (Some (s_t s, s_v s)) })"

definition ring_samples :: "sampleRing \<Rightarrow> sample list option" where
  "ring_samples r =
     (let l = nat (r_l r);
          k = r_f r + l;
          n = length (r_buf r);
          j = (if n < k then l - n + r_f r else 0);
          k = (if n < k then n else k)
      in do { front \<leftarrow> slice_range (r_buf r) (r_f r) k;
              back \<leftarrow> slice_range (r_buf r) 0 j;
              Some (take l (front @ take (l - length front) back @ replicate (l - length front - length back) no_sample)) })"

section \<open>The ring as a queue\<close>

definition ring_list :: "sampleRing \<Rightarrow> sample list" where
  "ring_list r = map (\<lambda>k. r_buf r ! ((r_f r + k) mod length (r_buf r))) [0..<nat (r_l r)]"

definition ring_ok :: "sampleRing \<Rightarrow> bool" where
  "ring_ok r \<longleftrightarrow> r_f r < length (r_buf r) \<and> 0 \<le> r_l r \<and> r_l r \<le> int (length (r_buf r)) \<and>
     (if r_l r = 0 then r_f r = 0 \<and> r_i r = - 1
      else r_i r = int ((r_f r + nat (r_l r) - 1) mod length (r_buf r)))"

lemma ring_list_length: "length (ring_list r) = nat (r_l r)"
  by (simp add: ring_list_def)

lemma newSampleRing_ok: "0 < sz \<Longrightarrow> ring_ok (newSampleRing delta sz) \<and> ring_list (newSampleRing delta sz) = []"
  by (simp add: ring_ok_def ring_list_def newSampleRing_def ring_reset_def)

definition ring_put :: "sample \<Rightarrow> sampleRing \<Rightarrow> sampleRing" where
  "ring_put s r = (let r = ring_place r in r\<lparr>r_buf := (r_buf r)[nat (r_i r) := s], r_l := r_l r + 1\<rparr>)"

lemma mod_other:
  assumes "j < k" "k < n"
  shows "(f + j) mod n \<noteq> (f + k) mod (n :: nat)"
proof
  assume "(f + j) mod n = (f + k) mod n"
  then have "n dvd (f + k) - (f + j)" using assms(1) mod_eq_dvd_iff_nat [of "f + j" "f + k" n] by simp
  then show False using assms by (auto dest: dvd_imp_le)
qed

lemma mod_twice: "f < n \<Longrightarrow> (f + n + n) mod (2 * n) = (f :: nat)"
  by (simp only: add.assoc mult_2 [symmetric] mod_add_self2) simp

lemma put_room:
  assumes ok: "ring_ok r" and room: "r_l r < int (length (r_buf r))"
  shows "nat (r_i (ring_place r)) < length (r_buf (ring_place r))" "ring_ok (ring_put s r)"
    "ring_list (ring_put s r) = ring_list r @ [s]" "length (r_buf (ring_put s r)) = length (r_buf r)"
    "r_l (ring_put s r) = r_l r + 1"
proof -
  let ?n = "length (r_buf r)" and ?k = "nat (r_l r)"
  let ?p = "(r_f r + ?k) mod ?n"
  have k: "r_l r = int ?k" "?k < ?n" and n: "r_f r < ?n" using ok room by (auto simp: ring_ok_def)
  have suc: "nat (r_l r + 1) = Suc ?k" using ok by (auto simp: ring_ok_def)
  have "r_i (ring_place r) = int ?p"
  proof (cases "?k = 0")
    case True
    then have "r_l r = 0" using k(1) by simp
    then show ?thesis using ok n by (simp add: ring_place_def ring_ok_def Let_def)
  next
    case False
    then have "r_l r \<noteq> 0" using k(1) by auto
    then have i: "r_i r = int ((r_f r + ?k - 1) mod ?n)" using ok by (simp add: ring_ok_def)
    have "Suc (r_f r + ?k - 1) = r_f r + ?k" using False by simp
    then have "?p = (if Suc ((r_f r + ?k - 1) mod ?n) = ?n then 0 else Suc ((r_f r + ?k - 1) mod ?n))"
      by (metis mod_Suc)
    moreover have "(r_f r + ?k - 1) mod ?n < ?n" by (rule mod_less_divisor [OF le_less_trans [OF le0 n]])
    ultimately show ?thesis using room by (simp add: ring_place_def Let_def i)
  qed
  then have p: "nat (r_i (ring_place r)) = ?p" by simp
  have place: "r_buf (ring_place r) = r_buf r" "r_f (ring_place r) = r_f r" "r_l (ring_place r) = r_l r"
    using room by (auto simp: ring_place_def Let_def)
  have pn: "?p < ?n" by (rule mod_less_divisor [OF le_less_trans [OF le0 n]])
  show "nat (r_i (ring_place r)) < length (r_buf (ring_place r))" using pn by (simp only: p place)
  have put: "r_buf (ring_put s r) = (r_buf r)[?p := s]" "r_f (ring_put s r) = r_f r" "r_l (ring_put s r) = r_l r + 1"
    "r_i (ring_put s r) = int ?p"
    using p \<open>r_i (ring_place r) = int ?p\<close> by (simp_all add: ring_put_def Let_def place)
  show "ring_list (ring_put s r) = ring_list r @ [s]"
  proof (rule nth_equalityI)
    show "length (ring_list (ring_put s r)) = length (ring_list r @ [s])" by (simp add: ring_list_length put suc)
    fix j assume "j < length (ring_list (ring_put s r))"
    then have j: "j < Suc ?k" by (simp add: ring_list_length put suc)
    then have "ring_list (ring_put s r) ! j = (r_buf r)[?p := s] ! ((r_f r + j) mod ?n)"
      by (simp add: ring_list_def put suc del: upt_Suc)
    also have "\<dots> = (ring_list r @ [s]) ! j"
      using j k n pn mod_other [of j ?k ?n "r_f r"] by (cases "j = ?k") (auto simp: ring_list_def nth_append)
    finally show "ring_list (ring_put s r) ! j = (ring_list r @ [s]) ! j" .
  qed
  show "ring_ok (ring_put s r)" using k n suc ok by (simp add: ring_ok_def put)
  show "length (r_buf (ring_put s r)) = length (r_buf r)" "r_l (ring_put s r) = r_l r + 1" by (simp_all add: put)
qed

lemma put_full:
  assumes ok: "ring_ok r" and full: "r_l r = int (length (r_buf r))"
  shows "nat (r_i (ring_place r)) < length (r_buf (ring_place r))" "ring_ok (ring_put s r)"
    "ring_list (ring_put s r) = ring_list r @ [s]" "r_l (ring_put s r) = r_l r + 1"
    "r_buf (ring_put s r) = take (r_f r) (r_buf r) @ s # replicate (length (r_buf r) - 1) no_sample @ drop (r_f r) (r_buf r)"
    "r_f (ring_put s r) = r_f r + length (r_buf r)"
proof -
  let ?n = "length (r_buf r)"
  have n: "r_f r < ?n" using ok by (simp add: ring_ok_def)
  then obtain m where m: "?n = Suc m" by (cases ?n) auto
  let ?buf = "take (r_f r) (r_buf r) @ s # replicate m no_sample @ drop (r_f r) (r_buf r)"
  have place: "r_buf (ring_place r) = take (r_f r) (r_buf r) @ replicate ?n no_sample @ drop (r_f r) (r_buf r)"
    "r_f (ring_place r) = r_f r + ?n" "r_i (ring_place r) = int (r_f r)" "r_l (ring_place r) = r_l r"
    using full by (simp_all add: ring_place_def Let_def)
  show "nat (r_i (ring_place r)) < length (r_buf (ring_place r))" using n by (simp add: place)
  have put: "r_buf (ring_put s r) = ?buf" "r_f (ring_put s r) = r_f r + ?n" "r_l (ring_put s r) = r_l r + 1"
    "r_i (ring_put s r) = int (r_f r)"
    using n m by (simp_all add: ring_put_def Let_def place list_update_append)
  have len: "length ?buf = 2 * ?n" using n m by simp
  have nth: "?buf ! ((r_f r + ?n + j) mod (2 * ?n)) = (if j = ?n then s else r_buf r ! ((r_f r + j) mod ?n))" if j: "j \<le> ?n" for j
  proof -
    consider "j = ?n" | "j < ?n" "r_f r + j < ?n" | "j < ?n" "?n \<le> r_f r + j" using j by linarith
    then show ?thesis
    proof cases
      case 1
      then have "(r_f r + ?n + j) mod (2 * ?n) = r_f r" using mod_twice [OF n] by simp
      then show ?thesis using 1 n by (simp add: nth_append)
    next
      case 2
      then have "(r_f r + ?n + j) mod (2 * ?n) = r_f r + ?n + j" "(r_f r + j) mod ?n = r_f r + j" by simp_all
      moreover have "?buf ! (r_f r + ?n + j) = r_buf r ! (r_f r + j)" using n m by (simp add: nth_append)
      ultimately show ?thesis using 2 by simp
    next
      case 3
      then have e: "r_f r + ?n + j = (r_f r + j - ?n) + 2 * ?n" "r_f r + j = (r_f r + j - ?n) + ?n" "r_f r + j - ?n < r_f r"
        using n by simp_all
      have "(r_f r + ?n + j) mod (2 * ?n) = r_f r + j - ?n" using e(3) n by (subst e(1)) simp
      moreover have "(r_f r + j) mod ?n = r_f r + j - ?n" using e(3) n by (subst e(2)) simp
      moreover have "?buf ! (r_f r + j - ?n) = r_buf r ! (r_f r + j - ?n)" using e(3) n by (simp add: nth_append)
      ultimately show ?thesis using 3 by simp
    qed
  qed
  show "ring_list (ring_put s r) = ring_list r @ [s]"
  proof (rule nth_equalityI)
    show "length (ring_list (ring_put s r)) = length (ring_list r @ [s])" using full by (simp add: ring_list_length put)
    fix j assume "j < length (ring_list (ring_put s r))"
    then have j: "j < Suc ?n" using full by (simp add: ring_list_length put)
    then have "ring_list (ring_put s r) ! j = ?buf ! ((r_f r + ?n + j) mod (2 * ?n))"
      using full len unfolding ring_list_def put by simp
    also have "\<dots> = (ring_list r @ [s]) ! j"
      using j full by (subst nth) (auto simp: ring_list_def nth_append)
    finally show "ring_list (ring_put s r) ! j = (ring_list r @ [s]) ! j" .
  qed
  have "r_f r + ?n + nat (r_l r + 1) - 1 = r_f r + ?n + ?n" using full by simp
  then have "(r_f r + ?n + nat (r_l r + 1) - 1) mod (2 * ?n) = r_f r" using mod_twice [OF n] by simp
  then show "ring_ok (ring_put s r)" unfolding ring_ok_def put len using n full by simp
  show "r_l (ring_put s r) = r_l r + 1" "r_f (ring_put s r) = r_f r + length (r_buf r)"
    "r_buf (ring_put s r) = take (r_f r) (r_buf r) @ s # replicate (length (r_buf r) - 1) no_sample @ drop (r_f r) (r_buf r)"
    using m by (simp_all add: put)
qed

lemma ring_add_put:
  assumes "nat (r_i (ring_place r)) < length (r_buf (ring_place r))"
  shows "ring_add t v r = free_head (length (r_buf r)) (t - r_delta r) (ring_put \<lparr>s_t = t, s_v = v\<rparr> r)"
  using assms by (simp add: ring_add_def Let_def index_at_def ring_put_def) (simp add: ring_place_def Let_def)

text \<open>Freeing takes the old samples from the head, if the capacity is the one of the buffer.\<close>

lemma ring_list_Cons:
  assumes ok: "ring_ok r" and l: "0 < r_l r"
  shows "ring_list r = r_buf r ! r_f r # ring_list (r\<lparr>r_f := (r_f r + 1) mod length (r_buf r), r_l := r_l r - 1\<rparr>)"
proof -
  have f: "r_f r < length (r_buf r)" using ok by (simp add: ring_ok_def)
  obtain k where k: "nat (r_l r) = Suc k" "nat (r_l r - 1) = k" using l by (cases "nat (r_l r)") auto
  have "[0..<Suc k] = 0 # map Suc [0..<k]" by (metis map_Suc_upt upt_conv_Cons zero_less_Suc)
  moreover have "(r_f r + Suc j) mod length (r_buf r) = ((r_f r + 1) mod length (r_buf r) + j) mod length (r_buf r)" for j
    by (simp add: mod_add_left_eq)
  ultimately show ?thesis using f by (simp add: ring_list_def k)
qed

abbreviation old :: "u64 \<Rightarrow> sample \<Rightarrow> bool" where
  "old tmin s \<equiv> sint (s_t s) < sint tmin"

lemma ring_ok_advance:
  assumes ok: "ring_ok r" and l: "1 < r_l r"
  shows "ring_ok (r\<lparr>r_f := (r_f r + 1) mod length (r_buf r), r_l := r_l r - 1\<rparr>)"
proof -
  let ?n = "length (r_buf r)"
  have n: "r_f r < ?n" using ok by (simp add: ring_ok_def)
  have "0 < nat (r_l r - 1)" using l by simp
  then obtain m where m: "nat (r_l r - 1) = Suc m" "nat (r_l r) = Suc (Suc m)" by (cases "nat (r_l r - 1)") auto
  have "r_i r = int ((r_f r + nat (r_l r) - 1) mod ?n)" using ok l by (simp add: ring_ok_def)
  moreover have "((r_f r + 1) mod ?n + nat (r_l r - 1) - 1) mod ?n = (r_f r + nat (r_l r) - 1) mod ?n"
    by (simp add: m mod_add_left_eq)
  moreover have "(r_f r + 1) mod ?n < ?n" by (rule mod_less_divisor [OF le_less_trans [OF le0 n]])
  ultimately show ?thesis using ok l by (simp add: ring_ok_def)
qed

lemma free_head_drops:
  assumes "ring_ok r" and "\<exists>s \<in> set (ring_list r). \<not> old tmin s"
  shows "\<exists>r'. free_head (length (r_buf r)) tmin r = Some r' \<and> ring_ok r' \<and> ring_list r' = dropWhile (old tmin) (ring_list r) \<and>
    length (r_buf r') = length (r_buf r)"
  using assms
proof (induction "nat (r_l r)" arbitrary: r)
  case 0
  then show ?case by (simp add: ring_list_def)
next
  case (Suc k)
  let ?n = "length (r_buf r)" and ?s = "r_buf r ! r_f r"
  let ?r = "r\<lparr>r_f := (r_f r + 1) mod ?n, r_l := r_l r - 1\<rparr>"
  have n: "r_f r < ?n" and l: "0 < r_l r" using Suc.hyps(2) Suc.prems(1) by (auto simp: ring_ok_def)
  note list = ring_list_Cons [OF Suc.prems(1) l]
  show ?case
  proof (cases "old tmin ?s")
    case True
    then have ex: "\<exists>s \<in> set (ring_list ?r). \<not> old tmin s" using Suc.prems(2) list by auto
    then have "ring_list ?r \<noteq> []" by auto
    then have "1 < r_l r" using ring_list_length [of ?r] by (cases "nat (r_l r - 1)") auto
    then have "ring_ok ?r" by (rule ring_ok_advance [OF Suc.prems(1)])
    moreover have "k = nat (r_l ?r)" using Suc.hyps(2) by simp
    ultimately obtain r' where r': "free_head ?n tmin ?r = Some r'" "ring_ok r'" "ring_list r' = dropWhile (old tmin) (ring_list ?r)"
      "length (r_buf r') = ?n"
      using Suc.hyps(1) [of ?r] ex by auto
    have "free_head ?n tmin r = free_head ?n tmin ?r"
      using n by (cases "Suc (r_f r) = ?n"; subst free_head.simps) (auto simp: index_at_def True Let_def)
    then show ?thesis using r' list True by auto
  next
    case False
    then have "free_head ?n tmin r = Some r" using n by (subst free_head.simps) (simp add: index_at_def)
    then show ?thesis using Suc.prems(1) list False by simp
  qed
qed

lemma ring_add_room:
  assumes "ring_ok r" and "r_l r < int (length (r_buf r))" and "sint (t - r_delta r) \<le> sint t"
  shows "\<exists>r'. ring_add t v r = Some r' \<and> ring_ok r' \<and>
    ring_list r' = dropWhile (old (t - r_delta r)) (ring_list r @ [\<lparr>s_t = t, s_v = v\<rparr>])"
proof -
  let ?s = "\<lparr>s_t = t, s_v = v\<rparr>"
  note put = put_room(1) [OF assms(1,2)] put_room(2-5) [OF assms(1,2), of ?s]
  have "\<exists>s \<in> set (ring_list (ring_put ?s r)). \<not> old (t - r_delta r) s" using assms(3) put(3) by auto
  from free_head_drops [OF put(2) this] show ?thesis using put(3,4) ring_add_put [OF put(1)] by auto
qed

text \<open>A full ring from which nothing is freed grows.\<close>

lemma ring_grows:
  assumes "ring_ok r" and "r_l r = int (length (r_buf r))" and "\<not> old (t - r_delta r) (hd (ring_list r))"
  shows "ring_add t v r = Some (ring_put \<lparr>s_t = t, s_v = v\<rparr> r) \<and> ring_ok (ring_put \<lparr>s_t = t, s_v = v\<rparr> r) \<and>
    ring_list (ring_put \<lparr>s_t = t, s_v = v\<rparr> r) = ring_list r @ [\<lparr>s_t = t, s_v = v\<rparr>]"
proof -
  let ?s = "\<lparr>s_t = t, s_v = v\<rparr>"
  note put = put_full(1) [OF assms(1,2)] put_full(2-6) [OF assms(1,2), of ?s]
  have l: "0 < r_l r" "0 < r_l (ring_put ?s r)" using assms(1,2) put(4) by (auto simp: ring_ok_def)
  have "ring_list r \<noteq> []" using ring_list_Cons [OF assms(1) l(1)] by simp
  then have "r_buf (ring_put ?s r) ! r_f (ring_put ?s r) = hd (ring_list r)"
    using ring_list_Cons [OF put(2) l(2)] put(3) by (cases "ring_list r") auto
  moreover have "r_f (ring_put ?s r) < length (r_buf (ring_put ?s r))" using put(2) by (simp add: ring_ok_def)
  ultimately have "free_head (length (r_buf r)) (t - r_delta r) (ring_put ?s r) = Some (ring_put ?s r)"
    using assms(3) by (subst free_head.simps) (simp add: index_at_def)
  then show ?thesis using put(2,3) ring_add_put [OF put(1)] by simp
qed

text \<open>The reads of the ring: the last element, the element at a position and the copy of all elements.\<close>

lemma dropWhile_last: "\<not> P (last xs) \<Longrightarrow> xs \<noteq> [] \<Longrightarrow> dropWhile P xs \<noteq> [] \<and> last (dropWhile P xs) = last xs"
  by (induction xs) auto

lemma ring_last_last:
  assumes "ring_ok r"
  shows "ring_last r = Some (if ring_list r = [] then None else Some (s_t (last (ring_list r)), s_v (last (ring_list r))))"
proof (cases "r_l r = 0")
  case True
  then show ?thesis by (simp add: ring_last_def ring_list_def)
next
  case False
  let ?n = "length (r_buf r)"
  obtain k where k: "nat (r_l r) = Suc k" using assms False by (cases "nat (r_l r)") (auto simp: ring_ok_def)
  have n: "r_f r < ?n" and i: "r_i r = int ((r_f r + k) mod ?n)" using assms False k by (auto simp: ring_ok_def)
  have "(r_f r + k) mod ?n < ?n" by (rule mod_less_divisor [OF le_less_trans [OF le0 n]])
  then show ?thesis using False k i by (simp add: ring_last_def ring_list_def index_at_def)
qed

lemma ring_at_nth:
  assumes "ring_ok r" and "i < length (ring_list r)"
  shows "ring_at i r = Some (s_t (ring_list r ! i), s_v (ring_list r ! i))"
proof -
  have n: "r_f r < length (r_buf r)" using assms by (simp add: ring_ok_def)
  have "(r_f r + i) mod length (r_buf r) < length (r_buf r)" by (rule mod_less_divisor [OF le_less_trans [OF le0 n]])
  then show ?thesis using assms(2) by (simp add: ring_at_def ring_list_def index_at_def)
qed

lemma ring_samples_list:
  assumes "ring_ok r"
  shows "ring_samples r = Some (ring_list r)"
proof -
  let ?n = "length (r_buf r)" and ?l = "nat (r_l r)"
  have n: "r_f r < ?n" "?l \<le> ?n" using assms by (auto simp: ring_ok_def)
  show ?thesis
  proof (cases "?n < r_f r + ?l")
    case False
    then have "ring_list r = take ?l (drop (r_f r) (r_buf r))" using n by (intro nth_equalityI) (auto simp: ring_list_def)
    then show ?thesis using False by (simp add: ring_samples_def Let_def slice_range_def)
  next
    case True
    let ?j = "?l - ?n + r_f r" and ?k = "?n - r_f r"
    have split: "?l = ?k + (?l - ?k)" and j: "?l - ?k \<le> r_f r" using True n by auto
    have "ring_list r = drop (r_f r) (r_buf r) @ take (?l - ?k) (r_buf r)"
    proof (rule nth_equalityI)
      show "length (ring_list r) = length (drop (r_f r) (r_buf r) @ take (?l - ?k) (r_buf r))" using True n by (simp add: ring_list_def)
      fix i assume "i < length (ring_list r)"
      then have i: "i < ?l" by (simp add: ring_list_def)
      show "ring_list r ! i = (drop (r_f r) (r_buf r) @ take (?l - ?k) (r_buf r)) ! i"
      proof (cases "i < ?k")
        case True
        then show ?thesis using i by (simp add: ring_list_def nth_append)
      next
        case False
        then have e: "r_f r + i = (i - ?k) + ?n" "i - ?k < ?n" using i n by auto
        have "(r_f r + i) mod ?n = i - ?k" by (subst e(1)) (simp only: mod_add_self2 mod_less e(2))
        then show ?thesis using False i n by (simp add: ring_list_def nth_append)
      qed
    qed
    then show ?thesis using True n by (simp add: ring_samples_def Let_def slice_range_def)
  qed
qed



section \<open>Growing, and a loop without end\<close>

lemma free_head_skip:
  assumes "\<And>k. k < m \<Longrightarrow> old tmin (r_buf r ! (r_f r + k))" and "r_f r + m < l" "r_f r + m \<le> length (r_buf r)"
  shows "free_head l tmin r = free_head l tmin (r\<lparr>r_f := r_f r + m, r_l := r_l r - int m\<rparr>)"
  using assms
proof (induction m arbitrary: r)
  case 0
  then show ?case by simp
next
  case (Suc m)
  let ?r = "r\<lparr>r_f := r_f r + 1, r_l := r_l r - 1\<rparr>"
  have "free_head l tmin r = free_head l tmin ?r"
    using Suc.prems(1) [of 0] Suc.prems(2,3) by (subst free_head.simps) (simp add: index_at_def Let_def)
  also have "\<dots> = free_head l tmin (?r\<lparr>r_f := r_f ?r + m, r_l := r_l ?r - int m\<rparr>)"
    by (rule Suc.IH) (use Suc.prems(1) [of "Suc _"] Suc.prems(2,3) in simp_all)
  finally show ?case by (simp add: algebra_simps)
qed


definition two_samples :: sampleRing where
  "two_samples = \<lparr>r_delta = 3, r_buf = [\<lparr>s_t = 1, s_v = F64 1\<rparr>, \<lparr>s_t = 4, s_v = F64 2\<rparr>], r_i = 1, r_f = 0, r_l = 2\<rparr>"


lemma free_head_hangs:
  assumes "\<forall>s \<in> set (r_buf r). old tmin s" and "r_f r < length (r_buf r)" and "0 < l" "l \<le> length (r_buf r)"
  shows "free_head l tmin r = None"
proof -
  let ?P = "\<lambda>l tmin r _. \<not> ((\<forall>s \<in> set (r_buf r). old tmin s) \<and> r_f r < length (r_buf r) \<and> 0 < l \<and> l \<le> length (r_buf r))"
  have "?P l tmin r r'" if "free_head l tmin r = Some r'" for r'
  proof (rule free_head.raw_induct [OF _ that, where P = ?P])
    fix free :: "nat \<Rightarrow> u64 \<Rightarrow> sampleRing \<Rightarrow> sampleRing option" and l tmin r r'
    assume IH: "\<And>l tmin r r'. free l tmin r = Some r' \<Longrightarrow> ?P l tmin r r'"
    assume "do { s \<leftarrow> index_at (r_buf r) (r_f r);
          if sint (s_t s) < sint tmin then
            let f = r_f r + 1; f = (if l \<le> f then f - l else f)
            in free l tmin (r\<lparr>r_f := f, r_l := r_l r - 1\<rparr>)
          else Some r } = Some r'"
    then show "?P l tmin r r'" by (auto simp: index_at_def Let_def split: if_splits dest!: IH)
  qed
  then show ?thesis using assms by (cases "free_head l tmin r") auto
qed

section \<open>The buffered iterator\<close>

text \<open>The iterator of the ring shares the ring.\<close>

definition ring_Next :: "sampleRing \<Rightarrow> int \<Rightarrow> bool \<times> int" where
  "ring_Next r i = (i + 1 < r_l r, i + 1)"

definition ring_At :: "sampleRing \<Rightarrow> int \<Rightarrow> (u64 \<times> f64) option" where
  "ring_At r i = ring_at (nat i) r"

record BufferedSeriesIterator =
  bi_it :: xorIterator
  bi_buf :: sampleRing
  bi_lastTime :: u64

definition NewBuffer :: "xorIterator \<Rightarrow> u64 \<Rightarrow> BufferedSeriesIterator" where
  "NewBuffer it delta = \<lparr>bi_it = it, bi_buf = newSampleRing delta 16, bi_lastTime = push_bit 63 1\<rparr>"

definition PeekBack :: "BufferedSeriesIterator \<Rightarrow> (u64 \<times> f64) option option" where
  "PeekBack b = ring_last (bi_buf b)"

definition buffered_At :: "BufferedSeriesIterator \<Rightarrow> u64 \<times> f64" where
  "buffered_At b = At (bi_it b)"

definition buffered_Next :: "BufferedSeriesIterator \<Rightarrow> (bool \<times> BufferedSeriesIterator) option" where
  "buffered_Next b =
     do { buf \<leftarrow> ring_add (fst (At (bi_it b))) (snd (At (bi_it b))) (bi_buf b);
          let (ok, it) = Next (bi_it b);
          let b = b\<lparr>bi_it := it, bi_buf := buf\<rparr>;
          Some (ok, if ok then b\<lparr>bi_lastTime := fst (buffered_At b)\<rparr> else b) }"

partial_function (option) buffered_loop :: "u64 \<Rightarrow> BufferedSeriesIterator \<Rightarrow> (bool \<times> BufferedSeriesIterator) option" where
  "buffered_loop t b =
     do { (ok, b) \<leftarrow> buffered_Next b;
          if \<not> ok then Some (False, b)
          else if sint t \<le> sint (bi_lastTime b) then Some (True, b)
          else buffered_loop t b }"

definition buffered_Seek :: "u64 \<Rightarrow> BufferedSeriesIterator \<Rightarrow> (bool \<times> BufferedSeriesIterator) option" where
  "buffered_Seek t b =
     (let t0 = t - r_delta (bi_buf b);
          go = (\<lambda>b. if sint t \<le> sint (bi_lastTime b) then Some (True, b) else buffered_loop t b)
      in if sint (bi_lastTime b) < sint t0 then
           (let b = b\<lparr>bi_buf := ring_reset (bi_buf b)\<rparr>;
                (ok, it) = iterator_Seek t0 (bi_it b);
                b = b\<lparr>bi_it := it\<rparr>
            in if \<not> ok then Some (False, b) else go (b\<lparr>bi_lastTime := fst (buffered_At b)\<rparr>))
         else go b)"

text \<open>The element before the current one is in the buffer after a step.\<close>

lemma peek_back_previous:
  assumes "ring_ok (bi_buf b)" and "r_l (bi_buf b) < int (length (r_buf (bi_buf b)))"
    and "sint (fst (buffered_At b) - r_delta (bi_buf b)) \<le> sint (fst (buffered_At b))"
  shows "\<exists>b'. buffered_Next b = Some (fst (Next (bi_it b)), b') \<and> bi_it b' = snd (Next (bi_it b)) \<and> ring_ok (bi_buf b') \<and>
    PeekBack b' = Some (Some (buffered_At b))"
proof -
  obtain t v where tv: "At (bi_it b) = (t, v)" by fastforce
  obtain ok it where nx: "Next (bi_it b) = (ok, it)" by fastforce
  obtain buf where buf: "ring_add t v (bi_buf b) = Some buf" "ring_ok buf"
    "ring_list buf = dropWhile (old (t - r_delta (bi_buf b))) (ring_list (bi_buf b) @ [\<lparr>s_t = t, s_v = v\<rparr>])"
    using ring_add_room [OF assms(1,2), of t v] assms(3) tv by (auto simp: buffered_At_def)
  have "ring_list buf \<noteq> []" "last (ring_list buf) = \<lparr>s_t = t, s_v = v\<rparr>"
    using dropWhile_last [of "old (t - r_delta (bi_buf b))" "ring_list (bi_buf b) @ [\<lparr>s_t = t, s_v = v\<rparr>]"] assms(3) tv
    by (simp_all add: buf(3) buffered_At_def)
  then have last: "ring_last buf = Some (Some (t, v))" using ring_last_last [OF buf(2)] by simp
  let ?b = "b\<lparr>bi_it := it, bi_buf := buf\<rparr>"
  have "buffered_Next b = Some (ok, if ok then ?b\<lparr>bi_lastTime := fst (buffered_At ?b)\<rparr> else ?b)"
    by (simp add: buffered_Next_def tv nx buf(1) Let_def)
  then show ?thesis using buf(2) last by (simp add: nx PeekBack_def buffered_At_def tv)
qed

lemma min_minus:
  assumes "0 < sint (d :: u64)"
  shows "sint (push_bit 63 1 - d) = 2 ^ 63 - sint d"
proof -
  have "push_bit 63 1 - d = word_of_int (2 ^ 63 - sint d)" by (simp add: push_bit_eq_mult)
  moreover have "sint (word_of_int (2 ^ 63 - sint d) :: u64) = signed_take_bit 63 (2 ^ 63 - sint d)" by (subst signed_of_int) simp
  moreover have "signed_take_bit 63 (2 ^ 63 - sint d) = 2 ^ 63 - sint d"
    by (rule signed_take_bit_int_eq_self) (use assms sint_lt [of d] in simp_all)
  ultimately show ?thesis by (simp only:)
qed

text \<open>C35: An iterator over a chunk that is advanced before it has sought does not return: its buffer gets the initial time, the
  smallest one, whose difference to \<open>delta\<close> wraps around to a time after every sample of the buffer.\<close>

theorem buffered_next_hangs:
  assumes "chunk_Iterator c = Some it" and "0 < sint delta"
  shows "buffered_Next (NewBuffer it delta) = None"
proof -
  have t: "At it = (push_bit 63 1, F64 0)" using assms(1) by (auto simp: chunk_Iterator_def start_iterator_def At_def split: bind_splits)
  let ?r = "newSampleRing delta 16" and ?t = "push_bit 63 1 :: u64"
  let ?s = "\<lparr>s_t = ?t, s_v = F64 0\<rparr>" and ?tmin = "?t - delta"
  have ok: "ring_ok ?r" by (simp add: newSampleRing_ok)
  have room: "r_l ?r < int (length (r_buf ?r))" by (simp add: newSampleRing_def ring_reset_def)
  note put = put_room(1) [OF ok room] put_room(2-5) [OF ok room, of ?s]
  have r: "ring_put ?s ?r = ?r\<lparr>r_buf := ?s # replicate 15 no_sample, r_i := 0, r_l := 1\<rparr>"
    by (simp add: ring_put_def ring_place_def newSampleRing_def ring_reset_def Let_def numeral_eq_Suc)
  have "sint ?tmin = 2 ^ 63 - sint delta" using assms(2) by (rule min_minus)
  then have "0 < sint ?tmin" "sint ?t < sint ?tmin" using sint_lt [of delta] by simp_all
  then have "free_head 16 ?tmin (ring_put ?s ?r) = None"
    unfolding r by (intro free_head_hangs) (auto simp: no_sample_def newSampleRing_def ring_reset_def)
  then have "ring_add ?t (F64 0) ?r = None" using ring_add_put [OF put(1)] by (simp add: newSampleRing_def ring_reset_def)
  then show ?thesis by (simp add: buffered_Next_def NewBuffer_def t)
qed

lemma buffered_next_hangs_witness:
  "\<exists>it. chunk_Iterator NewXORChunk = Some it \<and> buffered_Next (NewBuffer it 60) = None"
proof -
  obtain it where it: "chunk_Iterator NewXORChunk = Some it"
    by (simp add: chunk_Iterator_def start_iterator_def NewXORChunk_def Bytes_def slice_from_def be_uint16_def need_def)
  then show ?thesis using buffered_next_hangs [OF it, of 60] by simp
qed

end
