(* ===== verification/GatewayManager.thy ===== *)
theory GatewayManager
  imports RuntimeMeta GoPrelude
begin

text \<open>
  Model of \<^verbatim>\<open>pkg/gateway/manager.go\<close>: the identity of the gateway, and the window of the processor load with the
  lock that guards it. The numbers of the load and their arithmetic are parameters, as is what the host reports.
\<close>

section \<open>Identity\<close>

record GatewayMeta =
  gwm_Secret :: string
  gwm_ObjectMeta :: ObjectMeta

text \<open>What the store holds under the key of the gateway, decoded into the object that is there already; a file that
  does not decode leaves the object as it is, and the collection of the load is not started.\<close>

datatype gateway_file = GatewayMissing | GatewayDocument "GatewayMeta \<Rightarrow> GatewayMeta" | GatewayUnreadable

definition Gateway_Init ::
  "gateway_file \<Rightarrow> string \<Rightarrow> string \<Rightarrow> int \<Rightarrow> GatewayMeta \<Rightarrow> GatewayMeta \<times> bool" where
  "Gateway_Init file uuid version now gatewayMeta =
     (case file of
        GatewayMissing \<Rightarrow>
          (\<lparr>gwm_Secret = '''', gwm_ObjectMeta = \<lparr>om_Name = ''harnsgateway'', om_ID = uuid, om_Version = version,
              om_ModTime = now\<rparr>\<rparr>, True)
      | GatewayDocument decode \<Rightarrow> (decode gatewayMeta, True)
      | GatewayUnreadable \<Rightarrow> (gatewayMeta, False))"

section \<open>Processor load\<close>

text \<open>The arithmetic of the load: addition, division by a count, and the text of a percentage.\<close>

record ('f, 't) load_arith =
  la_zero :: 'f
  la_plus :: "'f \<Rightarrow> 'f \<Rightarrow> 'f"
  la_over :: "'f \<Rightarrow> nat \<Rightarrow> 'f"
  la_text :: "'f \<Rightarrow> 't"

record 'f CpuWindow =
  cw_cpus :: "'f list"
  cw_readers :: nat

text \<open>\<open>collectCpu\<close> after a measurement: it takes the write lock, which waits for the readers, and keeps the last 15.\<close>

definition collect_cpu :: "'f \<Rightarrow> 'f CpuWindow \<Rightarrow> 'f CpuWindow option" where
  "collect_cpu percent w =
     (if cw_readers w \<noteq> 0 then None
      else Some (w\<lparr>cw_cpus := (if length (cw_cpus w) < 15 then cw_cpus w @ [percent] else drop 1 (cw_cpus w) @ [percent])\<rparr>))"

definition sum_load :: "('f, 't) load_arith \<Rightarrow> 'f \<Rightarrow> 'f list \<Rightarrow> 'f" where
  "sum_load ar = foldl (la_plus ar)"

text \<open>\<open>getGatewayCpu\<close>: the texts for 1, 5 and 15 minutes. The branch for an empty window returns without releasing the
  read lock.\<close>

definition getGatewayCpu :: "('f, 't) load_arith \<Rightarrow> 'f CpuWindow \<Rightarrow> ('t \<times> 't \<times> 't) \<times> 'f CpuWindow" where
  "getGatewayCpu ar w =
     (let w = w\<lparr>cw_readers := cw_readers w + 1\<rparr>; cpus = cw_cpus w; n = length cpus;
          unlocked = w\<lparr>cw_readers := cw_readers w - 1\<rparr>
      in if n = 0 then ((la_text ar (la_zero ar), la_text ar (la_zero ar), la_text ar (la_zero ar)), w)
         else
           let one = la_text ar (last cpus)
           in if n < 5 then
                let count = sum_load ar (la_zero ar) cpus
                in ((one, la_text ar (la_over ar count n), la_text ar (la_over ar count n)), unlocked)
              else
                let five = sum_load ar (la_zero ar) (rev (drop (n - 5) cpus));
                    all = sum_load ar five (take (n - 5) cpus)
                in ((one, la_text ar (la_over ar five 5), la_text ar (la_over ar all n)), unlocked))"

inductive cpu_step :: "('f, 't) load_arith \<Rightarrow> 'f CpuWindow \<Rightarrow> 'f CpuWindow \<Rightarrow> bool" for ar where
  cpu_collect: "collect_cpu percent w = Some w' \<Longrightarrow> cpu_step ar w w'"
| cpu_get: "getGatewayCpu ar w = (texts, w') \<Longrightarrow> cpu_step ar w w'"

definition empty_window :: "'f CpuWindow" where
  "empty_window = \<lparr>cw_cpus = [], cw_readers = 0\<rparr>"

lemma getGatewayCpu_window:
  "getGatewayCpu ar w = (texts, w') \<Longrightarrow> w' = (if cw_cpus w = [] then w\<lparr>cw_readers := cw_readers w + 1\<rparr> else w)"
  by (auto simp: getGatewayCpu_def Let_def split: if_splits)

text \<open>The window never holds more than 15 measurements, and a reader is left only while it is empty.\<close>

definition cpu_inv :: "'f CpuWindow \<Rightarrow> bool" where
  "cpu_inv w \<longleftrightarrow> length (cw_cpus w) \<le> 15 \<and> (cw_readers w \<noteq> 0 \<longrightarrow> cw_cpus w = [])"

interpretation cpu_window: bounded_invariant "cpu_step ar" "\<lambda>_. True" cpu_inv for ar
proof
  show "cpu_inv w \<Longrightarrow> cpu_step ar w w' \<Longrightarrow> True \<Longrightarrow> cpu_inv w'" for w w' :: "'a CpuWindow"
    by (auto elim!: cpu_step.cases dest!: getGatewayCpu_window simp: cpu_inv_def collect_cpu_def split: if_splits)
qed simp

text \<open>C33: In every reachable state the window holds the last measurements, at most 15. A request for the load that comes
  before the first measurement keeps its read lock, so that no measurement is ever recorded afterwards: in every
  later state the window is empty and recording one waits.\<close>

theorem early_request_stops_collection:
  assumes "(cpu_step ar)\<^sup>*\<^sup>* empty_window w"
  shows "length (cw_cpus w) \<le> 15 \<and>
    (\<forall>texts w1 w2 percent. cw_cpus w = [] \<and> getGatewayCpu ar w = (texts, w1) \<and> (cpu_step ar)\<^sup>*\<^sup>* w1 w2 \<longrightarrow>
       cw_cpus w2 = [] \<and> collect_cpu percent w2 = None)"
proof (intro conjI allI impI)
  show "length (cw_cpus w) \<le> 15"
    using cpu_window.inv_reachable [OF assms] by (simp add: cpu_inv_def empty_window_def)
next
  fix texts w1 w2 and percent :: 'a
  assume w: "cw_cpus w = [] \<and> getGatewayCpu ar w = (texts, w1) \<and> (cpu_step ar)\<^sup>*\<^sup>* w1 w2"
  then have locked: "cw_cpus w1 = [] \<and> cw_readers w1 \<noteq> 0" using getGatewayCpu_window [of ar w texts w1] by simp
  have "(cpu_step ar)\<^sup>*\<^sup>* w1 w2" using w by blast
  then have "cw_cpus w2 = [] \<and> cw_readers w2 \<noteq> 0" using locked
  proof (induction rule: rtranclp_induct)
    case (step y z)
    then show ?case
      by (auto elim!: cpu_step.cases dest!: getGatewayCpu_window simp: collect_cpu_def)
  qed
  then show "cw_cpus w2 = []" "collect_cpu percent w2 = None" by (simp_all add: collect_cpu_def)
qed

definition example_arith :: "(nat, nat) load_arith" where
  "example_arith = \<lparr>la_zero = 0, la_plus = (+), la_over = (div), la_text = id\<rparr>"

lemma early_request_stops_collection_witness:
  "\<exists>w1 w2. getGatewayCpu example_arith empty_window = ((0, 0, 0), w1) \<and> (cpu_step example_arith)\<^sup>*\<^sup>* w1 w2 \<and> w1 \<noteq> w2 \<and>
     cw_cpus w2 = [] \<and> collect_cpu (7 :: nat) w2 = None"
proof -
  obtain w1 where g: "getGatewayCpu example_arith empty_window = ((0, 0, 0), w1)"
    by (simp add: getGatewayCpu_def empty_window_def example_arith_def Let_def)
  have empty: "cw_cpus (empty_window :: nat CpuWindow) = []" by (simp add: empty_window_def)
  have w1: "w1 = empty_window\<lparr>cw_readers := 1\<rparr>" using getGatewayCpu_window [OF g] by (simp add: empty_window_def)
  obtain texts w2 where g2: "getGatewayCpu example_arith w1 = (texts, w2)" by fastforce
  have "w2 \<noteq> w1" using getGatewayCpu_window [OF g2] by (simp add: w1 empty_window_def)
  moreover have run: "(cpu_step example_arith)\<^sup>*\<^sup>* w1 w2" using g2 by (auto intro: cpu_get)
  ultimately show ?thesis
    using early_request_stops_collection [OF rtranclp.rtrancl_refl, of example_arith] empty g by blast
qed

section \<open>Memory and disk\<close>

record MemUsageInfo =
  mu_Total :: string
  mu_Used :: string
  mu_UsedPercent :: string

text \<open>The figures of the host are bytes; they are shown in MB, rounded down.\<close>

definition getGatewayMem :: "(uint \<times> uint \<times> string) option \<Rightarrow> (uint \<Rightarrow> string) \<Rightarrow> MemUsageInfo option" where
  "getGatewayMem v show_uint =
     map_option (\<lambda>(total, used, percent).
       \<lparr>mu_Total = show_uint (total div 1024 div 1024) @ ''MB'', mu_Used = show_uint (used div 1024 div 1024) @ ''MB'',
        mu_UsedPercent = percent\<rparr>) v"

text \<open>The disks by their mount points; the second may be the first, and then it replaces it.\<close>

definition getGatewayDisk ::
  "(string \<Rightarrow> (uint \<times> uint \<times> string) option) \<Rightarrow> (uint \<Rightarrow> string) \<Rightarrow> string \<Rightarrow> string \<Rightarrow>
   (string \<Rightarrow> MemUsageInfo option) option" where
  "getGatewayDisk usage show_uint osDisk dataDisk =
     do { os \<leftarrow> getGatewayMem (usage osDisk) show_uint;
          data \<leftarrow> getGatewayMem (usage dataDisk) show_uint;
          Some [osDisk \<mapsto> os, dataDisk \<mapsto> data] }"

end
