(* ===== verification/ModbusAction.thy ===== *)
theory ModbusAction
  imports ModbusBroker
begin

text \<open>
  Model of the writing half of \<^verbatim>\<open>pkg/protocol/modbus/modbusbroker.go\<close>: \<open>DeliverAction\<close>, which converts
  the values of a request to the types of the variables, builds one write request for each
  variable (\<open>generateActionBytes\<close>) and sends them one after the other. The request object is a Go
  map, so it is the list of its entries in the order in which the loop meets them. \<open>None\<close> is a panic.
\<close>

section \<open>Encoding a value\<close>

definition write_word16 :: "MemoryLayout \<Rightarrow> u16 \<Rightarrow> byte list" where
  "write_word16 ml value =
     (case ml of
        ABCD \<Rightarrow> Uint16ToBytesBigEndian value
      | CDAB \<Rightarrow> Uint16ToBytesBigEndian value
      | BADC \<Rightarrow> Uint16ToBytesLittleEndian value
      | DCBA \<Rightarrow> Uint16ToBytesLittleEndian value)"

definition write_word32 :: "MemoryLayout \<Rightarrow> u32 \<Rightarrow> byte list" where
  "write_word32 ml value =
     (case ml of
        ABCD \<Rightarrow> Uint32ToBytesBigEndian value
      | BADC \<Rightarrow> Uint32ToBytesBigEndianByteSwap value
      | CDAB \<Rightarrow> Uint32ToBytesLittleEndianByteSwap value
      | DCBA \<Rightarrow> Uint32ToBytesLittleEndian value)"

definition write_word64 :: "MemoryLayout \<Rightarrow> u64 \<Rightarrow> byte list" where
  "write_word64 ml value =
     (case ml of
        ABCD \<Rightarrow> Uint64ToBytesBigEndian value
      | BADC \<Rightarrow> Uint64ToBytesBigEndianByteSwap value
      | CDAB \<Rightarrow> Uint64ToBytesLittleEndianByteSwap value
      | DCBA \<Rightarrow> Uint64ToBytesLittleEndian value)"

definition write_float32 :: "MemoryLayout \<Rightarrow> f32 \<Rightarrow> byte list" where
  "write_float32 ml value =
     (case ml of
        ABCD \<Rightarrow> Float32ToBytesBigEndian value
      | BADC \<Rightarrow> Float32ToBytesBigEndianByteSwap value
      | CDAB \<Rightarrow> Float32ToBytesLittleEndianByteSwap value
      | DCBA \<Rightarrow> Float32ToBytesLittleEndian value)"

definition write_float64 :: "MemoryLayout \<Rightarrow> f64 \<Rightarrow> byte list" where
  "write_float64 ml value =
     (case ml of
        ABCD \<Rightarrow> Float64ToBytesBigEndian value
      | BADC \<Rightarrow> Float64ToBytesBigEndianByteSwap value
      | CDAB \<Rightarrow> Float64ToBytesLittleEndianByteSwap value
      | DCBA \<Rightarrow> Float64ToBytesLittleEndian value)"

text \<open>The value divided by the rate, converted back to its type.\<close>

definition unrated_int :: "float_oor \<Rightarrow> int \<Rightarrow> int \<Rightarrow> f64 \<Rightarrow> int \<Rightarrow> int" where
  "unrated_int oor lo hi rate i =
     (if rated rate then f64_to_int oor lo hi (f64_div (f64_of_int i) rate) else i)"

text \<open>A coil: the function code and the data, \<open>0xFF00\<close> for a value above zero. A type assertion that
  fails panics; a type without a case leaves the function code 0 and no data.\<close>

definition coil_data :: "bool \<Rightarrow> byte \<times> byte list" where
  "coil_data on = (WriteSingleCoil, Uint16ToBytesBigEndian (if on then 65280 else 0))"

fun coil_action :: "DataType \<Rightarrow> GoValue \<Rightarrow> (byte \<times> byte list) option" where
  "coil_action BOOL (VBool b) = Some (coil_data b)"
| "coil_action INT16 (VInt16 w) = Some (coil_data (0 < sint w))"
| "coil_action UINT16 (VUint16 w) = Some (coil_data (0 < w))"
| "coil_action INT32 (VInt32 w) = Some (coil_data (0 < sint w))"
| "coil_action INT64 (VInt64 w) = Some (coil_data (0 < sint w))"
| "coil_action FLOAT32 (VFloat32 x) = Some (coil_data (f32_less f32_zero x))"
| "coil_action FLOAT64 (VFloat64 x) = Some (coil_data (f64_less f64_zero x))"
| "coil_action NUMBER v = Some (0, [])"
| "coil_action STRING v = Some (0, [])"
| "coil_action dt v = None"

definition multiple_registers :: "nat \<Rightarrow> byte list \<Rightarrow> byte \<times> byte list" where
  "multiple_registers registerAmount bs =
     (WriteMultipleRegister,
      Uint16ToBytesBigEndian (of_nat registerAmount) @ [of_nat (2 * registerAmount)] @ bs)"

text \<open>A register. A boolean register is not supported: the request has the function code 0 and no data.\<close>

fun register_action :: "float_oor \<Rightarrow> MemoryLayout \<Rightarrow> f64 \<Rightarrow> DataType \<Rightarrow> GoValue \<Rightarrow> (byte \<times> byte list) option" where
  "register_action oor ml rate BOOL v = Some (0, [])"
| "register_action oor ml rate INT16 (VInt16 w) =
     Some (WriteSingleRegister, write_word16 ml (word_of_int (unrated_int oor (- 0x8000) 0x7FFF rate (sint w))))"
| "register_action oor ml rate UINT16 (VUint16 w) =
     Some (WriteSingleRegister, write_word16 ml (word_of_int (unrated_int oor 0 0xFFFF rate (uint w))))"
| "register_action oor ml rate INT32 (VInt32 w) =
     Some (multiple_registers 2 (write_word32 ml
       (word_of_int (unrated_int oor (- 0x80000000) 0x7FFFFFFF rate (sint w)))))"
| "register_action oor ml rate INT64 (VInt64 w) =
     Some (multiple_registers 4 (write_word64 ml
       (word_of_int (unrated_int oor (- 0x8000000000000000) 0x7FFFFFFFFFFFFFFF rate (sint w)))))"
| "register_action oor ml rate FLOAT32 (VFloat32 x) =
     Some (multiple_registers 2 (write_float32 ml
       (if rated rate then f32_of_f64 (f64_div (f64_of_f32 x) rate) else x)))"
| "register_action oor ml rate FLOAT64 (VFloat64 x) =
     Some (multiple_registers 4 (write_float64 ml (if rated rate then f64_div x rate else x)))"
| "register_action oor ml rate NUMBER v = Some (0, [])"
| "register_action oor ml rate STRING v = Some (0, [])"
| "register_action oor ml rate dt v = None"

text \<open>The body of the loop of \<open>generateActionBytes\<close>, and the loop.\<close>

definition action_pdu :: "float_oor \<Rightarrow> MemoryLayout \<Rightarrow> ModbusVariable \<Rightarrow> byte list option" where
  "action_pdu oor ml variable =
     (let code = mv_FunctionCode variable in
      do { (fc, dataByte) \<leftarrow>
             (if code = ReadCoilStatus \<or> code = ReadInputStatus
              then coil_action (mv_DataType variable) (mv_Value variable)
              else if code = ReadHoldRegister \<or> code = ReadInputRegister
              then register_action oor ml (mv_Rate variable) (mv_DataType variable) (mv_Value variable)
              else Some (0, []));
           let pduByte = (replicate 3 0)[0 := fc];
           pduByte \<leftarrow> write_at WriteUint16BigEndian 1 pduByte (ucast (mv_Address variable));
           Some (pduByte @ dataByte) })"

primrec generateActionBytes :: "float_oor \<Rightarrow> MemoryLayout \<Rightarrow> ModbusVariable list \<Rightarrow> byte list list option" where
  "generateActionBytes oor ml [] = Some []"
| "generateActionBytes oor ml (variable # action) =
     do { pdu \<leftarrow> action_pdu oor ml variable;
          rest \<leftarrow> generateActionBytes oor ml action;
          Some (pdu # rest) }"

section \<open>The values of a request\<close>

text \<open>\<^verbatim>\<open>strconv.ParseBool\<close>.\<close>

definition ParseBool :: "string \<Rightarrow> bool option" where
  "ParseBool s =
     (if s \<in> set [''1'', ''t'', ''T'', ''TRUE'', ''true'', ''True''] then Some True
      else if s \<in> set [''0'', ''f'', ''F'', ''FALSE'', ''false'', ''False''] then Some False
      else None)"

definition float_value :: "GoValue \<Rightarrow> responseError \<Rightarrow> (f64 \<Rightarrow> GoValue) \<Rightarrow> responseError + GoValue" where
  "float_value value err conv = (case value of VFloat64 x \<Rightarrow> Inr (conv x) | _ \<Rightarrow> Inl err)"

text \<open>The switch on the type of the variable; a type without a case leaves the value nil.\<close>

definition action_value :: "float_oor \<Rightarrow> string \<Rightarrow> DataType \<Rightarrow> GoValue \<Rightarrow> responseError + GoValue" where
  "action_value oor name dt value =
     (case dt of
        BOOL \<Rightarrow> (case value of
            VBool b \<Rightarrow> Inr (VBool b)
          | VString s \<Rightarrow> (case ParseBool s of Some b \<Rightarrow> Inr (VBool b) | None \<Rightarrow> Inl (ErrBooleanInvalid [name]))
          | _ \<Rightarrow> Inl (ErrBooleanInvalid [name]))
      | INT16 \<Rightarrow> float_value value (ErrInteger16Invalid [name])
          (\<lambda>x. VInt16 (word_of_int (f64_to_int oor (- 0x8000) 0x7FFF x)))
      | UINT16 \<Rightarrow> float_value value (ErrInteger16Invalid [name])
          (\<lambda>x. VUint16 (word_of_int (f64_to_int oor 0 0xFFFF x)))
      | INT32 \<Rightarrow> float_value value (ErrInteger32Invalid [name])
          (\<lambda>x. VInt32 (word_of_int (f64_to_int oor (- 0x80000000) 0x7FFFFFFF x)))
      | INT64 \<Rightarrow> float_value value (ErrInteger64Invalid [name])
          (\<lambda>x. VInt64 (word_of_int (f64_to_int oor (- 0x8000000000000000) 0x7FFFFFFFFFFFFFFF x)))
      | FLOAT32 \<Rightarrow> float_value value (ErrFloat32Invalid [name]) (\<lambda>x. VFloat32 (f32_of_f64 x))
      | FLOAT64 \<Rightarrow> float_value value (ErrFloat64Invalid [name]) VFloat64
      | _ \<Rightarrow> Inr VNil)"

text \<open>The copy of the variable that carries the new value; its default value is nil.\<close>

definition action_variable :: "ModbusVariable \<Rightarrow> GoValue \<Rightarrow> ModbusVariable" where
  "action_variable v value = v\<lparr>mv_DefaultValue := VNil, mv_Value := value\<rparr>"

text \<open>The first loop of \<open>DeliverAction\<close>. The type assertion panics for a name without a variable.\<close>

primrec collect_actions ::
  "float_oor \<Rightarrow> ModBusDevice \<Rightarrow> (string \<times> GoValue) list \<Rightarrow> (responseError + ModbusVariable list) option" where
  "collect_actions oor device [] = Some (Inr [])"
| "collect_actions oor device (entry # obj) =
     do { variableValue \<leftarrow> ModBus_GetVariable device (fst entry);
          case action_value oor (fst entry) (mv_DataType variableValue) (snd entry) of
            Inl e \<Rightarrow> Some (Inl e)
          | Inr value \<Rightarrow>
              map_option (map_sum id ((#) (action_variable variableValue value)))
                (collect_actions oor device obj) }"

section \<open>Sending\<close>

text \<open>The frame around the \<open>i\<close>-th request.\<close>

definition action_frame :: "'c ModbusBroker \<Rightarrow> nat \<Rightarrow> byte list \<Rightarrow> byte list option" where
  "action_frame broker i dbs =
     do { header \<leftarrow>
            (if mb_NeedCheckTransaction broker then
               do { b \<leftarrow> write_at WriteUint16BigEndian 0 (replicate 6 0) (of_nat i);
                    b \<leftarrow> write_at WriteUint16BigEndian 2 b 0;
                    write_at WriteUint16BigEndian 4 b (of_nat (1 + length dbs)) }
             else Some []);
          let bytes = header @ [ucast (md_Slave (mb_Device broker))] @ dbs;
          (if mb_NeedCheckCrc16Sum broker then
             do { crc16 \<leftarrow> WriteUint16BigEndian (replicate 2 0) (CheckCrc16sum bytes);
                  Some (bytes @ crc16) }
           else Some bytes) }"

primrec action_frames :: "'c ModbusBroker \<Rightarrow> nat \<Rightarrow> byte list list \<Rightarrow> byte list list option" where
  "action_frames broker i [] = Some []"
| "action_frames broker i (dbs # dataBytes) =
     do { frame \<leftarrow> action_frame broker i dbs;
          rest \<leftarrow> action_frames broker (Suc i) dataBytes;
          Some (frame # rest) }"

text \<open>The checks on a reply. Both transaction ids are read from the reply, as in the source.\<close>

definition check_reply_unit :: "'c ModbusBroker \<Rightarrow> byte list \<Rightarrow> modbus_error option option" where
  "check_reply_unit broker rp =
     do { slave \<leftarrow> index_at rp 0;
          if ucast slave \<noteq> md_Slave (mb_Device broker) then Some (Some ErrMessageSlave)
          else do { functionCode \<leftarrow> index_at rp 1;
                    Some (if 0 < functionCode AND 0x80 then Some ErrMessageFunctionCodeError else None) } }"

definition check_action_reply :: "'c ModbusBroker \<Rightarrow> byte list \<Rightarrow> modbus_error option option" where
  "check_action_reply broker rp =
     (if mb_NeedCheckTransaction broker then
        do { transactionId \<leftarrow> ParseUint16 rp;
             requestTransactionId \<leftarrow> ParseUint16 rp;
             if transactionId \<noteq> requestTransactionId then Some (Some ErrMessageTransaction)
             else do { rp \<leftarrow> slice_from rp 6; check_reply_unit broker rp } }
      else check_reply_unit broker rp)"

definition send_action :: "'c ModbusBroker \<Rightarrow> Conn \<Rightarrow> byte list \<Rightarrow> Conn \<times> modbus_error option option" where
  "send_action broker messenger frame =
     (let (messenger, rp, res) =
            AskAtLeast (broker_model broker) messenger frame (replicate (length frame) 0) 6
      in (messenger,
          case res of
            Inl e \<Rightarrow> if e = AskPanic then None else Some (Some ErrModbusBadConn)
          | Inr _ \<Rightarrow> check_action_reply broker rp))"

primrec send_actions ::
  "'c ModbusBroker \<Rightarrow> Conn \<Rightarrow> byte list list \<Rightarrow> modbus_error list \<Rightarrow> Conn \<times> modbus_error list option" where
  "send_actions broker messenger [] errs = (messenger, Some errs)"
| "send_actions broker messenger (frame # frames) errs =
     (let (messenger, res) = send_action broker messenger frame
      in case res of
           None \<Rightarrow> (messenger, None)
         | Some err \<Rightarrow> send_actions broker messenger frames
             (case err of None \<Rightarrow> errs | Some e \<Rightarrow> errs @ [e]))"

text \<open>What \<open>DeliverAction\<close> returns: the error for a value, the error of the dial, or the collected errors
  of the exchanges. \<open>got\<close> and \<open>dials\<close> are as for \<open>message\<close>: the result of \<open>GetMessenger\<close> and of the dial
  that follows when it fails. The messenger in use is returned, if there was one.\<close>

datatype deliver_error = DeliverInvalid responseError | DeliverDial | DeliverErrors "modbus_error list"

definition DeliverAction ::
  "float_oor \<Rightarrow> 'c ModbusBroker \<Rightarrow> Conn option \<Rightarrow> Conn option \<Rightarrow> (string \<times> GoValue) list \<Rightarrow>
   Conn option \<times> (deliver_error + unit) option" where
  "DeliverAction oor broker got dial obj =
     (case collect_actions oor (mb_Device broker) obj of
        None \<Rightarrow> (got, None)
      | Some (Inl e) \<Rightarrow> (got, Some (Inl (DeliverInvalid e)))
      | Some (Inr action) \<Rightarrow>
          (case do { dataBytes \<leftarrow> generateActionBytes oor (md_MemoryLayout (mb_Device broker)) action;
                     action_frames broker 0 dataBytes } of
             None \<Rightarrow> (got, None)
           | Some dataFrames \<Rightarrow>
               (case (case got of Some c \<Rightarrow> Some c | None \<Rightarrow> dial) of
                  None \<Rightarrow> (None, Some (Inl DeliverDial))
                | Some messenger \<Rightarrow>
                    let (messenger, errs) = send_actions broker messenger dataFrames []
                    in (Some messenger,
                        map_option (\<lambda>es. if es \<noteq> [] then Inl (DeliverErrors es) else Inr ()) errs))))"

section \<open>What is written is what is read\<close>

lemma write_read_word [simp]:
  "read_word16 ml (write_word16 ml w @ r) = Some w"
  "read_word32 ml (write_word32 ml w2 @ r) = Some w2"
  "read_word64 ml (write_word64 ml w4 @ r) = Some w4"
  "read_float32 ml (write_float32 ml x @ r) = Some x"
  "read_float64 ml (write_float64 ml y @ r) = Some y"
  by (cases ml; simp add: read_word16_def read_word32_def read_word64_def read_float32_def read_float64_def
      write_word16_def write_word32_def write_word64_def write_float32_def write_float64_def
      be16.dec_enc_append le16.permuted.dec_enc_append
      be32.dec_enc_append bes32.permuted.dec_enc_append le32.permuted.dec_enc_append les32.permuted.dec_enc_append
      be64.dec_enc_append bes64.permuted.dec_enc_append le64.permuted.dec_enc_append les64.permuted.dec_enc_append
      bef32.renamed.dec_enc_append besf32.renamed.dec_enc_append lef32.renamed.dec_enc_append
      lesf32.renamed.dec_enc_append bef64.renamed.dec_enc_append besf64.renamed.dec_enc_append
      lef64.renamed.dec_enc_append lesf64.renamed.dec_enc_append)+

lemma length_write_word [simp]:
  "length (write_word16 ml w) = 2"
  "length (write_word32 ml w2) = 4"
  "length (write_word64 ml w4) = 8"
  "length (write_float32 ml x) = 4"
  "length (write_float64 ml y) = 8"
  by (cases ml; simp add:
      write_word16_def write_word32_def write_word64_def write_float32_def write_float64_def
      be16.length_enc le16.permuted.length_enc
      be32.length_enc bes32.permuted.length_enc le32.permuted.length_enc les32.permuted.length_enc
      be64.length_enc bes64.permuted.length_enc le64.permuted.length_enc les64.permuted.length_enc
      bef32.renamed.length_enc besf32.renamed.length_enc lef32.renamed.length_enc
      lesf32.renamed.length_enc bef64.renamed.length_enc besf64.renamed.length_enc
      lef64.renamed.length_enc lesf64.renamed.length_enc)+

lemma action_header:
  "write_at WriteUint16BigEndian (Suc 0) ((replicate 3 0)[0 := fc]) w = Some (fc # Uint16ToBytesBigEndian w)"
  by (simp add: write_at_def slice_from_def eval_nat_numeral WriteUint16BigEndian_def need_def
      Uint16ToBytesBigEndian_def)

lemma action_pdu_eq:
  "action_pdu oor ml v =
     map_option (\<lambda>(fc, dat). fc # Uint16ToBytesBigEndian (ucast (mv_Address v)) @ dat)
       (if mv_FunctionCode v = ReadCoilStatus \<or> mv_FunctionCode v = ReadInputStatus
        then coil_action (mv_DataType v) (mv_Value v)
        else if mv_FunctionCode v = ReadHoldRegister \<or> mv_FunctionCode v = ReadInputRegister
        then register_action oor ml (mv_Rate v) (mv_DataType v) (mv_Value v)
        else Some (0, []))" (is "_ = map_option ?f ?r")
  by (cases ?r) (simp_all add: action_pdu_def Let_def action_header split_beta del: ReadCoilStatus_def
      ReadInputStatus_def ReadHoldRegister_def ReadInputRegister_def)

lemma action_frame_eq:
  "action_frame broker i dbs =
     Some (let adu = ucast (md_Slave (mb_Device broker)) # dbs;
               adu = (if mb_NeedCheckTransaction broker then with_mbap (of_nat i) adu else adu)
           in if mb_NeedCheckCrc16Sum broker then with_crc adu else adu)"
  by (simp add: action_frame_def Let_def write_at_def slice_from_def eval_nat_numeral with_mbap_def
      WriteUint16BigEndian_def need_def Uint16ToBytesBigEndian_def with_crc_def)

section \<open>What the server does with a write\<close>

text \<open>Specification of the server side: the unit, the function, the address and the bytes to write.\<close>

fun server_write :: "byte list \<Rightarrow> (byte \<times> byte \<times> u16 \<times> byte list) option" where
  "server_write (unit # fc # a1 # a0 # dat) =
     (if fc = WriteSingleCoil \<or> fc = WriteSingleRegister then
        (if length dat = 2 then Some (unit, fc, be_word a1 a0, dat) else None)
      else if fc = WriteMultipleRegister then
        (case dat of
           c1 # c0 # n # bs \<Rightarrow>
             if unat n = length bs \<and> 2 * unat (be_word c1 c0) = length bs
             then Some (unit, fc, be_word a1 a0, bs) else None
         | _ \<Rightarrow> None)
      else None)"
| "server_write _ = None"

definition server_receives :: "bool \<Rightarrow> byte list \<Rightarrow> (byte \<times> byte \<times> u16 \<times> byte list) option" where
  "server_receives tcp msg =
     (if tcp then
        (case msg of
           t1 # t0 # p1 # p0 # l1 # l0 # body \<Rightarrow>
             if be_word p1 p0 = 0 \<and> be_word l1 l0 = of_nat (length body) then server_write body else None
         | _ \<Rightarrow> None)
      else
        (let body = take (length msg - 2) msg; crc = drop (length msg - 2) msg
         in if 2 \<le> length msg \<and> crc16_modbus body = be_word (crc ! 1) (crc ! 0) then server_write body else None))"

lemma server_receives_frame:
  "server_receives False (with_crc bs) = server_write bs"
  "server_receives True (with_mbap tid bs) = server_write bs"
proof -
  show "server_receives False (with_crc bs) = server_write bs"
    by (simp add: server_receives_def with_crc_def crc_bytes_reference)
  show "server_receives True (with_mbap tid bs) = server_write bs"
    by (simp add: server_receives_def with_mbap_def Uint16ToBytesBigEndian_eq) (simp add: be_word_def)
qed

text \<open>What an entry of a request asks for: the variable of that name is set to the converted value. A coil
  gets \<open>0xFF00\<close> for a value above zero; a register gets bytes that the reading half decodes to the value.\<close>

fun coil_on :: "GoValue \<Rightarrow> bool" where
  "coil_on (VBool b) = b"
| "coil_on (VInt16 w) = (0 < sint w)"
| "coil_on (VUint16 w) = (0 < w)"
| "coil_on (VInt32 w) = (0 < sint w)"
| "coil_on (VInt64 w) = (0 < sint w)"
| "coil_on (VFloat32 x) = f32_less f32_zero x"
| "coil_on (VFloat64 x) = f64_less f64_zero x"
| "coil_on _ = False"

definition sets_entry ::
  "float_oor \<Rightarrow> ModBusDevice \<Rightarrow> string \<times> GoValue \<Rightarrow> byte \<times> byte \<times> u16 \<times> byte list \<Rightarrow> bool" where
  "sets_entry oor device entry = (\<lambda>(unit, fc, addr, bs). unit = ucast (md_Slave device) \<and>
     (\<exists>v x. ModBus_GetVariable device (fst entry) = Some v \<and>
        action_value oor (fst entry) (mv_DataType v) (snd entry) = Inr x \<and> addr = ucast (mv_Address v) \<and>
        (if is_coil_code (mv_FunctionCode v)
         then fc = WriteSingleCoil \<and> bs = (if coil_on x then [0xFF, 0] else [0, 0])
         else (fc = WriteSingleRegister \<or> fc = WriteMultipleRegister) \<and>
           register_value oor (md_MemoryLayout device) v bs = Some x)))"

text \<open>The variables that can be written: coils of any type with a coding, registers of a numeric type
  that is not scaled.\<close>

definition writable :: "ModbusVariable \<Rightarrow> bool" where
  "writable v \<longleftrightarrow>
     (is_coil_code (mv_FunctionCode v) \<and> mv_DataType v \<notin> {NUMBER, STRING}) \<or>
     (is_register_code (mv_FunctionCode v) \<and> \<not> rated (mv_Rate v) \<and> mv_DataType v \<notin> {BOOL, NUMBER, STRING})"

lemma action_value_coil:
  assumes "action_value oor name dt value = Inr x" "dt \<notin> {NUMBER, STRING}"
  shows "coil_action dt x = Some (coil_data (coil_on x))"
  using assms by (cases dt; cases "value") (auto simp: action_value_def float_value_def split: option.splits)

text \<open>The bytes of a value that is not scaled.\<close>

fun value_bytes :: "MemoryLayout \<Rightarrow> GoValue \<Rightarrow> byte list" where
  "value_bytes ml (VInt16 w) = write_word16 ml w"
| "value_bytes ml (VUint16 w) = write_word16 ml w"
| "value_bytes ml (VInt32 w) = write_word32 ml w"
| "value_bytes ml (VInt64 w) = write_word64 ml w"
| "value_bytes ml (VFloat32 x) = write_float32 ml x"
| "value_bytes ml (VFloat64 x) = write_float64 ml x"
| "value_bytes ml v = []"

lemma action_value_register:
  assumes "action_value oor name (mv_DataType v) val = Inr x" "mv_DataType v \<notin> {BOOL, NUMBER, STRING}"
    and "\<not> rated (mv_Rate v)"
  shows "register_value oor ml v (value_bytes ml x) = Some x \<and>
    length (value_bytes ml x) \<in> {2, 4, 8} \<and>
    register_action oor ml (mv_Rate v) (mv_DataType v) x =
      Some (if length (value_bytes ml x) = 2 then (WriteSingleRegister, value_bytes ml x)
            else multiple_registers (length (value_bytes ml x) div 2) (value_bytes ml x))"
proof -
  have read: "read_word16 ml (write_word16 ml w) = Some w" "read_word32 ml (write_word32 ml w2) = Some w2"
    "read_word64 ml (write_word64 ml w4) = Some w4" "read_float32 ml (write_float32 ml x) = Some x"
    "read_float64 ml (write_float64 ml y) = Some y" for w w2 w4 x y
    using write_read_word [where r = "[]"] by simp_all
  show ?thesis
    using assms
    by (cases "mv_DataType v"; cases val)
      (simp_all add: action_value_def float_value_def register_value_def unrated_int_def read, auto simp: read unrated_int_def)
qed

text \<open>One request of \<open>generateActionBytes\<close>, as the server reads it.\<close>

lemma server_write_multiple:
  assumes "length bs \<in> {4, 8}"
  shows "server_write (unit # fst (multiple_registers (length bs div 2) bs) # a1 # a0 #
      snd (multiple_registers (length bs div 2) bs)) = Some (unit, WriteMultipleRegister, be_word a1 a0, bs)"
  using assms by (auto simp: multiple_registers_def Uint16ToBytesBigEndian_eq be_word_def)

lemma action_pdu_server:
  assumes v: "ModBus_GetVariable device (fst entry) = Some v"
    and x: "action_value oor (fst entry) (mv_DataType v) (snd entry) = Inr x" and "writable v"
  shows "\<exists>pdu wr. action_pdu oor (md_MemoryLayout device) (action_variable v x) = Some pdu \<and>
    server_write (ucast (md_Slave device) # pdu) = Some wr \<and> sets_entry oor device entry wr"
proof (cases "is_coil_code (mv_FunctionCode v)")
  case True
  then have "mv_DataType v \<notin> {NUMBER, STRING}"
    using assms(3) by (auto simp: writable_def is_coil_code_def is_register_code_def)
  then show ?thesis
    using True v x action_value_coil [OF x]
    by (auto simp: action_pdu_eq action_variable_def is_coil_code_def coil_data_def sets_entry_def
        Uint16ToBytesBigEndian_eq)
next
  case False
  with assms(3) have w: "is_register_code (mv_FunctionCode v)" "\<not> rated (mv_Rate v)"
    "mv_DataType v \<notin> {BOOL, NUMBER, STRING}" by (auto simp: writable_def)
  let ?bs = "value_bytes (md_MemoryLayout device) x"
  note r = action_value_register [OF x w(3,2), of "md_MemoryLayout device"]
  show ?thesis
  proof (cases "length ?bs = 2")
    case True
    with r False w v x show ?thesis
      by (auto simp: action_pdu_eq action_variable_def is_coil_code_def is_register_code_def sets_entry_def
        Uint16ToBytesBigEndian_eq)
  next
    case two: False
    with r False w v x server_write_multiple [of ?bs] show ?thesis
      by (auto simp: action_pdu_eq action_variable_def is_coil_code_def is_register_code_def sets_entry_def
        Uint16ToBytesBigEndian_eq split_beta)
  qed
qed

section \<open>A whole request\<close>

lemma collect_actions_each:
  assumes "collect_actions oor device obj = Some (Inr action)"
  shows "list_all2 (\<lambda>entry a. \<exists>v x. ModBus_GetVariable device (fst entry) = Some v \<and>
    action_value oor (fst entry) (mv_DataType v) (snd entry) = Inr x \<and> a = action_variable v x) obj action"
  using assms
proof (induction obj arbitrary: action)
  case (Cons entry obj)
  from Cons.prems obtain v where v: "ModBus_GetVariable device (fst entry) = Some v"
    by (auto simp: bind_eq_Some_conv)
  with Cons.prems obtain x r where x: "action_value oor (fst entry) (mv_DataType v) (snd entry) = Inr x"
    and "collect_actions oor device obj = Some r" "map_sum id ((#) (action_variable v x)) r = Inr action"
    by (cases "action_value oor (fst entry) (mv_DataType v) (snd entry)") auto
  then obtain rest where rest: "collect_actions oor device obj = Some (Inr rest)" "action = action_variable v x # rest"
    by (cases r) auto
  note v x
  with Cons.IH [OF rest(1)] rest(2) show ?case by auto
qed simp

lemma generateActionBytes_each:
  "generateActionBytes oor ml action = Some pdus \<Longrightarrow> list_all2 (\<lambda>a pdu. action_pdu oor ml a = Some pdu) action pdus"
  by (induction action arbitrary: pdus) (auto simp: bind_eq_Some_conv)

lemma action_frames_each:
  "action_frames broker i pdus = Some frames \<Longrightarrow>
   list_all2 (\<lambda>pdu frame. \<exists>i. action_frame broker i pdu = Some frame) pdus frames"
  by (induction pdus arbitrary: i frames) (auto simp: bind_eq_Some_conv)

lemma action_frame_server:
  assumes "broker_flags_ok broker" "action_frame broker i pdu = Some frame"
  shows "server_receives (mb_NeedCheckTransaction broker) frame =
    server_write (ucast (md_Slave (mb_Device broker)) # pdu)"
  using assms by (auto simp: action_frame_eq broker_flags_ok_def Let_def server_receives_frame split: if_splits)

text \<open>An exchange that succeeds has written its request.\<close>

lemma AskAtLeast_output:
  assumes "AskAtLeast model c request response m = (c', response', Inr k)"
  shows "cn_output c' = cn_output c @ [request]"
  using assms by (auto simp: AskAtLeast_def TcpClient_AskAtLeast_def SerialClient_AskAtLeast_def Let_def
      split: if_splits prod.splits)

lemma send_action_output:
  assumes "send_action broker c frame = (c', Some None)"
  shows "cn_output c' = cn_output c @ [frame]"
proof -
  obtain c1 rp res where ask: "AskAtLeast (broker_model broker) c frame (replicate (length frame) 0) 6 = (c1, rp, res)"
    using prod_cases3 by blast
  with assms obtain k where "res = Inr k" "c1 = c'" by (cases res) (auto simp: send_action_def split: if_splits)
  with ask AskAtLeast_output show ?thesis by blast
qed

lemma send_actions_keeps_errors:
  "send_actions broker c frames errs = (c', Some es) \<Longrightarrow> \<exists>es'. es = errs @ es'"
  by (induction frames arbitrary: c errs) (fastforce split: prod.splits option.splits)+

lemma send_actions_output:
  assumes "send_actions broker c frames [] = (c', Some [])"
  shows "cn_output c' = cn_output c @ frames"
  using assms
proof (induction frames arbitrary: c)
  case (Cons frame frames)
  obtain c1 res where one: "send_action broker c frame = (c1, res)" by force
  show ?case
  proof (cases res)
    case (Some err)
    have "err = None"
      using Cons.prems one Some send_actions_keeps_errors [of broker c1 frames "[the err]" c' "[]"] by (cases err) auto
    with Cons.prems one Some Cons.IH [of c1] send_action_output [of broker c frame c1] show ?thesis by auto
  qed (use Cons.prems one in auto)
qed simp

lemma DeliverAction_ok:
  assumes "DeliverAction oor broker (Some c) dial obj = (Some c', Some (Inr ()))"
  obtains action pdus frames where
    "collect_actions oor (mb_Device broker) obj = Some (Inr action)"
    "generateActionBytes oor (md_MemoryLayout (mb_Device broker)) action = Some pdus"
    "action_frames broker 0 pdus = Some frames"
    "cn_output c' = cn_output c @ frames"
  using assms send_actions_output [of broker c _ c']
  by (auto simp: DeliverAction_def bind_eq_Some_conv split: option.splits sum.splits prod.splits if_splits)


text \<open>A value that does not fit the type of its variable stops the whole request before anything is
  sent, wherever in the object it stands: the connection is untouched, and the result is the error for an
  invalid value (or a panic, when an earlier name has no variable).\<close>

theorem invalid_value_sends_nothing:
  assumes "(name, val) \<in> set obj" "ModBus_GetVariable (mb_Device broker) name = Some v"
    and "action_value oor name (mv_DataType v) val = Inl e"
  shows "fst (DeliverAction oor broker got dial obj) = got \<and>
    (\<forall>r. snd (DeliverAction oor broker got dial obj) = Some r \<longrightarrow> (\<exists>e'. r = Inl (DeliverInvalid e')))"
proof -
  have "collect_actions oor (mb_Device broker) obj \<noteq> Some (Inr action)" for action
  proof
    assume "collect_actions oor (mb_Device broker) obj = Some (Inr action)"
    from collect_actions_each [OF this] assms show False
      by (auto simp: list_all2_conv_all_nth in_set_conv_nth)
  qed
  then show ?thesis by (auto simp: DeliverAction_def split: option.splits sum.splits)
qed

section \<open>Writing several registers over the serial line\<close>

fun portion_bytes :: "io_event list \<Rightarrow> nat" where
  "portion_bytes [] = 0"
| "portion_bytes (Portion bs # evs) = length bs + portion_bytes evs"
| "portion_bytes (Fault # evs) = portion_bytes evs"

lemma serial_loop_needs_all:
  "serial_loop response n input = (input', response', Inr k) \<Longrightarrow> length response \<le> n + portion_bytes input"
proof (induction response n input rule: serial_loop.induct)
  case (3 response n bs evs)
  show ?case
  proof (cases "take 256 bs = [] \<or> length response < n + length (take 256 bs)")
    case True
    with "3.prems" show ?thesis by (auto simp: Let_def split: if_splits)
  next
    case False
    define got where "got = take 256 bs"
    have "length got \<le> length bs" by (simp add: got_def)
    moreover have "portion_bytes (if 256 < length bs then Portion (drop 256 bs) # evs else evs) + length got =
        length bs + portion_bytes evs" by (simp add: got_def)
    moreover have "length (take n response @ got @ drop (n + length got) response) = length response"
      using False by (auto simp: got_def)
    ultimately show ?thesis
      using "3.prems" "3.IH" [OF refl refl refl] False
      by (fastforce simp: Let_def simp flip: got_def split: if_splits)
  qed
qed (auto split: if_splits)

lemma send_action_rtu:
  assumes "broker_model broker = Rtu" "portion_bytes (cn_input c) < length frame"
  shows "snd (send_action broker c frame) \<noteq> Some None"
proof -
  obtain c1 rp res where ask: "AskAtLeast Rtu c frame (replicate (length frame) 0) 6 = (c1, rp, res)"
    using prod_cases3 by blast
  then have "res \<noteq> Inr k" for k
    using serial_loop_needs_all [of "replicate (length frame) 0" 0 "cn_input c"] assms(2)
    by (auto simp: AskAtLeast_def SerialClient_AskAtLeast_def Let_def split: if_splits prod.splits)
  with ask assms(1) show ?thesis by (cases res) (auto simp: send_action_def)
qed

lemma DeliverAction_single_ok:
  assumes "DeliverAction oor broker (Some c) dial [(name, val)] = (Some c', Some (Inr ()))"
    and "ModBus_GetVariable (mb_Device broker) name = Some v"
  obtains x pdu frame where "action_value oor name (mv_DataType v) val = Inr x"
    "action_pdu oor (md_MemoryLayout (mb_Device broker)) (action_variable v x) = Some pdu"
    "action_frame broker 0 pdu = Some frame" "snd (send_action broker c frame) = Some None"
proof -
  obtain action pdus frames where
    a: "collect_actions oor (mb_Device broker) [(name, val)] = Some (Inr action)" and
    p: "generateActionBytes oor (md_MemoryLayout (mb_Device broker)) action = Some pdus" and
    f: "action_frames broker 0 pdus = Some frames" and s: "send_actions broker c frames [] = (c', Some [])"
    using assms(1)
    by (auto simp: DeliverAction_def bind_eq_Some_conv split: option.splits sum.splits prod.splits if_splits)
  obtain x where x: "action_value oor name (mv_DataType v) val = Inr x" "action = [action_variable v x]"
    using a assms(2) by (cases "action_value oor name (mv_DataType v) val") auto
  obtain pdu where pdu: "action_pdu oor (md_MemoryLayout (mb_Device broker)) (action_variable v x) = Some pdu" "pdus = [pdu]"
    using p x(2) by (auto simp: bind_eq_Some_conv)
  obtain frame where "action_frame broker 0 pdu = Some frame" "frames = [frame]"
    using f pdu(2) by (auto simp: bind_eq_Some_conv)
  moreover have "snd (send_action broker c frame) = Some None"
    using s \<open>frames = [frame]\<close> by (auto split: prod.splits option.splits)
  ultimately show ?thesis using that x pdu by blast
qed

text \<open>Over the serial line the reply to a write of several registers has 8 bytes, but \<open>DeliverAction\<close>
  waits for as many as it sent, at least 13: a write of a 32 or 64 bit value to a register is never
  acknowledged, even though a server that answers as the protocol says has executed it.\<close>

theorem serial_wide_write_never_acknowledged:
  assumes "broker_flags_ok broker" "broker_model broker = Rtu"
    and v: "ModBus_GetVariable (mb_Device broker) name = Some v" "is_register_code (mv_FunctionCode v)"
      "mv_DataType v \<in> {INT32, INT64, FLOAT32, FLOAT64}"
    and reply: "portion_bytes (cn_input c) \<le> 8"
  shows "snd (DeliverAction oor broker (Some c) dial [(name, val)]) \<noteq> Some (Inr ())"
proof
  assume "snd (DeliverAction oor broker (Some c) dial [(name, val)]) = Some (Inr ())"
  moreover from this obtain c' where "fst (DeliverAction oor broker (Some c) dial [(name, val)]) = Some c'"
    by (auto simp: DeliverAction_def split: option.splits sum.splits prod.splits if_splits)
  ultimately have ok: "DeliverAction oor broker (Some c) dial [(name, val)] = (Some c', Some (Inr ()))"
    by (metis prod.collapse)
  then obtain x pdu frame where x: "action_value oor name (mv_DataType v) val = Inr x"
    and pdu: "action_pdu oor (md_MemoryLayout (mb_Device broker)) (action_variable v x) = Some pdu"
    and frame: "action_frame broker 0 pdu = Some frame" and sent: "snd (send_action broker c frame) = Some None"
    using v(1) by (rule DeliverAction_single_ok)
  have "10 \<le> length pdu"
    using pdu x v(2,3)
    by (cases val) (auto simp: action_pdu_eq action_variable_def is_register_code_def action_value_def float_value_def
        multiple_registers_def Uint16ToBytesBigEndian_eq)
  then have "13 \<le> length frame"
    using frame assms(1,2) by (auto simp: action_frame_eq broker_flags_ok_def Let_def)
  with send_action_rtu [OF assms(2)] reply sent show False by fastforce
qed

section \<open>An example\<close>

definition action_device :: "string \<Rightarrow> ModBusDevice" where
  "action_device model = example_modbus_device model 0
     [example_variable ''run'' BOOL 1 3, example_variable ''target'' FLOAT64 3 10]"

definition action_broker :: "string \<Rightarrow> unit ModbusBroker" where
  "action_broker model = (example_broker model)\<lparr>mb_Device := action_device model\<rparr>"

lemma action_broker_flags: "StringToModbusModel model = Some md \<Longrightarrow>
  broker_flags_ok (action_broker model) \<and> broker_model (action_broker model) = md"
  by (auto simp: StringToModbusModel_def broker_flags_ok_def broker_model_def action_broker_def example_broker_def
      action_device_def example_modbus_device_def modbus_device_model_def ModBus_IndexDevice_def split: if_splits)

lemma action_device_variable: "ModBus_GetVariable (mb_Device (action_broker model)) name =
  (if name = ''run'' then Some (example_variable ''run'' BOOL 1 3)
   else if name = ''target'' then Some (example_variable ''target'' FLOAT64 3 10) else None)"
  by (simp add: action_broker_def action_device_def example_modbus_device_def ModBus_IndexDevice_def
      ModBus_GetVariable_def example_variable_def)

lemma not_rated_zero: "\<not> rated f64_zero"
  by (simp add: rated_def f64_eq_def f64_zero_def f64_one_def f64_val_def fp_decode_def)

lemma serial_wide_write_never_acknowledged_witness:
  "snd (DeliverAction (\<lambda>_ _ _. 0) (action_broker ''modbusRtu'')
     (Some (example_conn [Portion (with_crc [1, 16, 0, 10, 0, 4])])) None [(''target'', VFloat64 (F64 1))]) \<noteq>
   Some (Inr ())"
  using action_broker_flags [OF rtu_model]
  by (intro serial_wide_write_never_acknowledged [where v = "example_variable ''target'' FLOAT64 3 10"])
    (simp_all add: action_device_variable example_variable_def is_register_code_def example_conn_def)

lemma invalid_value_sends_nothing_witness:
  "fst (DeliverAction (\<lambda>_ _ _. 0) (action_broker ''modbusTcp'') (Some (example_conn [])) None
     [(''run'', VBool True), (''target'', VString ''high'')]) = Some (example_conn [])"
  using invalid_value_sends_nothing [of "''target''" "VString ''high''"
      "[(''run'', VBool True), (''target'', VString ''high'')]" "action_broker ''modbusTcp''"
      "example_variable ''target'' FLOAT64 3 10" "\<lambda>_ _ _. 0" "ErrFloat64Invalid [''target'']"
      "Some (example_conn [])" None]
  by (simp add: action_device_variable example_variable_def action_value_def float_value_def)

text \<open>A reply on the tunnel that names the unit and is no exception is accepted, whatever its length.\<close>

lemma read_at_least_enough: "m \<le> n \<Longrightarrow> read_at_least buf n m evs = (evs, buf, Inr n)"
  by (cases evs) simp_all

lemma send_action_tunnel:
  assumes flags: "broker_model broker = Tcp" "mb_NeedCheckTransaction broker"
    and c: "\<not> cn_writeFails c" "\<not> cn_deadlineFails c" "\<not> cn_closed c" "cn_input c = Portion r # evs"
    and r: "8 \<le> length r" "length r \<le> length frame"
    and ok: "ucast (r ! 6) = md_Slave (mb_Device broker)" "\<not> bit (r ! 7) 7"
  shows "send_action broker c frame =
    (c\<lparr>cn_input := evs, cn_output := cn_output c @ [frame]\<rparr>, Some None)"
proof -
  let ?rp = "r @ replicate (length frame - length r) 0"
  obtain t where "ParseUint16 ?rp = Some t"
    using r by (cases "ParseUint16 ?rp") (auto simp: ParseUint16_def need_def split: if_splits)
  moreover have "slice_from ?rp 6 = Some (drop 6 ?rp)" using r by (simp add: slice_from_def)
  moreover have "drop 6 ?rp ! 0 = r ! 6" "drop 6 ?rp ! 1 = r ! 7" "2 \<le> length (drop 6 ?rp)"
    using r by (simp_all add: nth_append del: drop_append)
  ultimately have "check_action_reply broker ?rp = Some None"
    using flags(2) ok by (simp add: check_action_reply_def check_reply_unit_def index_at_def byte_high_bit del: drop_append)
  moreover have "read_at_least (replicate (length frame) 0) 0 6 (cn_input c) = (evs, ?rp, Inr (length r))"
    using c r by (simp add: read_at_least_enough min_absorb1 Let_def)
  ultimately show ?thesis
    using flags c r by (simp add: send_action_def AskAtLeast_def TcpClient_AskAtLeast_def io_ReadAtLeast_def)
qed

definition action_replies :: "io_event list" where
  "action_replies = [Portion [0, 0, 0, 0, 0, 6, 1, 5, 0, 3, 255, 0], Portion [0, 1, 0, 0, 0, 6, 1, 16, 0, 10, 0, 4]]"


end
