(* ===== verification/S7Broker.thy ===== *)
theory S7Broker
  imports S7Plan ModbusAction
begin

text \<open>
  Model of the collecting and writing halves of \<^verbatim>\<open>pkg/protocol/s7/s7broker.go\<close>: the validation of an
  answer, the decoding of its items, the retried exchange of a frame, the gathering of a poll, and
  \<open>DeliverAction\<close>. The conversion of request values and the pool and connection of S7 repeat the code of
  the Modbus packages, so the model uses those definitions.
\<close>

section \<open>Validation and decoding\<close>

definition s7_ValidateMessage :: "nat \<Rightarrow> S7DataFrame \<Rightarrow> (s7_error + byte list) option" where
  "s7_ValidateMessage least df =
     do { buf \<leftarrow> slice_range (sf_ResponseDataFrame df) 0 least;
          tail15 \<leftarrow> slice_from buf 15;
          itemLength \<leftarrow> ParseUint16 tail15;
          if itemLength \<noteq> word_of_int (sf_DataLength df) then Some (Inl S7DataLengthNotEnough)
          else do {
            errClass \<leftarrow> index_at buf 17;
            if errClass \<noteq> 0 then Some (Inl S7ResponseError)
            else do {
              errCode \<leftarrow> index_at buf 18;
              Some (if errCode \<noteq> 0 then Inl S7ResponseError else Inr buf) } } }"

text \<open>The switch on the data type, on the data from the start of the item on. With a rate, the type
  assertion to \<^verbatim>\<open>float64\<close> panics for every type but \<open>FLOAT64\<close>.\<close>

definition s7_variable_value :: "S7Variable \<Rightarrow> byte \<Rightarrow> byte list \<Rightarrow> GoValue option" where
  "s7_variable_value v bitAddress item =
     (let scaled = rated (sv_Rate v);
          vpData = slice_from item 4
      in case sv_DataType v of
        BOOL \<Rightarrow> map_option (\<lambda>b. VBool (push_bit (unat bitAddress) 1 AND b \<noteq> 0)) (index_at item 4)
      | UINT16 \<Rightarrow> do { d \<leftarrow> vpData; w \<leftarrow> ParseUint16BigEndian d; (if scaled then None else Some (VUint16 w)) }
      | INT16 \<Rightarrow> do { d \<leftarrow> vpData; w \<leftarrow> ParseUint16BigEndian d; (if scaled then None else Some (VInt16 w)) }
      | INT32 \<Rightarrow> do { d \<leftarrow> vpData; w \<leftarrow> ParseUint32BigEndian d; (if scaled then None else Some (VInt32 w)) }
      | FLOAT32 \<Rightarrow> do { d \<leftarrow> vpData; x \<leftarrow> ParseFloat32BigEndian d; (if scaled then None else Some (VFloat32 x)) }
      | INT64 \<Rightarrow> do { d \<leftarrow> vpData; w \<leftarrow> ParseUint64BigEndian d; (if scaled then None else Some (VInt64 w)) }
      | FLOAT64 \<Rightarrow> do { d \<leftarrow> vpData; x \<leftarrow> ParseFloat64BigEndian d;
                       Some (VFloat64 (if scaled then f64_mul x (sv_Rate v) else x)) }
      | _ \<Rightarrow> Some VNil)"

text \<open>A variable without a case never touches the data.\<close>

definition s7_parse_value :: "byte list \<Rightarrow> S7VariableParse \<Rightarrow> GoValue option" where
  "s7_parse_value data vp =
     (if sv_DataType (svp_Variable vp) \<in> {STRING, NUMBER} then Some VNil
      else do { item \<leftarrow> slice_from data (unat (svp_StartAddress vp));
                s7_variable_value (svp_Variable vp) (svp_BitAddressOrLength vp) item })"

definition s7_reported :: "S7Variable \<Rightarrow> S7Variable" where
  "s7_reported v = v\<lparr>sv_AccessMode := AccessModeReadOnly\<rparr>"

primrec s7_parse_variables :: "byte list \<Rightarrow> S7VariableParse list \<Rightarrow> (S7VariableParse list \<times> S7Variable list) option" where
  "s7_parse_variables data [] = Some ([], [])"
| "s7_parse_variables data (vp # vps) =
     do { value \<leftarrow> s7_parse_value data vp;
          let v = sv_SetValue value (svp_Variable vp);
          (vps', vvs) \<leftarrow> s7_parse_variables data vps;
          Some (vp\<lparr>svp_Variable := v\<rparr> # vps', s7_reported v # vvs) }"

definition s7_ParseVariableValue :: "S7DataFrame \<Rightarrow> byte list \<Rightarrow> (S7DataFrame \<times> S7Variable list) option" where
  "s7_ParseVariableValue df data =
     do { (vps, vvs) \<leftarrow> s7_parse_variables data (sf_Variables df);
          Some (df\<lparr>sf_Variables := vps\<rparr>, vvs) }"

section \<open>One frame\<close>

definition s7_exchange :: "Conn \<Rightarrow> S7DataFrame \<Rightarrow> Conn \<times> S7DataFrame \<times> (s7_error + byte list) option" where
  "s7_exchange messenger df =
     (let (messenger, response, res) =
            TcpClient_AskAtLeast messenger (sf_DataFrame df) (sf_ResponseDataFrame df) 19;
          df = df\<lparr>sf_ResponseDataFrame := response\<rparr>
      in (messenger, df,
          case res of
            Inl _ \<Rightarrow> Some (Inl S7BadConn)
          | Inr least \<Rightarrow> map_option (\<lambda>r. case r of Inl _ \<Rightarrow> Inl S7ServerBadResp | Inr buf \<Rightarrow> Inr buf)
                          (s7_ValidateMessage least df)))"

datatype s7_message_error = S7Error s7_error | S7DialError

text \<open>The loop of \<open>retry\<close> with \<open>n\<close> rounds left. After a bad connection \<open>i\<close> is decremented, so that round
  does not count; the loop ends because the list of future dials does, with a dial that fails.\<close>

function s7_retry_rounds ::
  "nat \<Rightarrow> Conn \<Rightarrow> Conn option list \<Rightarrow> S7DataFrame \<Rightarrow>
   Conn \<times> Conn option list \<times> S7DataFrame \<times> (s7_message_error + byte list) option" where
  "s7_retry_rounds 0 messenger dials df = (messenger, dials, df, Some (Inl (S7Error S7ManyRetry)))"
| "s7_retry_rounds (Suc n) messenger dials df =
     (let (messenger, df, res) = s7_exchange messenger df
      in case res of
           None \<Rightarrow> (messenger, dials, df, None)
         | Some (Inr buf) \<Rightarrow> (messenger, dials, df, Some (Inr buf))
         | Some (Inl e) \<Rightarrow>
             if e = S7BadConn then
               let messenger = Messenger_Close messenger
               in case dials of
                    Some newMessenger # rest \<Rightarrow>
                      s7_retry_rounds (Suc n) (Messenger_Reset messenger newMessenger) rest df
                  | _ \<Rightarrow> (messenger, tl dials, df, Some (Inl S7DialError))
             else s7_retry_rounds n messenger dials df)"
  by pat_completeness auto
termination by (relation "measure (\<lambda>(n, _, dials, _). n + length dials)") auto

definition s7_retry ::
  "Conn \<Rightarrow> Conn option list \<Rightarrow> S7DataFrame \<Rightarrow>
   Conn \<times> Conn option list \<times> S7DataFrame \<times> (s7_message_error + byte list) option" where
  "s7_retry messenger dials df = s7_retry_rounds 3 messenger dials df"

record S7ParseResult =
  spr_VariableSlice :: "S7Variable list"
  spr_Err :: "s7_message_error list"

definition s7_message_report ::
  "S7DataFrame \<Rightarrow> (s7_message_error + byte list) option \<Rightarrow> S7DataFrame \<times> S7ParseResult option" where
  "s7_message_report df res =
     (case res of
        None \<Rightarrow> (df, None)
      | Some (Inl err) \<Rightarrow> (df, Some \<lparr>spr_VariableSlice = [], spr_Err = [err]\<rparr>)
      | Some (Inr buf) \<Rightarrow>
          (case do { data \<leftarrow> slice_from buf 21; s7_ParseVariableValue df data } of
             None \<Rightarrow> (df, None)
           | Some (df, vvs) \<Rightarrow> (df, Some \<lparr>spr_VariableSlice = vvs, spr_Err = []\<rparr>)))"

definition s7_message ::
  "Conn option \<Rightarrow> Conn option list \<Rightarrow> S7DataFrame \<Rightarrow>
   Conn option \<times> Conn option list \<times> S7DataFrame \<times> S7ParseResult option" where
  "s7_message got dials dataFrame =
     (case (case got of Some c \<Rightarrow> Some (c, dials)
            | None \<Rightarrow> (case dials of Some c # rest \<Rightarrow> Some (c, rest) | _ \<Rightarrow> None)) of
        None \<Rightarrow> (got, tl dials, dataFrame, None)
      | Some (messenger, dials) \<Rightarrow>
          let (messenger, dials, df, res) = s7_retry messenger dials dataFrame;
              (df, report) = s7_message_report df res
          in (if got = None then None else Some messenger, dials, df, report))"

section \<open>One poll\<close>

definition s7_roll_step ::
  "S7Variable list \<times> s7_message_error list \<Rightarrow> S7ParseResult \<Rightarrow> S7Variable list \<times> s7_message_error list" where
  "s7_roll_step acc pvr =
     (if spr_Err pvr \<noteq> [] then (fst acc, snd acc @ spr_Err pvr)
      else (fst acc @ spr_VariableSlice pvr, snd acc))"

definition s7_rollVariable :: "S7ParseResult list \<Rightarrow> S7ParseResult" where
  "s7_rollVariable results =
     (let (rvs, errs) = foldl s7_roll_step ([], []) results
      in \<lparr>spr_VariableSlice = rvs, spr_Err = errs\<rparr>)"

text \<open>A poll with the messengers and dials every frame gets; the results arrive in any order.\<close>

definition s7_poll_results :: "(S7DataFrame \<times> Conn option \<times> Conn option list) list \<Rightarrow> S7ParseResult list" where
  "s7_poll_results jobs =
     List.map_filter (\<lambda>(df, got, dials). snd (snd (snd (s7_message got dials df)))) jobs"

inductive s7_poll :: "'c S7Broker \<Rightarrow> (S7DataFrame \<times> Conn option \<times> Conn option list) list \<Rightarrow> S7ParseResult \<Rightarrow> bool"
  for broker jobs where
  s7_poll_report: "mset (map fst jobs) = mset (concat (map snd (sb_StoreAddressDataFrameMap broker))) \<Longrightarrow>
    mset arrived = mset (s7_poll_results jobs) \<Longrightarrow>
    s7_poll broker jobs (s7_rollVariable arrived)"

section \<open>Writing\<close>

record ParameterData =
  pd_ParameterItem :: "byte list"
  pd_DataItem :: "byte list"

text \<open>The length parameter is overwritten with 32.\<close>

definition newS7COMMWriteDataItem :: "byte \<Rightarrow> u16 \<Rightarrow> byte list \<Rightarrow> byte list" where
  "newS7COMMWriteDataItem transportSize len data =
     (let len = 32 in [0x00, transportSize] @ Uint16ToBytesBigEndian len @ data)"

text \<open>The data bytes of a value. With a rate, the value is asserted to be a \<^verbatim>\<open>float64\<close>, which \<open>DeliverAction\<close>
  stores for \<open>FLOAT64\<close> only; a type without a case has no data.\<close>

definition s7_scaled :: "f64 \<Rightarrow> GoValue \<Rightarrow> (f64 \<Rightarrow> 'a) \<Rightarrow> 'a option" where
  "s7_scaled rate value conv = (case value of VFloat64 x \<Rightarrow> Some (conv (f64_mul x rate)) | _ \<Rightarrow> None)"

definition s7_action_data :: "float_oor \<Rightarrow> f64 \<Rightarrow> DataType \<Rightarrow> GoValue \<Rightarrow> byte list option" where
  "s7_action_data oor rate dt value =
     (case dt of
        BOOL \<Rightarrow> (case value of VBool b \<Rightarrow> Some (Uint16ToBytesBigEndian (if b then 1 else 0)) | _ \<Rightarrow> None)
      | INT16 \<Rightarrow> map_option Uint16ToBytesBigEndian
          (if rated rate then s7_scaled rate value (\<lambda>x. word_of_int (f64_to_int oor (- 0x8000) 0x7FFF x))
           else case value of VInt16 w \<Rightarrow> Some w | _ \<Rightarrow> None)
      | UINT16 \<Rightarrow> map_option Uint16ToBytesBigEndian
          (if rated rate then s7_scaled rate value (\<lambda>x. word_of_int (f64_to_int oor 0 0xFFFF x))
           else case value of VUint16 w \<Rightarrow> Some w | _ \<Rightarrow> None)
      | INT32 \<Rightarrow> map_option Uint32ToBytesBigEndian
          (if rated rate then s7_scaled rate value (\<lambda>x. word_of_int (f64_to_int oor (- 0x80000000) 0x7FFFFFFF x))
           else case value of VInt32 w \<Rightarrow> Some w | _ \<Rightarrow> None)
      | INT64 \<Rightarrow> map_option Uint64ToBytesBigEndian
          (if rated rate
           then s7_scaled rate value (\<lambda>x. word_of_int (f64_to_int oor (- 0x8000000000000000) 0x7FFFFFFFFFFFFFFF x))
           else case value of VInt64 w \<Rightarrow> Some w | _ \<Rightarrow> None)
      | FLOAT32 \<Rightarrow> map_option Float32ToBytesBigEndian
          (if rated rate then s7_scaled rate value f32_of_f64 else case value of VFloat32 x \<Rightarrow> Some x | _ \<Rightarrow> None)
      | FLOAT64 \<Rightarrow> map_option Float64ToBytesBigEndian
          (if rated rate then s7_scaled rate value id else case value of VFloat64 x \<Rightarrow> Some x | _ \<Rightarrow> None)
      | _ \<Rightarrow> Some [])"

text \<open>The loop of \<open>generateActionParameterDataItem\<close>; \<open>transportSize\<close> is declared outside of it.\<close>

primrec s7_action_items :: "float_oor \<Rightarrow> byte \<Rightarrow> S7Variable list \<Rightarrow> ParameterData list option" where
  "s7_action_items oor transportSize [] = Some []"
| "s7_action_items oor transportSize (variable # action) =
     do { let transportSize = (if sv_DataType variable = BOOL then 1 else transportSize);
          dataByte \<leftarrow> s7_action_data oor (sv_Rate variable) (sv_DataType variable) (sv_Value variable);
          (zone, blockSize, startAddress, bitAddress) \<leftarrow> ParseVariableAddress variable;
          let transportSize = (if transportSize = 0 then StoreAreaTransportSize zone else transportSize);
          let pBytes = newS7COMMReadParameterItem transportSize (DataRequestLength variable zone) (ucast blockSize)
                (StoreAreaCode zone) startAddress bitAddress;
          let dBytes = newS7COMMWriteDataItem transportSize (DataTypeBitLength variable) dataByte;
          rest \<leftarrow> s7_action_items oor transportSize action;
          Some (\<lparr>pd_ParameterItem = pBytes, pd_DataItem = dBytes\<rparr> # rest) }"

definition generateActionParameterDataItem :: "float_oor \<Rightarrow> S7Variable list \<Rightarrow> ParameterData list option" where
  "generateActionParameterDataItem oor action = s7_action_items oor 0 action"

definition s7_action_frame :: "ParameterData \<Rightarrow> byte list" where
  "s7_action_frame pib =
     (let maxBytes = 7 + 10 + 2 + 1 * 12 + length (pd_DataItem pib)
      in [0x03, 0x00, 0x00, of_nat maxBytes] @ [0x02, 0xf0, 0x80] @ [0x32, 0x01, 0x00, 0x00, 0x00, 0x01] @
         Uint16ToBytesBigEndian (2 + 1 * 12) @ Uint16ToBytesBigEndian (of_nat (length (pd_DataItem pib))) @
         [5, 1] @ pd_ParameterItem pib @ pd_DataItem pib)"

definition s7_action_variable :: "S7Variable \<Rightarrow> GoValue \<Rightarrow> S7Variable" where
  "s7_action_variable v value = v\<lparr>sv_DefaultValue := VNil, sv_Value := value\<rparr>"

primrec s7_collect_actions ::
  "float_oor \<Rightarrow> S7Device \<Rightarrow> (string \<times> GoValue) list \<Rightarrow> (responseError + S7Variable list) option" where
  "s7_collect_actions oor device [] = Some (Inr [])"
| "s7_collect_actions oor device (entry # obj) =
     do { variableValue \<leftarrow> S7_GetVariable device (fst entry);
          case action_value oor (fst entry) (sv_DataType variableValue) (snd entry) of
            Inl e \<Rightarrow> Some (Inl e)
          | Inr value \<Rightarrow>
              map_option (map_sum id ((#) (s7_action_variable variableValue value)))
                (s7_collect_actions oor device obj) }"

definition s7_send_action :: "Conn \<Rightarrow> byte list \<Rightarrow> Conn \<times> s7_error option option" where
  "s7_send_action messenger frame =
     (let (messenger, rp, res) = TcpClient_AskAtLeast messenger frame (replicate 22 0) 19
      in (messenger,
          case res of
            Inl _ \<Rightarrow> Some (Some S7BadConn)
          | Inr _ \<Rightarrow> do { code \<leftarrow> index_at rp 21;
                          Some (if code \<noteq> 255 then Some S7CommandFailed else None) }))"

primrec s7_send_actions :: "Conn \<Rightarrow> byte list list \<Rightarrow> s7_error list \<Rightarrow> Conn \<times> s7_error list option" where
  "s7_send_actions messenger [] errs = (messenger, Some errs)"
| "s7_send_actions messenger (frame # frames) errs =
     (let (messenger, res) = s7_send_action messenger frame
      in case res of
           None \<Rightarrow> (messenger, None)
         | Some err \<Rightarrow> s7_send_actions messenger frames
             (case err of None \<Rightarrow> errs | Some e \<Rightarrow> errs @ [e]))"

datatype s7_deliver_error = S7DeliverInvalid responseError | S7DeliverDial | S7DeliverErrors "s7_error list"

definition S7_DeliverAction ::
  "float_oor \<Rightarrow> 'c S7Broker \<Rightarrow> Conn option \<Rightarrow> Conn option \<Rightarrow> (string \<times> GoValue) list \<Rightarrow>
   Conn option \<times> (s7_deliver_error + unit) option" where
  "S7_DeliverAction oor broker got dial obj =
     (case s7_collect_actions oor (sb_Device broker) obj of
        None \<Rightarrow> (got, None)
      | Some (Inl e) \<Rightarrow> (got, Some (Inl (S7DeliverInvalid e)))
      | Some (Inr action) \<Rightarrow>
          (case generateActionParameterDataItem oor action of
             None \<Rightarrow> (got, None)
           | Some pibs \<Rightarrow>
               (case (case got of Some c \<Rightarrow> Some c | None \<Rightarrow> dial) of
                  None \<Rightarrow> (None, Some (Inl S7DeliverDial))
                | Some messenger \<Rightarrow>
                    let (messenger, errs) = s7_send_actions messenger (map s7_action_frame pibs) []
                    in (Some messenger,
                        map_option (\<lambda>es. if es \<noteq> [] then Inl (S7DeliverErrors es) else Inr ()) errs))))"

end
