(* ===== verification/S7Spec.thy ===== *)
theory S7Spec
  imports S7Broker
begin

text \<open>
  What the S7 half of the gateway promises: a specification of the controller on the other side of the
  connection (how it reads a request and what it answers, from the S7 communication protocol), and the
  theorems that the frames \<open>NewBroker\<close> plans are read by it as they are meant, and that a poll reports
  the contents of its memory.
\<close>

section \<open>The controller\<close>

text \<open>An item of a read request: transport size, number of elements, data block, area, and the address
  in bits.\<close>

type_synonym s7_request_item = "byte \<times> u16 \<times> u16 \<times> byte \<times> nat"

definition server_item :: "byte list \<Rightarrow> s7_request_item option" where
  "server_item bs =
     (if length bs = 12 \<and> take 3 bs = [0x12, 0x0a, 0x10]
      then Some (bs ! 3, be_word (bs ! 4) (bs ! 5), be_word (bs ! 6) (bs ! 7), bs ! 8,
                 65536 * unat (bs ! 9) + 256 * unat (bs ! 10) + unat (bs ! 11))
      else None)"

primrec server_items :: "nat \<Rightarrow> byte list \<Rightarrow> s7_request_item list option" where
  "server_items 0 bs = (if bs = [] then Some [] else None)"
| "server_items (Suc n) bs =
     do { item \<leftarrow> server_item (take 12 bs); items \<leftarrow> server_items n (drop 12 bs); Some (item # items) }"

text \<open>A read request: the length in the TPKT header and the length of the parameter part are right, the
  function is 4, and the items follow.\<close>

definition s7_server_request :: "byte list \<Rightarrow> s7_request_item list option" where
  "s7_server_request msg =
     (if 19 \<le> length msg \<and> unat (be_word (msg ! 2) (msg ! 3)) = length msg \<and>
         unat (be_word (msg ! 13) (msg ! 14)) = length msg - 17 \<and> msg ! 17 = 4
      then server_items (unat (msg ! 18)) (drop 19 msg) else None)"

text \<open>The memory of the controller: a byte for every area, data block and byte address. An answer repeats
  the items in order; an item of an odd number of bytes is filled up to an even one, unless it is the
  last.\<close>

type_synonym s7_memory = "byte \<Rightarrow> u16 \<Rightarrow> nat \<Rightarrow> byte"

definition item_bytes :: "s7_memory \<Rightarrow> s7_request_item \<Rightarrow> byte list" where
  "item_bytes mem = (\<lambda>(ts, len, db, area, addr).
     map (mem area db) [addr div 8..<addr div 8 + (if ts = 4 then 2 * unat len else unat len)])"

definition s7_answer :: "s7_memory \<Rightarrow> s7_request_item \<Rightarrow> byte list" where
  "s7_answer mem item =
     (let bs = item_bytes mem item
      in [0xff, 4] @ Uint16ToBytesBigEndian (of_nat (8 * length bs)) @ bs)"

fun s7_answers :: "s7_memory \<Rightarrow> s7_request_item list \<Rightarrow> byte list" where
  "s7_answers mem [] = []"
| "s7_answers mem [item] = s7_answer mem item"
| "s7_answers mem (item # items) =
     s7_answer mem item @ (if odd (length (item_bytes mem item)) then [0] else []) @ s7_answers mem items"

definition s7_reply :: "s7_memory \<Rightarrow> s7_request_item list \<Rightarrow> byte list" where
  "s7_reply mem items =
     (let data = s7_answers mem items
      in [3, 0] @ Uint16ToBytesBigEndian (of_nat (21 + length data)) @ [2, 0xf0, 0x80] @
         [0x32, 3, 0, 0, 0, 1, 0, 2] @ Uint16ToBytesBigEndian (of_nat (length data)) @ [0, 0] @
         [4, of_nat (length items)] @ data)"

section \<open>A request is read as it was planned\<close>

text \<open>What the item for a variable asks for, for addresses that fit the three bytes of the item.\<close>

definition asked_item :: "S7StoreArea \<Rightarrow> S7Variable \<Rightarrow> s7_request_item" where
  "asked_item key v =
     (StoreAreaTransportSize key, DataRequestLength v key, ucast (fst (s7_place v)), StoreAreaCode key,
      8 * unat (snd (s7_place v)) + unat (s7_bit v))"

definition addressable :: "S7Variable \<Rightarrow> bool" where
  "addressable v \<longleftrightarrow> unat (snd (s7_place v)) < 2 ^ 21 \<and> unat (s7_bit v) < 8"

lemma length_item [simp]: "length (newS7COMMReadParameterItem ts len db zone a b) = 12"
  by (simp add: newS7COMMReadParameterItem_def Uint16ToBytesBigEndian_eq)

lemma server_item_parameter:
  assumes "unat a < 2 ^ 21" "unat b < 8"
  shows "server_item (newS7COMMReadParameterItem ts len db zone a b) =
    Some (ts, len, db, zone, 8 * unat a + unat b)"
proof -
  let ?p = "push_bit 3 a"
  have p: "unat ?p = 8 * unat a" using assms(1) by (simp add: push_bit_eq_mult unat_word_ariths)
  have hi: "unat (ucast (?p div 256 div 256) :: byte) = 8 * unat a div 65536"
  proof -
    have "8 * unat a div 65536 < 256" using assms(1) by simp
    then show ?thesis by (simp add: unsigned_ucast_eq unat_div p div_mult2_eq [symmetric] take_bit_eq_mod)
  qed
  have mid: "unat (ucast (?p div 256 mod 256) :: byte) = 8 * unat a div 256 mod 256"
    by (simp add: unsigned_ucast_eq unat_div unat_mod p take_bit_eq_mod)
  have lo: "unat (ucast (?p mod 256) + b) = 8 * unat a mod 256 + unat b"
  proof -
    have "8 * unat a mod 256 = 8 * (unat a mod 32)" by (simp add: mult_mod_right)
    then have "8 * unat a mod 256 + unat b < 256" using assms(2) by simp
    then show ?thesis by (simp add: unsigned_ucast_eq unat_mod p take_bit_eq_mod unat_word_ariths)
  qed
  have join: "65536 * q + 256 * r + (m + y) = x + y" if "256 * (256 * q + r) + m = x" for q r m x y :: nat
    using that by simp
  have whole: "65536 * (x div 65536) + 256 * (x div 256 mod 256) + (x mod 256 + y) = x + y" for x y :: nat
  proof -
    have *: "x div 65536 = x div 256 div 256" by (simp add: div_mult2_eq [symmetric])
    show ?thesis unfolding * by (rule join) (simp only: mult_div_mod_eq)
  qed
  show ?thesis
    using whole [of "8 * unat a" "unat b"]
    by (simp add: server_item_def newS7COMMReadParameterItem_def Uint16ToBytesBigEndian_eq hi mid lo)
qed

lemma server_items_of:
  assumes "\<forall>h \<in> set hs. addressable h"
  shows "server_items (length hs) (concat (map it_RequestData (items_of key hs off))) = Some (map (asked_item key) hs)"
  using assms
  by (induction key hs off rule: items_of.induct)
    (simp_all add: item_of_def server_item_parameter addressable_def asked_item_def)

lemma length_requests: "length (concat (map it_RequestData (items_of key hs off))) = 12 * length hs"
  by (induction key hs off rule: items_of.induct) (simp_all add: item_of_def)

lemma unat_be_word_low: "unat (be_word 0 b) = unat b"
  by (simp add: be_word_def unsigned_ucast_eq take_bit_nat_eq_self order.strict_trans2 [OF unsigned_less])

lemma frame_request_understood:
  assumes "\<forall>h \<in> set hs. addressable h" "length hs \<le> 19"
  shows "s7_server_request (sf_DataFrame (newS7DataFrame key vps (items_of key hs 0) len pdu)) =
    Some (map (asked_item key) hs)"
  using assms server_items_of [OF assms(1), of key 0]
  by (simp add: s7_server_request_def newS7DataFrame_def Let_def Uint16ToBytesBigEndian_eq length_requests
      unat_be_word_low unat_of_nat take_bit_eq_mod unat_word_ariths)

section \<open>The answer holds the memory of the variables\<close>

definition place_bytes :: "s7_memory \<Rightarrow> S7StoreArea \<Rightarrow> S7Variable \<Rightarrow> byte list" where
  "place_bytes mem key v =
     map (mem (StoreAreaCode key) (ucast (fst (s7_place v))))
       [unat (snd (s7_place v))..<unat (snd (s7_place v)) + unat (DataResponseLength v key)]"

lemma length_place_bytes [simp]: "length (place_bytes mem key v) = unat (DataResponseLength v key)"
  by (simp add: place_bytes_def)

lemma requested_bytes:
  "(if StoreAreaTransportSize key = 4 then 2 * unat (DataRequestLength v key) else unat (DataRequestLength v key)) =
   unat (DataResponseLength v key)"
  by (cases key; cases "sv_DataType v") (simp_all add: DataRequestLength_def DataResponseLength_def)

lemma item_bytes_asked: "unat (s7_bit v) < 8 \<Longrightarrow> item_bytes mem (asked_item key v) = place_bytes mem key v"
  using requested_bytes [of key v] by (simp add: item_bytes_def asked_item_def place_bytes_def)

lemma answer_length_eq: "answer_length key v = 4 + int (unat (DataResponseLength v key))"
  by (cases key; cases "sv_DataType v") (simp_all add: answer_length_def DataResponseLength_def)

lemma length_s7_answer: "unat (s7_bit v) < 8 \<Longrightarrow> int (length (s7_answer mem (asked_item key v))) = answer_length key v"
  by (simp add: s7_answer_def Let_def item_bytes_asked answer_length_eq Uint16ToBytesBigEndian_eq)

lemma s7_answers_even:
  assumes "\<forall>h \<in> set hs. unat (s7_bit h) < 8 \<and> even (unat (DataResponseLength h key))"
  shows "s7_answers mem (map (asked_item key) hs) = concat (map (\<lambda>h. s7_answer mem (asked_item key h)) hs)"
  using assms
proof (induction hs)
  case (Cons h hs)
  then show ?case by (cases hs) (simp_all add: item_bytes_asked)
qed simp

lemma length_answers:
  assumes "\<forall>h \<in> set hs. unat (s7_bit h) < 8"
  shows "int (length (concat (map (\<lambda>h. s7_answer mem (asked_item key h)) hs))) = answer_offset key hs (length hs)"
  using assms by (induction hs) (simp_all add: answer_offset_def length_s7_answer)

lemma drop_answers:
  assumes "\<forall>h \<in> set hs. unat (s7_bit h) < 8" "i < length hs"
  shows "\<exists>r. drop (nat (answer_offset key hs i)) (concat (map (\<lambda>h. s7_answer mem (asked_item key h)) hs)) =
    s7_answer mem (asked_item key (hs ! i)) @ r"
proof -
  let ?f = "\<lambda>h. s7_answer mem (asked_item key h)"
  have "int (length (concat (map ?f (take i hs)))) = answer_offset key (take i hs) (length (take i hs))"
    using assms(1) by (intro length_answers) (auto dest: in_set_takeD)
  then have "length (concat (map ?f (take i hs))) = nat (answer_offset key hs i)"
    using assms(2) by (simp add: answer_offset_def min_def)
  moreover have "concat (map ?f hs) = concat (map ?f (take i hs)) @ ?f (hs ! i) @ concat (map ?f (drop (Suc i) hs))"
    using assms(2) by (subst (1) id_take_nth_drop [of i hs]) simp_all
  ultimately show ?thesis by (metis append_eq_conv_conj)
qed

text \<open>The value of a variable is decoded from its bytes alone.\<close>

definition s7_readable :: "S7Variable \<Rightarrow> bool" where
  "s7_readable v \<longleftrightarrow> \<not> rated (sv_Rate v) \<or> sv_DataType v \<in> {BOOL, FLOAT64, STRING, NUMBER}"

definition s7_memory_value :: "s7_memory \<Rightarrow> S7StoreArea \<Rightarrow> S7Variable \<Rightarrow> GoValue option" where
  "s7_memory_value mem key v = s7_variable_value v (s7_bit v) (replicate 4 0 @ place_bytes mem key v)"

lemma response_length_size:
  "0 < unat (DataResponseLength v key)"
  "sv_DataType v \<in> {UINT16, INT16} \<Longrightarrow> 2 \<le> unat (DataResponseLength v key)"
  "sv_DataType v \<in> {INT32, FLOAT32} \<Longrightarrow> 4 \<le> unat (DataResponseLength v key)"
  "sv_DataType v \<in> {INT64, FLOAT64} \<Longrightarrow> 8 \<le> unat (DataResponseLength v key)"
  by (auto simp: DataResponseLength_def split: DataType.splits)

lemma s7_value_prefix:
  assumes "length hdr = 4" "length bs = unat (DataResponseLength v key)"
  shows "s7_variable_value v b (hdr @ bs @ r) = s7_variable_value v b (replicate 4 0 @ bs)"
proof -
  note len = response_length_size [of v key, folded assms(2)]
  have drop4: "slice_from (hdr @ bs @ r) 4 = Some (bs @ r)" "slice_from (replicate 4 0 @ bs) 4 = Some bs"
    using assms(1) by (simp_all add: slice_from_def)
  have first: "index_at (hdr @ bs @ r) 4 = index_at (replicate 4 0 @ bs) 4"
    using assms(1) len(1) by (simp add: index_at_def nth_append)
  have w: "2 \<le> length bs \<Longrightarrow> ParseUint16BigEndian (bs @ r) = ParseUint16BigEndian bs"
    "4 \<le> length bs \<Longrightarrow> ParseUint32BigEndian (bs @ r) = ParseUint32BigEndian bs"
    "8 \<le> length bs \<Longrightarrow> ParseUint64BigEndian (bs @ r) = ParseUint64BigEndian bs"
    "4 \<le> length bs \<Longrightarrow> ParseFloat32BigEndian (bs @ r) = ParseFloat32BigEndian bs"
    "8 \<le> length bs \<Longrightarrow> ParseFloat64BigEndian (bs @ r) = ParseFloat64BigEndian bs"
    using be16.dec_prefix [of "bs @ r"] be16.dec_prefix [of bs] be32.dec_prefix [of "bs @ r"] be32.dec_prefix [of bs]
      be64.dec_prefix [of "bs @ r"] be64.dec_prefix [of bs]
      bef32.renamed.dec_prefix [of "bs @ r"] bef32.renamed.dec_prefix [of bs]
      bef64.renamed.dec_prefix [of "bs @ r"] bef64.renamed.dec_prefix [of bs] by simp_all
  show ?thesis
    unfolding s7_variable_value_def drop4 first
    using len w by (cases "sv_DataType v") simp_all
qed

lemma s7_memory_value_total:
  assumes "s7_readable v" "sv_DataType v \<notin> {STRING, NUMBER}"
  shows "\<exists>x. s7_memory_value mem key v = Some x"
proof -
  let ?bs = "place_bytes mem key v"
  have "\<exists>w. ParseUint16BigEndian ?bs = Some w" if "2 \<le> length ?bs" using that be16.dec_total by blast
  moreover have "\<exists>w. ParseUint32BigEndian ?bs = Some w" "\<exists>w. ParseFloat32BigEndian ?bs = Some w" if "4 \<le> length ?bs"
    using that be32.dec_total bef32.renamed.dec_total by blast+
  moreover have "\<exists>w. ParseUint64BigEndian ?bs = Some w" "\<exists>w. ParseFloat64BigEndian ?bs = Some w" if "8 \<le> length ?bs"
    using that be64.dec_total bef64.renamed.dec_total by blast+
  moreover have "slice_from (replicate 4 0 @ ?bs) 4 = Some ?bs" by (simp add: slice_from_def)
  moreover note response_length_size [of v key]
  ultimately show ?thesis
    using assms
    by (cases "sv_DataType v")
      (auto simp: s7_memory_value_def s7_variable_value_def index_at_def s7_readable_def)
qed

definition s7_reading :: "s7_memory \<Rightarrow> S7StoreArea \<Rightarrow> S7Variable \<Rightarrow> S7Variable" where
  "s7_reading mem key v =
     s7_reported (sv_SetValue (if sv_DataType v \<in> {STRING, NUMBER} then VNil
       else the (s7_memory_value mem key v)) v)"

text \<open>The conditions under which a group of variables of one area can be read: the addresses fit, the
  variables that share a byte have answers of the same length, and the answers have even lengths (which
  excludes single bytes outside of data blocks, see below).\<close>

definition s7_area_ok :: "S7StoreArea \<Rightarrow> S7Variable list \<Rightarrow> bool" where
  "s7_area_ok key vs \<longleftrightarrow>
     (\<forall>v \<in> set vs. addressable v \<and> s7_readable v \<and> even (unat (DataResponseLength v key)) \<and>
        (\<forall>w \<in> set vs. s7_place v = s7_place w \<longrightarrow> DataResponseLength v key = DataResponseLength w key))"

lemma s7_parse_value_memory:
  assumes ok: "s7_area_ok key vs" "set hs \<subseteq> set vs" "svp_Variable vp \<in> set vs" and vp: "parse_ok key hs vp"
    and small: "answer_offset key hs (length hs) < 2 ^ 64"
  shows "s7_parse_value (s7_answers mem (map (asked_item key) hs)) vp =
    Some (sv_Value (s7_reading mem key (svp_Variable vp)))"
proof (cases "sv_DataType (svp_Variable vp) \<in> {STRING, NUMBER}")
  case True
  then show ?thesis by (auto simp: s7_parse_value_def s7_reading_def s7_reported_def sv_SetValue_def)
next
  case False
  let ?v = "svp_Variable vp"
  from vp obtain i where i: "i < length hs" "s7_place (hs ! i) = s7_place ?v"
    and start: "svp_StartAddress vp = word_of_int (answer_offset key hs i)"
    and bit: "svp_BitAddressOrLength vp = s7_bit ?v" by (auto simp: parse_ok_def)
  have hs: "\<forall>h \<in> set hs. unat (s7_bit h) < 8" "\<forall>h \<in> set hs. even (unat (DataResponseLength h key))"
    using ok by (auto simp: s7_area_ok_def addressable_def)
  have "hs ! i \<in> set vs" using i(1) ok(2) by auto
  then have same: "DataResponseLength (hs ! i) key = DataResponseLength ?v key"
    using ok(1,3) i(2) unfolding s7_area_ok_def by blast
  then have bytes: "place_bytes mem key (hs ! i) = place_bytes mem key ?v" using i(2) by (simp add: place_bytes_def)
  have nonneg: "0 \<le> answer_offset key hs i" "answer_offset key hs i \<le> answer_offset key hs (length hs)"
  proof -
    have "0 \<le> sum_list (map (answer_length key) ks)" for ks by (induction ks) (auto simp: answer_length_eq)
    moreover have "answer_offset key hs (length hs) = answer_offset key hs i + sum_list (map (answer_length key) (drop i hs))"
      by (simp add: answer_offset_def flip: sum_list_append map_append)
    ultimately show "0 \<le> answer_offset key hs i" "answer_offset key hs i \<le> answer_offset key hs (length hs)"
      by (simp_all add: answer_offset_def)
  qed
  then have at: "unat (svp_StartAddress vp) = nat (answer_offset key hs i)"
    using small by (simp add: start unat_eq_nat_uint uint_word_of_int take_bit_int_eq_self)
  let ?data = "s7_answers mem (map (asked_item key) hs)"
  have data: "?data = concat (map (\<lambda>h. s7_answer mem (asked_item key h)) hs)"
    using hs by (intro s7_answers_even) auto
  obtain r where r: "drop (nat (answer_offset key hs i)) ?data = s7_answer mem (asked_item key (hs ! i)) @ r"
    using drop_answers [OF hs(1) i(1), of key mem] data by auto
  have "nat (answer_offset key hs i) \<le> length ?data"
    using nonneg length_answers [OF hs(1), of mem key] data by simp
  then have "slice_from ?data (unat (svp_StartAddress vp)) = Some (s7_answer mem (asked_item key (hs ! i)) @ r)"
    by (simp add: slice_from_def at r)
  moreover have "s7_answer mem (asked_item key (hs ! i)) @ r =
      ([0xff, 4] @ Uint16ToBytesBigEndian (of_nat (8 * length (place_bytes mem key ?v)))) @ place_bytes mem key ?v @ r"
    using hs(1) i(1) by (simp add: s7_answer_def Let_def item_bytes_asked bytes)
  moreover have "s7_variable_value ?v (s7_bit ?v) \<dots> = s7_memory_value mem key ?v"
    by (subst s7_value_prefix [where key = key]) (simp_all add: s7_memory_value_def Uint16ToBytesBigEndian_eq)
  moreover obtain x where "s7_memory_value mem key ?v = Some x"
    using s7_memory_value_total [of ?v mem key] ok False by (auto simp: s7_area_ok_def)
  ultimately show ?thesis
    using False by (simp add: s7_parse_value_def bit s7_reading_def s7_reported_def sv_SetValue_def)
qed

lemma s7_parse_variables_memory:
  assumes "\<forall>vp \<in> set vps. s7_parse_value data vp = Some (sv_Value (s7_reading mem key (svp_Variable vp)))"
  shows "\<exists>vps'. s7_parse_variables data vps = Some (vps', map (\<lambda>vp. s7_reading mem key (svp_Variable vp)) vps)"
  using assms
  by (induction vps) (auto simp: s7_reading_def s7_reported_def sv_SetValue_def Let_def)

section \<open>A frame is read from the memory\<close>

text \<open>A connection that works and on which the answer to the frame arrives in one piece.\<close>

definition s7_honest :: "s7_memory \<Rightarrow> S7DataFrame \<Rightarrow> Conn option \<Rightarrow> bool" where
  "s7_honest mem df got \<longleftrightarrow>
     (\<exists>c items evs. got = Some c \<and> \<not> cn_writeFails c \<and> \<not> cn_deadlineFails c \<and> \<not> cn_closed c \<and>
        s7_server_request (sf_DataFrame df) = Some items \<and> cn_input c = Portion (s7_reply mem items) # evs)"

lemma tunnel_ask_whole:
  assumes "\<not> cn_writeFails c" "\<not> cn_deadlineFails c" "\<not> cn_closed c" "cn_input c = Portion r # evs"
    and "m \<le> length r" "0 < m" "length r \<le> length response"
  shows "TcpClient_AskAtLeast c request response m =
    (c\<lparr>cn_input := evs, cn_output := cn_output c @ [request]\<rparr>, r @ drop (length r) response, Inr (length r))"
  using assms by (simp add: TcpClient_AskAtLeast_def io_ReadAtLeast_def Let_def read_at_least_enough min_absorb1)

text \<open>The limits on the PDU under which every frame and every answer has the announced length.\<close>

definition pdu_ok :: "u16 \<Rightarrow> bool" where
  "pdu_ok pdu \<longleftrightarrow> 0 < unat (maxItemPerDataFrame pdu) \<and> unat (maxItemPerDataFrame pdu) \<le> 19 \<and>
     21 + 12 * unat (maxItemPerDataFrame pdu) \<le> unat pdu"

lemma answer_offset_small: "answer_offset key hs n \<le> 12 * int (length hs)"
proof -
  have "sum_list (map (answer_length key) ks) \<le> 12 * int (length ks)" for ks
    by (induction ks) (auto simp: answer_length_eq DataResponseLength_def split: DataType.splits)
  then have "answer_offset key hs n \<le> 12 * int (length (take n hs))" unfolding answer_offset_def .
  also have "\<dots> \<le> 12 * int (length hs)" by simp
  finally show ?thesis .
qed

lemma s7_message_memory:
  assumes frame: "s7_frame_ok key pdu df" and pdu: "pdu_ok pdu" and ok: "s7_area_ok key vs"
    and vs: "set (map svp_Variable (sf_Variables df)) \<subseteq> set vs" and honest: "s7_honest mem df got"
  shows "snd (snd (snd (s7_message got dials df))) =
    Some \<lparr>spr_VariableSlice = map (s7_reading mem key) (map svp_Variable (sf_Variables df)), spr_Err = []\<rparr>"
proof -
  obtain hs where hs: "hs \<noteq> []" "few_heads pdu hs" "set hs \<subseteq> set vs"
    and df: "df = newS7DataFrame key (sf_Variables df) (items_of key hs 0) (answer_offset key hs (length hs)) pdu"
    and parses: "\<forall>vp \<in> set (sf_Variables df). parse_ok key hs vp"
    using frame vs by (fastforce simp: s7_frame_ok_def)
  obtain c items evs where c: "got = Some c" "\<not> cn_writeFails c" "\<not> cn_deadlineFails c" "\<not> cn_closed c"
    and items: "s7_server_request (sf_DataFrame df) = Some items" and input: "cn_input c = Portion (s7_reply mem items) # evs"
    using honest by (auto simp: s7_honest_def)
  have count: "length hs \<le> 19" "21 + 12 * length hs \<le> unat pdu"
    using hs(2) pdu by (auto simp: few_heads_def pdu_ok_def)
  have heads: "\<forall>h \<in> set hs. addressable h" "\<forall>h \<in> set hs. unat (s7_bit h) < 8 \<and> even (unat (DataResponseLength h key))"
    using ok hs(3) by (auto simp: s7_area_ok_def addressable_def)
  have asked: "items = map (asked_item key) hs"
    using items frame_request_understood [OF heads(1) count(1), of key "sf_Variables df" "answer_offset key hs (length hs)" pdu]
      df by simp
  let ?data = "s7_answers mem items" and ?r = "s7_reply mem items"
  have len: "int (length ?data) = answer_offset key hs (length hs)"
    using length_answers [of hs mem key] heads(2) by (simp add: asked s7_answers_even)
  have le: "length ?data \<le> 12 * length hs" using len answer_offset_small [of key hs "length hs"] by linarith
  have rl: "length ?r = 21 + length ?data" by (simp add: s7_reply_def Let_def Uint16ToBytesBigEndian_eq)
  have r: "?r ! 17 = 0" "?r ! 18 = 0" "drop 21 ?r = ?data"
    "ParseUint16 (drop 15 ?r) = Some (of_nat (length ?data))"
    by (simp_all add: s7_reply_def Let_def Uint16ToBytesBigEndian_eq ParseUint16_def need_def join_bytes)
  let ?df = "df\<lparr>sf_ResponseDataFrame := ?r @ drop (length ?r) (sf_ResponseDataFrame df)\<rparr>"
  have buffer: "length (sf_ResponseDataFrame df) = unat pdu" by (subst df) (simp add: newS7DataFrame_def Let_def)
  have dl: "sf_DataLength df = int (length ?data)" by (subst df) (simp add: newS7DataFrame_def Let_def len)
  have "s7_ValidateMessage (length ?r) ?df = Some (Inr ?r)"
    using r rl by (simp add: s7_ValidateMessage_def slice_range_def slice_from_def index_at_def dl)
  moreover have "length ?r \<le> length (sf_ResponseDataFrame df)" using rl le count(2) buffer by simp
  then have "TcpClient_AskAtLeast c (sf_DataFrame df) (sf_ResponseDataFrame df) 19 =
      (c\<lparr>cn_input := evs, cn_output := cn_output c @ [sf_DataFrame df]\<rparr>,
       ?r @ drop (length ?r) (sf_ResponseDataFrame df), Inr (length ?r))"
    using c input rl by (intro tunnel_ask_whole) auto
  ultimately have "s7_exchange c df = (c\<lparr>cn_input := evs, cn_output := cn_output c @ [sf_DataFrame df]\<rparr>, ?df, Some (Inr ?r))"
    by (simp add: s7_exchange_def)
  then have retry: "s7_retry c dials df = (c\<lparr>cn_input := evs, cn_output := cn_output c @ [sf_DataFrame df]\<rparr>, dials, ?df, Some (Inr ?r))"
    by (simp add: s7_retry_def eval_nat_numeral)
  have "\<forall>vp \<in> set (sf_Variables df). s7_parse_value ?data vp = Some (sv_Value (s7_reading mem key (svp_Variable vp)))"
    using parses ok hs(3) vs len le count(1) by (auto simp: asked intro!: s7_parse_value_memory)
  from s7_parse_variables_memory [OF this] obtain vps' where
    "s7_parse_variables ?data (sf_Variables df) = Some (vps', map (\<lambda>vp. s7_reading mem key (svp_Variable vp)) (sf_Variables df))"
    by blast
  then show ?thesis
    using r(3) rl by (simp add: s7_message_def c(1) retry s7_message_report_def slice_from_def s7_ParseVariableValue_def comp_def)
qed

section \<open>A poll reads the whole device\<close>

lemma s7_rollVariable_result:
  "spr_VariableSlice (s7_rollVariable rs) = concat (map (\<lambda>r. if spr_Err r = [] then spr_VariableSlice r else []) rs) \<and>
   spr_Err (s7_rollVariable rs) = concat (map spr_Err rs)"
proof -
  have "foldl s7_roll_step (vs, es) rs =
      (vs @ concat (map (\<lambda>r. if spr_Err r = [] then spr_VariableSlice r else []) rs),
       es @ concat (map spr_Err rs))" for vs es
    by (induction rs arbitrary: vs es) (auto simp: s7_roll_step_def)
  then show ?thesis by (simp add: s7_rollVariable_def)
qed

interpretation s7_gather: gatherer spr_VariableSlice spr_Err s7_rollVariable
  by unfold_locales (simp_all add: s7_rollVariable_result)

definition s7_frame_vars :: "S7DataFrame \<Rightarrow> S7Variable list" where
  "s7_frame_vars df = map svp_Variable (sf_Variables df)"

text \<open>The plan: every area that occurs has its frames, which hold the variables of the area in sorted
  order.\<close>

lemma s7_plan_frames:
  assumes "s7_plan srt pdu vs keys = Some frames" and srt: "\<And>xs. mset (srt xs) = mset xs"
  shows "map fst frames = keys \<and>
    (\<forall>(key, dfs) \<in> set frames. (\<forall>df \<in> set dfs. s7_frame_ok key pdu df) \<and>
       mset (concat (map s7_frame_vars dfs)) = mset (filter (\<lambda>v. Zone v = key) vs))"
  using assms(1)
proof (induction keys arbitrary: frames)
  case (Cons key keys)
  from Cons.prems obtain dfs rest where
    dfs: "s7_area_frames key pdu (srt (filter (\<lambda>v. Zone v = key) vs)) = Some dfs" and
    rest: "s7_plan srt pdu vs keys = Some rest" "frames = (key, dfs) # rest"
    by (auto simp: bind_eq_Some_conv)
  have "\<forall>v \<in> set (srt (filter (\<lambda>v. Zone v = key) vs)). Zone v = key"
    using mset_eq_setD [OF srt [of "filter (\<lambda>v. Zone v = key) vs"]] by simp
  from s7_area_frames_ok [OF dfs this]
  have "(\<forall>df \<in> set dfs. s7_frame_ok key pdu df) \<and>
      mset (concat (map s7_frame_vars dfs)) = mset (filter (\<lambda>v. Zone v = key) vs)"
    using srt [of "filter (\<lambda>v. Zone v = key) vs"] by (simp add: s7_frame_vars_def [abs_def])
  with Cons.IH [OF rest(1)] rest(2) show ?case by simp
qed simp

lemma s7_frame_zone: "s7_frame_ok key pdu df \<Longrightarrow> sf_Zone df = key"
proof -
  assume "s7_frame_ok key pdu df"
  then obtain hs where "df = newS7DataFrame key (sf_Variables df) (items_of key hs 0) (answer_offset key hs (length hs)) pdu"
    by (auto simp: s7_frame_ok_def)
  then show ?thesis by (metis (no_types) S7DataFrame.select_convs(1) newS7DataFrame_def)
qed

lemma s7_planned_frame_reads:
  assumes plan: "s7_plan srt pdu vs (remdups (map Zone vs)) = Some frames" and srt: "\<And>xs. mset (srt xs) = mset xs"
    and pdu: "pdu_ok pdu" and ok: "\<forall>key. s7_area_ok key (filter (\<lambda>v. Zone v = key) vs)"
    and df: "df \<in> set (concat (map snd frames))" and honest: "s7_honest mem df got"
  shows "snd (snd (snd (s7_message got dials df))) =
    Some \<lparr>spr_VariableSlice = map (\<lambda>v. s7_reading mem (Zone v) v) (s7_frame_vars df), spr_Err = []\<rparr>"
proof -
  note frames_ok = s7_plan_frames [OF plan srt]
  obtain key dfs where k: "(key, dfs) \<in> set frames" "df \<in> set dfs" using df by auto
  have f: "s7_frame_ok key pdu df" using frames_ok k by auto
  have "mset (concat (map s7_frame_vars dfs)) = mset (filter (\<lambda>v. Zone v = key) vs)" using frames_ok k(1) by auto
  from mset_eq_setD [OF this] have vars: "set (s7_frame_vars df) \<subseteq> set (filter (\<lambda>v. Zone v = key) vs)"
    using k(2) by auto
  then have same: "map (s7_reading mem key) (s7_frame_vars df) = map (\<lambda>v. s7_reading mem (Zone v) v) (s7_frame_vars df)" by auto
  have "snd (snd (snd (s7_message got dials df))) =
      Some \<lparr>spr_VariableSlice = map (s7_reading mem key) (s7_frame_vars df), spr_Err = []\<rparr>"
    using vars honest ok unfolding s7_frame_vars_def by (intro s7_message_memory [OF f pdu]) auto
  with same show ?thesis by simp
qed

lemma s7_plan_variables:
  assumes "s7_plan srt pdu vs (remdups (map Zone vs)) = Some frames" and "\<And>xs. mset (srt xs) = mset xs"
  shows "mset (concat (map s7_frame_vars (concat (map snd frames)))) = mset vs"
proof -
  note frames_ok = s7_plan_frames [OF assms]
  have "\<forall>(key, dfs) \<in> set fs. mset (concat (map s7_frame_vars dfs)) = mset (filter (\<lambda>v. Zone v = key) vs) \<Longrightarrow>
      mset (concat (map s7_frame_vars (concat (map snd fs)))) =
      mset (concat (map (\<lambda>key. filter (\<lambda>v. Zone v = key) vs) (map fst fs)))" for fs
    by (induction fs) auto
  then have "mset (concat (map s7_frame_vars (concat (map snd frames)))) =
      mset (concat (map (\<lambda>key. filter (\<lambda>v. Zone v = key) vs) (map fst frames)))" using frames_ok by blast
  then show ?thesis using frames_ok by (simp add: mset_by_key)
qed


section \<open>Long requests\<close>

lemma frame_request_too_long:
  assumes "19 < length hs"
  shows "s7_server_request (sf_DataFrame (newS7DataFrame key vps (items_of key hs 0) len pdu)) = None"
proof -
  let ?msg = "sf_DataFrame (newS7DataFrame key vps (items_of key hs 0) len pdu)"
  have "length ?msg = 19 + 12 * length hs"
    by (simp add: newS7DataFrame_def Let_def Uint16ToBytesBigEndian_eq length_requests)
  moreover have "unat (be_word (?msg ! 2) (?msg ! 3)) < 256"
    by (simp add: newS7DataFrame_def Let_def unat_be_word_low order.strict_trans2 [OF unsigned_less])
  ultimately show ?thesis using assms by (auto simp: s7_server_request_def)
qed

text \<open>C10: Every request the plan makes holds at most as many items as the PDU length allows, one for every
  place of its variables; the controller reads exactly these items from it if they are at most 19, and
  cannot read the request at all if they are more, because the length in the TPKT header is cut to one
  byte. With the PDU length of 480 bytes the gateway proposes, a frame may have 38 items.\<close>

theorem s7_requests_understood:
  assumes "s7_area_frames key pdu vs = Some dfs" "\<forall>v \<in> set vs. Zone v = key \<and> addressable v"
    and "31 \<le> unat pdu" "df \<in> set dfs"
  shows "\<exists>hs. hs \<noteq> [] \<and> distinct (map s7_place hs) \<and> length hs \<le> (unat pdu - 19) div 12 \<and>
    s7_place ` set hs = s7_place ` set (s7_frame_vars df) \<and>
    s7_server_request (sf_DataFrame df) = (if length hs \<le> 19 then Some (map (asked_item key) hs) else None)"
proof -
  have zones: "\<forall>v \<in> set vs. Zone v = key" using assms(2) by blast
  note planned = s7_area_frames_ok [OF assms(1) zones]
  have "set (s7_frame_vars df) \<subseteq> set (concat (map (\<lambda>df. map svp_Variable (sf_Variables df)) dfs))"
    using assms(4) by (auto simp: s7_frame_vars_def)
  then have vars: "set (s7_frame_vars df) \<subseteq> set vs" using planned by simp
  have frame: "s7_frame_ok key pdu df" using planned assms(4) by blast
  then obtain hs where hs: "hs \<noteq> []" "heads_ok key hs" "few_heads pdu hs" "set hs \<subseteq> set (s7_frame_vars df)"
    and df: "df = newS7DataFrame key (sf_Variables df) (items_of key hs 0) (answer_offset key hs (length hs)) pdu"
    and parses: "\<forall>vp \<in> set (sf_Variables df). parse_ok key hs vp"
    by (auto simp: s7_frame_ok_def s7_frame_vars_def)
  have max: "unat (maxItemPerDataFrame pdu) = (unat pdu - 19) div 12"
    using assms(3) by (simp add: maxItemPerDataFrame_def unat_div unat_sub word_le_nat_alt)
  then have "0 < unat (maxItemPerDataFrame pdu)" using assms(3) by simp
  then have "length hs \<le> (unat pdu - 19) div 12" using hs(3) max by (simp add: few_heads_def)
  moreover have "s7_place ` set hs = s7_place ` set (s7_frame_vars df)"
  proof
    show "s7_place ` set hs \<subseteq> s7_place ` set (s7_frame_vars df)" using hs(4) by blast
    show "s7_place ` set (s7_frame_vars df) \<subseteq> s7_place ` set hs"
    proof (rule image_subsetI)
      fix v assume "v \<in> set (s7_frame_vars df)"
      then obtain vp where vp: "vp \<in> set (sf_Variables df)" "v = svp_Variable vp" by (auto simp: s7_frame_vars_def)
      then obtain i where "i < length hs" "s7_place (hs ! i) = s7_place v" using parses by (auto simp: parse_ok_def)
      then show "s7_place v \<in> s7_place ` set hs" by (metis imageI nth_mem)
    qed
  qed
  moreover have "\<forall>h \<in> set hs. addressable h" using hs(4) vars assms(2) by auto
  then have "s7_server_request (sf_DataFrame df) = (if length hs \<le> 19 then Some (map (asked_item key) hs) else None)"
    using frame_request_understood [of hs key] frame_request_too_long [of hs key] df by (metis not_le)
  ultimately show ?thesis using hs(1,2) by (auto simp: heads_ok_def)
qed

section \<open>What goes wrong\<close>


text \<open>\<open>retry\<close> does not stop after three attempts: a bad connection does not count, so as long as dialling
  succeeds it goes on. For every number of dials there is a run that uses them all.\<close>

theorem s7_retry_uses_every_dial:
  assumes "cn_writeFails bad"
  shows "\<exists>c. s7_retry bad (replicate n (Some bad)) df = (c, [], df, Some (Inl S7DialError))"
proof -
  have ask: "s7_exchange c df = (c, df, Some (Inl S7BadConn))" if "cn_writeFails c" for c
    using that by (simp add: s7_exchange_def TcpClient_AskAtLeast_def)
  have "\<exists>c'. s7_retry_rounds (Suc m) c (replicate n (Some bad)) df = (c', [], df, Some (Inl S7DialError))"
    if "cn_writeFails c" for c m
    using that
  proof (induction n arbitrary: c)
    case (Suc n)
    then show ?case using Suc.IH [of bad] assms ask by (simp add: Messenger_Reset_def)
  qed (simp add: ask)
  with assms show ?thesis by (simp add: s7_retry_def eval_nat_numeral)
qed

text \<open>Outside of data blocks an item of one byte is followed by a fill byte, which the plan does not count.\<close>

lemma length_s7_answers:
  "length (s7_answers mem items) =
   sum_list (map (\<lambda>item. 4 + length (item_bytes mem item)) items) +
   length (filter (\<lambda>item. odd (length (item_bytes mem item))) (butlast items))"
  by (induction mem items rule: s7_answers.induct) (simp_all add: s7_answer_def Let_def Uint16ToBytesBigEndian_eq)

text \<open>A frame of an area other than the data blocks in which an item of a single byte is not the last one is
  never accepted: the answer of the controller is longer than planned, so its validation fails. Two
  boolean inputs in different bytes are enough.\<close>

theorem s7_single_bytes_rejected:
  assumes "s7_frame_ok key pdu df" "pdu_ok pdu" "\<forall>v \<in> set (s7_frame_vars df). addressable v"
    and "s7_server_request (sf_DataFrame df) = Some items"
    and "\<exists>item \<in> set (butlast items). odd (length (item_bytes mem item))"
  shows "s7_ValidateMessage (length (s7_reply mem items))
      (df\<lparr>sf_ResponseDataFrame := s7_reply mem items @ r\<rparr>) = Some (Inl S7DataLengthNotEnough)"
proof -
  obtain hs where hs: "few_heads pdu hs" "set hs \<subseteq> set (s7_frame_vars df)"
    and df: "df = newS7DataFrame key (sf_Variables df) (items_of key hs 0) (answer_offset key hs (length hs)) pdu"
    using assms(1) by (auto simp: s7_frame_ok_def s7_frame_vars_def)
  have count: "length hs \<le> 19" using hs(1) assms(2) by (auto simp: few_heads_def pdu_ok_def)
  have heads: "\<forall>h \<in> set hs. addressable h" using hs(2) assms(3) by blast
  have asked: "items = map (asked_item key) hs"
    using assms(4) df frame_request_understood [OF heads count] by (metis option.inject)
  have "sum_list (map (\<lambda>item. 4 + length (item_bytes mem item)) (map (asked_item key) ks)) =
      nat (sum_list (map (answer_length key) ks))" if "\<forall>h \<in> set ks. addressable h" for ks
  proof -
    have "0 \<le> sum_list (map (answer_length key) ks)" by (induction ks) (auto simp: answer_length_eq)
    moreover have "int (sum_list (map (\<lambda>item. 4 + length (item_bytes mem item)) (map (asked_item key) ks))) =
        sum_list (map (answer_length key) ks)"
      using that by (induction ks) (auto simp: answer_length_eq item_bytes_asked addressable_def)
    ultimately show ?thesis by linarith
  qed
  from this [OF heads] have planned: "sum_list (map (\<lambda>item. 4 + length (item_bytes mem item)) items) =
      nat (answer_offset key hs (length hs))" by (simp add: asked answer_offset_def)
  define fill where "fill = length (filter (\<lambda>item. odd (length (item_bytes mem item))) (butlast items))"
  have len: "length (s7_answers mem items) = nat (answer_offset key hs (length hs)) + fill"
    by (simp add: length_s7_answers planned fill_def)
  have "0 < fill" using assms(5) by (auto simp: fill_def filter_empty_conv)
  moreover have "fill \<le> length hs"
    unfolding fill_def using length_filter_le [of "\<lambda>item. odd (length (item_bytes mem item))" "butlast items"] asked by simp
  moreover have "0 \<le> answer_offset key hs (length hs)" "answer_offset key hs (length hs) \<le> 12 * int (length hs)"
    using answer_offset_small [of key hs "length hs"]
    by (auto simp: answer_offset_def answer_length_eq intro!: sum_list_nonneg)
  moreover have "sf_DataLength df = answer_offset key hs (length hs)"
    by (subst df) (simp add: newS7DataFrame_def Let_def)
  ultimately have differ: "(of_nat (length (s7_answers mem items)) :: u16) \<noteq> word_of_int (sf_DataLength df)"
  proof -
    assume a: "0 < fill" "fill \<le> length hs" "0 \<le> answer_offset key hs (length hs)"
      "answer_offset key hs (length hs) \<le> 12 * int (length hs)" "sf_DataLength df = answer_offset key hs (length hs)"
    have "length (s7_answers mem items) < 2 ^ 16" using a count unfolding len by simp
    then have "unat (of_nat (length (s7_answers mem items)) :: u16) = length (s7_answers mem items)"
      by (simp only: unat_of_nat len_num0 len_bit0 len_num1 take_bit_nat_eq_self mult.commute) simp
    moreover have "unat (word_of_int (sf_DataLength df) :: u16) = nat (sf_DataLength df)"
      using a count by (simp add: unat_eq_nat_uint uint_word_of_int take_bit_int_eq_self)
    ultimately show ?thesis using a len by (metis add_cancel_right_right less_irrefl)
  qed
  have "ParseUint16 (drop 15 (s7_reply mem items)) = Some (of_nat (length (s7_answers mem items)))"
    "21 \<le> length (s7_reply mem items)"
    by (simp_all add: s7_reply_def Let_def Uint16ToBytesBigEndian_eq ParseUint16_def need_def join_bytes)
  with differ show ?thesis by (simp add: s7_ValidateMessage_def slice_range_def slice_from_def)
qed

section \<open>Writing\<close>

text \<open>The transport size of a write is not reset between the variables of a request: after a \<open>BOOL\<close> every
  later item is declared as single bits, whatever its type, and otherwise every item gets the transport
  size of the area of the first.\<close>

theorem s7_transport_size_sticks:
  assumes "generateActionParameterDataItem oor (v # action) = Some pibs"
    and "i < length pibs" "\<forall>w \<in> set action. sv_DataType w \<noteq> BOOL"
  shows "pd_ParameterItem (pibs ! i) ! 3 =
    (if sv_DataType v = BOOL then 1 else StoreAreaTransportSize (Zone v))"
proof -
  have size: "StoreAreaTransportSize z \<noteq> 0" for z by (cases z) simp_all
  have stay: "pd_ParameterItem (ps ! k) ! 3 = ts"
    if "s7_action_items oor ts ws = Some ps" "k < length ps" "ts \<noteq> 0" "\<forall>w \<in> set ws. sv_DataType w \<noteq> BOOL" for ts ws ps k
    using that
  proof (induction ws arbitrary: ps k)
    case (Cons w ws)
    then show ?case
      by (cases k) (auto simp: bind_eq_Some_conv Let_def newS7COMMReadParameterItem_def)
  qed simp
  show ?thesis
  proof (cases i)
    case 0
    then show ?thesis
      using assms(1,2) place_of [of v]
      by (auto simp: generateActionParameterDataItem_def bind_eq_Some_conv Let_def newS7COMMReadParameterItem_def
          split: if_splits)
  next
    case (Suc k)
    define ts where "ts = (if sv_DataType v = BOOL then 1 else StoreAreaTransportSize (Zone v))"
    obtain p ps where split: "pibs = p # ps" and ps: "s7_action_items oor ts action = Some ps"
      using assms(1) place_of [of v] size
      by (auto simp: generateActionParameterDataItem_def bind_eq_Some_conv Let_def ts_def split: if_splits)
    have "pd_ParameterItem (ps ! k) ! 3 = ts"
      using assms(2,3) Suc split size by (intro stay [OF ps]) (auto simp: ts_def)
    then show ?thesis by (simp add: split Suc ts_def)
  qed
qed

section \<open>The broker is built\<close>

lemma pack_variables_total:
  assumes "\<forall>v \<in> set vs. ParseVariableAddress v \<noteq> None"
  shows "\<exists>s'. pack_variables key pdu vs s = Some s'"
  using assms
proof (induction vs arbitrary: s)
  case (Cons v vs)
  have "\<exists>s1. pack_variable key v s = Some s1"
    using Cons.prems by (cases "ParseVariableAddress v") (auto simp: pack_variable_def Let_def)
  with Cons show ?case by auto
qed simp

lemma s7_plan_total:
  assumes "\<forall>v \<in> set vs. ParseVariableAddress v \<noteq> None" and srt: "\<And>xs. mset (srt xs) = mset xs"
  shows "\<exists>frames. s7_plan srt pdu vs keys = Some frames"
proof (induction keys)
  case (Cons key keys)
  have "set (srt (filter (\<lambda>v. Zone v = key) vs)) \<subseteq> set vs"
    using mset_eq_setD [OF srt [of "filter (\<lambda>v. Zone v = key) vs"]] by auto
  then obtain s where "pack_variables key pdu (srt (filter (\<lambda>v. Zone v = key) vs)) (packing_start []) = Some s"
    using pack_variables_total assms(1) by blast
  with Cons show ?case by (auto simp: s7_area_frames_def)
qed simp

lemma s7_plan_nonempty:
  assumes plan: "s7_plan srt pdu vs (remdups (map Zone vs)) = Some frames" and "vs \<noteq> []"
    and srt: "\<And>xs. mset (srt xs) = mset xs"
  shows "concat (map snd frames) \<noteq> []"
proof
  note ok = s7_plan_frames [OF plan srt]
  assume "concat (map snd frames) = []"
  then have "\<forall>(key, dfs) \<in> set frames. dfs = []" by auto
  then have none: "\<forall>(key, dfs) \<in> set frames. filter (\<lambda>v. Zone v = key) vs = []" using ok by fastforce
  have "Zone (hd vs) \<in> set (map fst frames)" using ok assms(2) by simp
  then obtain dfs where "(Zone (hd vs), dfs) \<in> set frames" by auto
  then have "filter (\<lambda>v. Zone v = Zone (hd vs)) vs = []" using none by auto
  then show False using assms(2) by (auto simp: filter_empty_conv)
qed

lemma s7_broker_of_plan:
  assumes "s7_plan srt pdu (sd_Variables device) (remdups (map Zone (sd_Variables device))) = Some frames"
    and "sd_Variables device \<noteq> []" "dm_DeviceModel (sd_DeviceMeta device) = ''s71500''"
    and "snd (GetS7DevicePDULength dialed (sd_Address device)) = Some (Inr pdu)"
    and "\<And>xs. mset (srt xs) = mset xs" "\<And>n. newClients (sd_Address device) n \<noteq> None"
  shows "\<exists>broker. S7_NewBroker srt dialed newClients device = Some (Inr broker) \<and> sb_Device broker = device \<and>
    sb_StoreAddressDataFrameMap broker = frames"
proof -
  have "concat (map snd frames) \<noteq> []" using s7_plan_nonempty [OF assms(1,2,5)] .
  then have "sum_list (map (length \<circ> snd) frames) \<noteq> 0" by auto
  moreover obtain clients where "newClients (sd_Address device) (sum_list (map (length \<circ> snd) frames)) = Some clients"
    using assms(6) by blast
  ultimately show ?thesis using assms(1,3,4) by (simp add: S7_NewBroker_def Let_def del: s7_plan.simps)
qed

lemma s7_area_ok_subset: "s7_area_ok key vs \<Longrightarrow> set ws \<subseteq> set vs \<Longrightarrow> s7_area_ok key ws"
  unfolding s7_area_ok_def by blast

text \<open>The broker of a device whose addresses can be taken apart is built, and is that of the device,
  once the controller grants a PDU length and the connections are dialled.\<close>

theorem s7_broker_built:
  assumes "\<forall>v \<in> set (sd_Variables device). ParseVariableAddress v \<noteq> None" "sd_Variables device \<noteq> []"
    and "dm_DeviceModel (sd_DeviceMeta device) = ''s71500''"
    and "snd (GetS7DevicePDULength dialed (sd_Address device)) = Some (Inr pdu)"
    and "\<And>xs. mset (srt xs) = mset xs" "\<And>n. newClients (sd_Address device) n \<noteq> None"
  shows "\<exists>broker. S7_NewBroker srt dialed newClients device = Some (Inr broker) \<and> sb_Device broker = device"
proof -
  let ?keys = "remdups (map Zone (sd_Variables device))" and ?vs = "sd_Variables device"
  obtain frames where plan: "s7_plan srt pdu ?vs ?keys = Some frames"
    using s7_plan_total [OF assms(1,5)] by blast
  from s7_broker_of_plan [OF plan assms(2-5), of newClients] assms(6) show ?thesis by blast
qed

section \<open>Examples\<close>

definition example_s7_variable :: "DataType \<Rightarrow> string \<Rightarrow> f64 \<Rightarrow> S7Variable" where
  "example_s7_variable dt address rate =
     \<lparr>sv_DataType = dt, sv_Name = address, sv_Address = address, sv_Rate = rate,
      sv_DefaultValue = VNil, sv_Value = VNil, sv_AccessMode = AccessModeReadWrite\<rparr>"

definition example_s7_variables :: "S7Variable list" where
  "example_s7_variables =
     [example_s7_variable UINT16 ''DB1.DBW4'' f64_zero, example_s7_variable BOOL ''DB1.DBX4.1'' f64_zero,
      example_s7_variable INT16 ''MW12'' f64_zero]"

definition example_s7_device :: S7Device where
  "example_s7_device =
     \<lparr>sd_DeviceMeta = md_DeviceMeta (example_modbus_device ''s71500'' 0 []), sd_CollectorCycle = 1, sd_VariableInterval = 0,
      sd_Address = example_plc, sd_Variables = example_s7_variables, sd_VariablesMap = (\<lambda>_. None)\<rparr>"

lemmas s7_address_simps = ParseVariableAddress_def parse_s7_address_def s7_zone_def s7_block_def slice_range_def
  slice_from_def s7_shortening_def parse_byte_address_def Atoi_def Atoi_unsigned_def is_digit_def digit_value_def
  has_prefix_def

lemma example_addresses [simp]:
  "ParseVariableAddress (example_s7_variable dt ''DB1.DBW4'' r) = Some (AreaDB, 1, 4, 0)"
  "ParseVariableAddress (example_s7_variable dt ''DB1.DBX4.1'' r) = Some (AreaDB, 1, 4, 1)"
  "ParseVariableAddress (example_s7_variable dt ''MW12'' r) = Some (AreaM, 0, 12, 0)"
  "ParseVariableAddress (example_s7_variable dt ''I0.1'' r) = Some (AreaI, 0, 0, 1)"
  "ParseVariableAddress (example_s7_variable dt ''I1.1'' r) = Some (AreaI, 0, 1, 1)"
  by (simp_all add: s7_address_simps example_s7_variable_def)

lemma example_zones [simp]:
  "Zone (example_s7_variable dt ''DB1.DBW4'' r) = AreaDB" "Zone (example_s7_variable dt ''DB1.DBX4.1'' r) = AreaDB"
  "Zone (example_s7_variable dt ''MW12'' r) = AreaM" "Zone (example_s7_variable dt ''I0.1'' r) = AreaI"
  "Zone (example_s7_variable dt ''I1.1'' r) = AreaI"
  using place_of [OF example_addresses(1)] place_of [OF example_addresses(2)] place_of [OF example_addresses(3)]
    place_of [OF example_addresses(4)] place_of [OF example_addresses(5)] by simp_all

lemma example_types [simp]: "sv_DataType (example_s7_variable dt a r) = dt" "sv_Rate (example_s7_variable dt a r) = r"
  by (simp_all add: example_s7_variable_def)


lemma planned_frame_understood:
  assumes "s7_frame_ok key pdu df" "pdu_ok pdu" "\<forall>v \<in> set (s7_frame_vars df). addressable v"
  shows "\<exists>items. s7_server_request (sf_DataFrame df) = Some items"
proof -
  obtain hs where hs: "few_heads pdu hs" "set hs \<subseteq> set (s7_frame_vars df)"
    and df: "df = newS7DataFrame key (sf_Variables df) (items_of key hs 0) (answer_offset key hs (length hs)) pdu"
    using assms(1) by (auto simp: s7_frame_ok_def s7_frame_vars_def)
  have "length hs \<le> 19" using hs(1) assms(2) by (auto simp: few_heads_def pdu_ok_def)
  then show ?thesis using df frame_request_understood [of hs key] hs(2) assms(3) by (metis subset_iff)
qed

definition example_job :: "s7_memory \<Rightarrow> S7DataFrame \<Rightarrow> S7DataFrame \<times> Conn option \<times> Conn option list" where
  "example_job mem df =
     (df, Some (example_tunnel [Portion (s7_reply mem (the (s7_server_request (sf_DataFrame df))))]), [])"

definition example_s7_frames :: "(S7StoreArea \<times> S7DataFrame list) list" where
  "example_s7_frames = the (s7_plan id 240 (sd_Variables example_s7_device) [AreaDB, AreaM])"

lemma example_s7_plan: "s7_plan id 240 (sd_Variables example_s7_device) [AreaDB, AreaM] = Some example_s7_frames"
proof -
  have "\<forall>v \<in> set (sd_Variables example_s7_device). ParseVariableAddress v \<noteq> None"
    by (simp add: example_s7_device_def example_s7_variables_def)
  then show ?thesis
    using s7_plan_total [of "sd_Variables example_s7_device" id 240 "[AreaDB, AreaM]"] by (auto simp: example_s7_frames_def)
qed

lemma example_pdu: "pdu_ok 240"
  by (simp add: pdu_ok_def maxItemPerDataFrame_def)

lemma example_granted:
  "snd (GetS7DevicePDULength (Some (example_tunnel (s7_greeting 0 0xf0))) example_plc) = Some (Inr 240)"
proof -
  obtain c resp where "s7_handshake 1 2 (example_tunnel (s7_greeting 0 0xf0)) = (c, Inr resp)" and
    "drop 25 resp = [0, 0xf0]" using s7_greeting_handshake by blast
  moreover from this(1) have "length resp = 27" by (rule s7_handshake_response_length)
  ultimately show ?thesis
    by (simp add: GetS7DevicePDULength_def example_plc_def slice_from_def ParseUint16_def need_def)
qed

lemma example_area_ok: "s7_area_ok key (filter (\<lambda>v. Zone v = key) (sd_Variables example_s7_device))"
  using not_rated_zero
  by (cases key) (simp_all add: s7_area_ok_def example_s7_device_def example_s7_variables_def addressable_def s7_place_def
      s7_bit_def s7_readable_def DataResponseLength_def)

lemma s7_broker_built_witness:
  "\<exists>broker. S7_NewBroker id (Some (example_tunnel (s7_greeting 0 0xf0))) (\<lambda>_ n. Some n) example_s7_device = Some (Inr broker) \<and>
     sb_Device broker = example_s7_device"
  using example_granted
  by (intro s7_broker_built [of example_s7_device _ 240]) (auto simp: example_s7_device_def example_s7_variables_def example_modbus_device_def ModBus_IndexDevice_def)


lemma example_frames_ok:
  "\<forall>df \<in> set (concat (map snd example_s7_frames)). \<exists>key. s7_frame_ok key 240 df \<and> s7_area_ok key (s7_frame_vars df) \<and> (\<forall>v \<in> set (s7_frame_vars df). Zone v = key)"
proof
  fix df assume "df \<in> set (concat (map snd example_s7_frames))"
  then obtain key dfs where k: "(key, dfs) \<in> set example_s7_frames" "df \<in> set dfs" by auto
  note ok = s7_plan_frames [OF example_s7_plan]
  have "mset (concat (map s7_frame_vars dfs)) = mset (filter (\<lambda>v. Zone v = key) (sd_Variables example_s7_device))"
    using ok k(1) by auto
  from mset_eq_setD [OF this] have "set (s7_frame_vars df) \<subseteq> set (filter (\<lambda>v. Zone v = key) (sd_Variables example_s7_device))"
    using k(2) by auto
  moreover have "s7_frame_ok key 240 df" using ok k by auto
  ultimately show "\<exists>key. s7_frame_ok key 240 df \<and> s7_area_ok key (s7_frame_vars df) \<and> (\<forall>v \<in> set (s7_frame_vars df). Zone v = key)"
    using s7_area_ok_subset [OF example_area_ok] by (intro exI [of _ key]) auto
qed

lemma example_job_honest:
  assumes "df \<in> set (concat (map snd example_s7_frames))"
  shows "s7_honest mem df (fst (snd (example_job mem df)))"
proof -
  from assms example_frames_ok obtain key where "s7_frame_ok key 240 df" "s7_area_ok key (s7_frame_vars df)" by blast
  from planned_frame_understood [OF this(1) example_pdu] this(2) obtain items where
    "s7_server_request (sf_DataFrame df) = Some items" by (auto simp: s7_area_ok_def)
  then show ?thesis by (auto simp: s7_honest_def example_job_def example_tunnel_def)
qed



lemma s7_requests_understood_witness:
  "\<exists>df hs. s7_area_frames AreaDB 240 (filter (\<lambda>v. Zone v = AreaDB) example_s7_variables) = Some [df] \<and> hs \<noteq> [] \<and>
     s7_server_request (sf_DataFrame df) = Some (map (asked_item AreaDB) hs)"
proof -
  let ?vs = "filter (\<lambda>v. Zone v = AreaDB) example_s7_variables"
  have zones: "\<forall>v \<in> set ?vs. Zone v = AreaDB \<and> addressable v"
    using example_area_ok [of AreaDB] by (auto simp: s7_area_ok_def example_s7_device_def)
  obtain df where df: "s7_area_frames AreaDB 240 ?vs = Some [df]"
    by (simp add: example_s7_variables_def s7_area_frames_def packing_start_def pack_variable_def Let_def
        maxItemPerDataFrame_def)
  with s7_requests_understood [OF df zones, of df] obtain hs where hs: "hs \<noteq> []" "length hs \<le> (unat (240 :: u16) - 19) div 12"
    "s7_server_request (sf_DataFrame df) = (if length hs \<le> 19 then Some (map (asked_item AreaDB) hs) else None)"
    by auto
  then show ?thesis using df by auto
qed

definition example_scaled_frame :: S7DataFrame where
  "example_scaled_frame =
     newS7DataFrame AreaDB [\<lparr>svp_Variable = example_s7_variable UINT16 ''DB1.DBW4'' (F64 0x3FE0000000000000),
       svp_StartAddress = 0, svp_BitAddressOrLength = 0, svp_BlockSize = 1\<rparr>]
       (items_of AreaDB [example_s7_variable UINT16 ''DB1.DBW4'' (F64 0x3FE0000000000000)] 0) 6 240"


lemma s7_retry_uses_every_dial_witness:
  "\<exists>c. s7_retry ((example_tunnel [])\<lparr>cn_writeFails := True\<rparr>)
     (replicate 100 (Some ((example_tunnel [])\<lparr>cn_writeFails := True\<rparr>))) example_scaled_frame =
     (c, [], example_scaled_frame, Some (Inl S7DialError))"
  by (rule s7_retry_uses_every_dial) simp

definition example_writes :: "S7Variable list" where
  "example_writes =
     [(example_s7_variable BOOL ''DB1.DBX4.1'' f64_zero)\<lparr>sv_Value := VBool True\<rparr>,
      (example_s7_variable UINT16 ''DB1.DBW4'' f64_zero)\<lparr>sv_Value := VUint16 7\<rparr>]"

lemma s7_transport_size_sticks_witness:
  "\<exists>pibs. generateActionParameterDataItem (\<lambda>_ _ _. 0) example_writes = Some pibs \<and> length pibs = 2 \<and>
     pd_ParameterItem (pibs ! 1) ! 3 = 1"
proof -
  have address: "ParseVariableAddress (v\<lparr>sv_Value := x\<rparr>) = ParseVariableAddress v" for v x
    by (simp add: ParseVariableAddress_def)
  obtain pibs where pibs: "generateActionParameterDataItem (\<lambda>_ _ _. 0) example_writes = Some pibs" "length pibs = 2"
    by (simp add: generateActionParameterDataItem_def example_writes_def s7_action_data_def not_rated_zero address Let_def)
  then show ?thesis
    using s7_transport_size_sticks [of _ "(example_s7_variable BOOL ''DB1.DBX4.1'' f64_zero)\<lparr>sv_Value := VBool True\<rparr>"
        "[(example_s7_variable UINT16 ''DB1.DBW4'' f64_zero)\<lparr>sv_Value := VUint16 7\<rparr>]" pibs 1]
    by (simp add: example_writes_def)
qed

definition example_inputs :: "S7Variable list" where
  "example_inputs = [example_s7_variable BOOL ''I0.1'' f64_zero, example_s7_variable BOOL ''I1.1'' f64_zero]"

lemma s7_single_bytes_rejected_witness:
  "\<exists>df. s7_area_frames AreaI 240 example_inputs = Some [df] \<and>
     s7_ValidateMessage 32 (df\<lparr>sf_ResponseDataFrame := s7_reply (\<lambda>_ _ _. 0) (map (asked_item AreaI) example_inputs)\<rparr>) =
       Some (Inl S7DataLengthNotEnough)"
proof -
  let ?items = "map (asked_item AreaI) example_inputs" and ?mem = "(\<lambda>_ _ _. 0) :: s7_memory"
  obtain df vps where df: "s7_area_frames AreaI 240 example_inputs = Some [df]"
    and df_eq: "df = newS7DataFrame AreaI vps (items_of AreaI example_inputs 0) 10 240"
    by (simp add: example_inputs_def s7_area_frames_def packing_start_def pack_variable_def Let_def address_key_inj
        maxItemPerDataFrame_def flush_frame_def item_of_def s7_place_def s7_bit_def DataResponseLength_def answer_length_def)
  have request: "s7_server_request (sf_DataFrame df) = Some ?items"
    unfolding df_eq by (rule frame_request_understood)
      (simp_all add: example_inputs_def addressable_def s7_place_def s7_bit_def)
  have "\<forall>v \<in> set example_inputs. Zone v = AreaI" by (simp add: example_inputs_def)
  from s7_area_frames_ok [OF df this] have frame: "s7_frame_ok AreaI 240 df" "s7_frame_vars df = example_inputs"
    by (simp_all add: s7_frame_vars_def)
  have one: "length (item_bytes ?mem item) = 1" if "item \<in> set ?items" for item
    using that by (auto simp: item_bytes_def asked_item_def example_inputs_def DataRequestLength_def)
  have "length (s7_reply ?mem ?items) = 32"
    using one by (simp add: s7_reply_def Let_def Uint16ToBytesBigEndian_eq length_s7_answers example_inputs_def s7_answer_def)
  moreover have "\<exists>item \<in> set (butlast ?items). odd (length (item_bytes ?mem item))"
    using one by (simp add: example_inputs_def)
  ultimately show ?thesis
    using s7_single_bytes_rejected [OF frame(1) example_pdu _ request, of ?mem "[]"] frame(2) df
    by (simp add: example_inputs_def addressable_def s7_place_def s7_bit_def)
qed

end
