(* ===== verification/Spec2Isabelle.thy ===== *)
theory Spec2Isabelle
  imports Gateway DataService GoTime SampleRing XorChunk Bstream GatewayManager OpcUaBroker DeviceServer DeviceManagerSpec DeviceManager Storage DeviceFilter DeviceManagers DeviceUpdate OpcUaTypes S7Spec S7Broker S7Plan S7Model S7Types ModbusAction ClientsPool ModbusBroker ModbusIO ModbusPlan
    ModbusModel ModbusTypes Gather Response RuntimeMeta Constants Crc16 BinUtil GoFloat GoStrings GoPrelude
begin

text \<open>
  A model of harnsGateway: a gateway that reads the variables of field devices over Modbus, S7 and OPC UA, publishes them
  to MQTT and takes devices and commands over HTTP; and of the data service beside it, which answers queries from a
  database, a search server and a third service. The Go sources are under \<^verbatim>\<open>src/\<close>; the paths below are relative to it.

  \<^bold>\<open>How the parts work together.\<close> A request comes to a handler (\<open>DeviceServer\<close>), which validates it and calls the manager of
  the devices (\<open>DeviceManager\<close>). The manager has the device made from the request by the manager of its protocol
  (\<open>DeviceManagers\<close>), stores it as a file (\<open>Storage\<close>) and asks for its broker in the table by type (\<open>Gateway\<close>). The broker plans the
  read requests of the device (\<open>ModbusPlan\<close>, \<open>S7Plan\<close>, \<open>OpcUaBroker\<close>), exchanges them over connections of a pool (\<open>ClientsPool\<close>,
  \<open>ModbusIO\<close>) and decodes the answers (\<open>ModbusTypes\<close>, \<open>BinUtil\<close>, \<open>Crc16\<close>); each poll gathers the results of its frames (\<open>Gather\<close>)
  and the manager publishes them. A write goes the other way: the manager checks it, the broker encodes and sends it
  (\<open>ModbusAction\<close>, \<open>S7Broker\<close>).

  \<^bold>\<open>Conventions.\<close> The names of the definitions are those of the source, with a prefix where two protocols or HOL use the
  same one. A panic, and in partial functions a loop without end, is the value \<open>None\<close>; an error that Go returns is the
  left side of a sum. Unsigned and signed integers are words of their width (\<open>sint\<close> reads a signed one); floats are their
  bit patterns. A struct is a record, a map a function to options, a string a list of bytes. Where devices or variables are shared
  by pointers and the sharing matters (\<open>DeviceManager\<close>, \<open>DeviceUpdate\<close>) there is a heap of objects. What the source does
  not determine is a parameter: the order in which a Go map is walked, the order \<^verbatim>\<open>sort.Sort\<close> gives to equal elements, random
  numbers and the clock, conversions of floats that are out of range, and what files, networks and libraries return.

  \<^bold>\<open>Theories.\<close>
  \<^item> Go itself: \<open>GoPrelude\<close> (words, slices that panic, generic lemmas, the locale of an invariant of steps), \<open>GoStrings\<close>, \<open>GoFloat\<close> (IEEE
    arithmetic on bit patterns), \<open>GoTime\<close> (layouts of the data service).
  \<^item> Shared parts: \<open>BinUtil\<close> (\<^verbatim>\<open>pkg/utils/binutil\<close>: four register layouts, in place and fresh, under the locale of a codec;
    encode and decode are inverse), \<open>Crc16\<close> (\<^verbatim>\<open>pkg/utils/crcutil\<close>: the tables compute the bit-by-bit checksum, which detects bursts),
    \<open>Constants\<close> (\<^verbatim>\<open>pkg/runtime/constant\<close>), \<open>RuntimeMeta\<close> (\<^verbatim>\<open>pkg/runtime/meta.go\<close>), \<open>Response\<close> (\<^verbatim>\<open>pkg/apis/response\<close>).
  \<^item> Modbus (\<^verbatim>\<open>pkg/protocol/modbus\<close>): \<open>ModbusTypes\<close> and \<open>ModbusModel\<close> (frames, dialects, decoding; a server reads from a request what was asked for),
    \<open>ModbusPlan\<close> (every frame covers its variables within the protocol's limit, every variable once), \<open>ModbusIO\<close>, \<open>ModbusBroker\<close> (validation, retries, polls:
    a poll of peers that answer from one memory reports each variable once with the value in that memory; a frame is ready again after any exchange;
    corrupted responses are rejected), \<open>ModbusAction\<close> (writes: what is reported as delivered has been written and reads back).
  \<^item> S7 (\<^verbatim>\<open>pkg/protocol/s7\<close>): \<open>S7Types\<close> (addresses), \<open>S7Model\<close> (handshake), \<open>S7Plan\<close>, \<open>S7Broker\<close>, and \<open>S7Spec\<close>, a specification of the
    controller against which the requests and the polls are shown to be right.
  \<^item> OPC UA (\<^verbatim>\<open>pkg/protocol/opcua\<close>): \<open>OpcUaTypes\<close>, \<open>OpcUaBroker\<close> (groups of variables, sessions, polls).
  \<^item> Connections: \<open>ClientsPool\<close> (\<^verbatim>\<open>runtime/clients.go\<close> of the protocols), steps of goroutines under the mutex, with the invariant
    that no connection is lost or handed out twice; \<open>Gather\<close>, the locale of a poll that both brokers interpret.
  \<^item> Devices: \<open>DeviceUpdate\<close> (\<^verbatim>\<open>pkg/utils/differenceutil\<close> and the update of variables), \<open>DeviceManagers\<close> (\<^verbatim>\<open>pkg/v1\<close>, \<^verbatim>\<open>manager.go\<close> and
    \<^verbatim>\<open>deepcopy.go\<close> of the protocols: an updated device is the one the request describes), \<open>DeviceFilter\<close> (\<^verbatim>\<open>pkg/runtime/filter.go\<close>), \<open>Storage\<close>
    (\<^verbatim>\<open>pkg/storage\<close>, \<^verbatim>\<open>pkg/generic/store.go\<close>: what is stored is read back), \<open>DeviceManager\<close> (\<^verbatim>\<open>pkg/device/manager.go\<close>: operations and
    goroutines as steps, with the invariant of the tables), \<open>DeviceManagerSpec\<close> (what every reachable state satisfies, and the orders of
    operations that break the intention), \<open>DeviceServer\<close> (\<^verbatim>\<open>pkg/device/server.go\<close>: answers, validation, conditional updates),
    \<open>Gateway\<close> (\<^verbatim>\<open>pkg/generic/constant.go\<close>) and \<open>GatewayManager\<close> (\<^verbatim>\<open>pkg/gateway/manager.go\<close>).
  \<^item> Data service: \<open>DataService\<close> (\<^verbatim>\<open>pkg/data\<close> and the start in \<^verbatim>\<open>cmd/data\<close>): queries over monthly indices, lists, time series of tags.
  \<^item> Time series (\<^verbatim>\<open>pkg/tsdb\<close>): \<open>Bstream\<close> (a stream of bits and its buffered reader), \<open>XorChunk\<close> (compressed chunks: samples
    appended in any number of sessions are read back), \<open>SampleRing\<close> (the ring of recent samples, a queue of a window of time).
  The end of this theory has the properties that need the parts together.

  \<^bold>\<open>Lemmas.\<close> Each theory has the definitions first, then the facts of each operation, then the properties, each after a text that
  states it, with a theorem that applies it to a concrete input. Interfaces are locales, interpreted on the definitions of the code: codecs in
  \<open>BinUtil\<close>, lookup tables in \<open>Constants\<close>, polls in \<open>Gather\<close>, updates in \<open>DeviceUpdate\<close>, step relations in \<open>GoPrelude\<close>.

  \<^bold>\<open>Bounds and fuel.\<close> There is no fuel. Loops that always end are functions with a measure; the packing loops of \<open>ModbusPlan\<close>, the freeing loop
  of \<open>SampleRing\<close> and the seeking of its iterator may not end and are partial functions to options, and theorems state when their value is not \<open>None\<close>.
  Addresses in a plan are assumed below \<open>2 ^ 63\<close> where the theorem says so, since at the top of 64 bits the loop wraps around. A chunk holds fewer than
  \<open>2 ^ 16\<close> samples.

  \<^bold>\<open>Not modelled.\<close> Command line flags, logging, version output and the HTTP servers themselves (\<^verbatim>\<open>cmd\<close>, \<^verbatim>\<open>pkg/generic/log\<close>, \<^verbatim>\<open>pkg/web\<close>) are glue around
  libraries. Timers and cancellation of the polls are left out: a poll is one step, whose repetition the theorems do not need. Dialing OPC UA sessions and
  serial ports is the library's. \<^verbatim>\<open>pkg/tsdb/chunks\<close> (files of chunks, memory mapping) and the file utilities are operating system calls; apart from the
  utilities nothing in the gateway uses \<^verbatim>\<open>pkg/tsdb\<close>. The simulator in \<^verbatim>\<open>pkg/iotsimulator\<close> publishes random values.
\<close>

section \<open>Devices that are created\<close>

lemma without_broker_type: "without_broker x = Some (Inl e) \<longleftrightarrow> x = Some (Inl e)"
proof (cases x)
  case (Some y)
  then show ?thesis by (cases y) (simp_all add: without_broker_def)
qed (simp add: without_broker_def)

lemma opc_no_type_error: "OpcUa_NewBroker oor nc d \<noteq> Some (Inl ErrDeviceType)"
  by (auto simp: OpcUa_NewBroker_def bind_eq_Some_conv split: option.splits if_splits)

lemma modbus_no_type_error: "NewBroker srt nc d \<noteq> Some (Inl ErrDeviceType)"
  by (auto simp: NewBroker_def Let_def bind_eq_Some_conv split: option.splits if_splits)

lemma s7_no_type_error: "S7_NewBroker srt c nc d \<noteq> Some (Inl ErrDeviceType)"
  by (auto simp: S7_NewBroker_def Let_def bind_eq_Some_conv split: option.splits if_splits sum.splits)

text \<open>C39: A device that the manager of its type makes has a broker of that type: asking for it never fails for the type, whatever the
  request and the network are.\<close>

theorem created_device_has_broker:
  assumes "manager_CreateDevice t stamp (x :: V1Device) = Some (Inr d)" and "v1_GetDeviceType x = t"
  shows "\<exists>nb. DeviceTypeBrokerMap L (GetDeviceType d) = Some nb \<and> gateway_broker L d = nb d \<and> nb d \<noteq> Some (Inl ErrDeviceType)"
proof (cases x)
  case (V1ModBus y)
  then obtain e where "d = ModbusDev e" "GetDeviceType d = t" "t = ''modbus''"
    using assms by (auto simp: manager_CreateDevice_def DeviceManagers_def Modbus_CreateDevice_def S7_CreateDevice_def
        OpcUa_CreateDevice_def v1_GetDeviceType_def dev_access new_meta_def bind_eq_Some_conv Let_def split: if_splits)
  then show ?thesis
    by (simp add: gateway_broker_def DeviceTypeBrokerMap_def modbus_device_broker_def without_broker_type modbus_no_type_error)
next
  case (V1S7 y)
  then obtain e where "d = S7Dev e" "GetDeviceType d = t" "t = ''s7''"
    using assms by (auto simp: manager_CreateDevice_def DeviceManagers_def Modbus_CreateDevice_def S7_CreateDevice_def
        OpcUa_CreateDevice_def v1_GetDeviceType_def dev_access new_meta_def bind_eq_Some_conv Let_def split: if_splits)
  then show ?thesis
    by (simp add: gateway_broker_def DeviceTypeBrokerMap_def s7_device_broker_def without_broker_type s7_no_type_error)
next
  case (V1OpcUa y)
  then obtain e where "d = OpcUaDev e" "GetDeviceType d = t" "t = ''opcUa''"
    using assms by (auto simp: manager_CreateDevice_def DeviceManagers_def Modbus_CreateDevice_def S7_CreateDevice_def
        OpcUa_CreateDevice_def v1_GetDeviceType_def dev_access new_meta_def bind_eq_Some_conv Let_def split: if_splits)
  then show ?thesis
    by (simp add: gateway_broker_def DeviceTypeBrokerMap_def opcua_device_broker_def without_broker_type opc_no_type_error)
qed

definition no_links :: "(unit, unit, unit) links" where
  "no_links = \<lparr>lk_modbus_order = (\<lambda>vs. vs), lk_modbus_clients = (\<lambda>_ _ _. None), lk_s7_order = (\<lambda>vs. vs), lk_s7_dialed = (\<lambda>_. None),
     lk_s7_clients = (\<lambda>_ _. None), lk_oor = (\<lambda>_ _ _. 0), lk_opc_clients = (\<lambda>_ _. None)\<rparr>"

lemma created_device_has_broker_witness:
  "\<exists>nb. DeviceTypeBrokerMap no_links (GetDeviceType example_device) = Some nb \<and> nb example_device \<noteq> Some (Inl ErrDeviceType)"
proof -
  have "v1_GetDeviceType (V1S7 (example_request [''a''])) = ''s7''" by (simp add: v1_GetDeviceType_def example_request_def)
  from created_device_has_broker [OF example_device_created this, of no_links] show ?thesis by (elim exE conjE) (rule exI, rule conjI, assumption+)
qed

section \<open>Unreachable devices\<close>

lemma s7_unreachable:
  assumes "GetDeviceType (S7Dev e) = ''s7''" "dm_DeviceModel (sd_DeviceMeta e) = ''s71500''" "lk_s7_dialed L (sd_Address e) = None"
  shows "gateway_broker L (S7Dev e) = Some (Inl ErrConnectDevice)"
  using assms
  by (simp add: gateway_broker_def DeviceTypeBrokerMap_def s7_device_broker_def S7_NewBroker_def GetS7DevicePDULength_def without_broker_def)



section \<open>Devices of an unknown model\<close>

lemma s7_unknown_model:
  assumes "GetDeviceType (S7Dev e) = ''s7''" "dm_DeviceModel (sd_DeviceMeta e) \<noteq> ''s71500''"
  shows "gateway_broker L (S7Dev e) = None"
  using assms by (simp add: gateway_broker_def DeviceTypeBrokerMap_def s7_device_broker_def S7_NewBroker_def without_broker_def)

lemma init_devices_panic:
  assumes "d \<in> set ds" and "nb (IndexDevice d) = None"
  shows "init_devices nb ds m = None"
  using assms(1)
proof (induction ds arbitrary: m)
  case (Cons object ds)
  show ?case
  proof (cases "object = d")
    case True
    have "obj_at (store_device i (length (gm_objects m)) (new_object (IndexDevice d) m)) (length (gm_objects m)) = IndexDevice d" for i
      by (simp add: obj_at_def store_device_def new_object_def)
    then show ?thesis using True assms(2) by (simp add: init_device_def begin_collect_def readyCollect_def Let_def)
  next
    case False
    then have "d \<in> set ds" using Cons.prems by simp
    then show ?thesis using Cons.IH by (cases "init_device nb object m") auto
  qed
qed simp

lemma load_files_member:
  assumes "load_files other fs names = Some ds" "name \<in> set names" "fs name = Some c" "load_file other name c = Some (Some d)"
  shows "d \<in> set ds"
  using assms(1,2)
proof (induction names arbitrary: ds)
  case (Cons n names)
  then show ?case using assms(3,4) by (auto simp: bind_eq_Some_conv split: option.splits)
qed simp

lemma s7_created:
  assumes "manager_CreateDevice ''s7'' stamp (V1S7 x) = Some (Inr d)"
  shows "\<exists>e. d = S7Dev e \<and> sd_DeviceMeta e = new_meta stamp (xsd_DeviceMeta x)"
proof -
  obtain address opt where "xsd_Address x = Some address" "xsa_Option address = Some opt"
    using assms by (auto simp: manager_CreateDevice_def DeviceManagers_def S7_CreateDevice_def bind_eq_Some_conv)
  then show ?thesis using assms by (simp add: manager_CreateDevice_def DeviceManagers_def S7_CreateDevice_def Let_def) clarsimp
qed

lemma s7_document:
  assumes "json_document f (S7Dev e) = Some doc"
  shows "\<exists>e'. doc = S7Dev e' \<and> sd_DeviceMeta e' = sd_DeviceMeta e"
  using assms by (cases "those (map (json_s7_variable f) (sd_Variables e))") clarsimp+

text \<open>C20: A valid request for an S7 device may name any model. With a model other than \<open>s71500\<close> the request panics after the device has
  been stored, and from then on the gateway panics whenever it starts, since it loads the device and asks for its broker.\<close>

theorem unknown_model_stops_gateway:
  assumes "manager_CreateDevice ''s7'' stamp (V1S7 x) = Some (Inr d)" and "xd_DeviceType (xsd_DeviceMeta x) = ''s7''"
    and "xd_DeviceModel (xsd_DeviceMeta x) \<noteq> ''s71500''" and "CHR ''.'' \<notin> set (st_ID stamp)"
    and "Store_Create (json_document f32_text) None d fs = (Inr d', fs')" and "store_key d \<in> set names"
  shows "Manager_CreateDevice (json_document f32_text) None (gateway_broker L) stamp (V1S7 x) (m\<lparr>gm_store := fs\<rparr>) = None \<and>
    Manager_Init other names (gateway_broker L) (NewManager gatewayID fs') = None"
proof
  obtain e where e: "d = S7Dev e" "sd_DeviceMeta e = new_meta stamp (xsd_DeviceMeta x)"
    using s7_created [OF assms(1)] by (elim exE conjE) (rule that)
  have acc: "GetDeviceType d = ''s7''" "GetID d = st_ID stamp" "dm_DeviceModel (sd_DeviceMeta e) \<noteq> ''s71500''"
    unfolding e(1) using assms(2,3) by (simp_all add: dev_access e(2) new_meta_def)
  have free: "fs (store_key d) = None" by (rule ccontr) (use assms(5) in \<open>simp add: Store_Create_def fs_Create_def\<close>)
  obtain doc where doc: "json_document f32_text d = Some doc" "fs' = fs(store_key d \<mapsto> Document doc)" "d' = d"
  proof (cases "json_document f32_text d")
    case None
    then show thesis using assms(5) free by (simp add: Store_Create_def fs_Create_def)
  next
    case (Some doc)
    have "Store_Create (json_document f32_text) None d fs = (Inr d, fs(store_key d \<mapsto> Document doc))"
      using free Some by (simp add: Store_Create_def fs_Create_def)
    then have "d = d'" "fs(store_key d \<mapsto> Document doc) = fs'" using assms(5) by (simp_all only: prod.inject sum.inject)
    then show thesis by (intro that [OF Some]) (simp_all only:)
  qed
  define M where "M = store_device (st_ID stamp) (length (gm_objects m)) (new_object d (m\<lparr>gm_store := fs'\<rparr>))"
  have "obj_at M (length (gm_objects m)) = d" by (simp add: M_def obj_at_def store_device_def new_object_def)
  then have "begin_collect (gateway_broker L) (length (gm_objects m)) M = None"
    using s7_unknown_model [OF acc(1) [unfolded e(1)] acc(3), of L] by (simp add: begin_collect_def readyCollect_def e(1))
  then show "Manager_CreateDevice (json_document f32_text) None (gateway_broker L) stamp (V1S7 x) (m\<lparr>gm_store := fs\<rparr>) = None"
    using assms(1,2,5) by (simp add: Manager_CreateDevice_def v1_GetDeviceType_def doc(3) acc(2) Let_def M_def)
  obtain e' where e': "doc = S7Dev e'" "sd_DeviceMeta e' = sd_DeviceMeta e"
    using s7_document [OF doc(1) [unfolded e(1)]] by (elim exE conjE) (rule that)
  have "str_last_index (store_key d) CHR ''.'' = Some 2"
    using str_last_index_append [of "CHR ''.''" "st_ID stamp" "''s7''"] assms(4) by (simp add: store_key_def acc(1,2))
  then have load: "load_file other (store_key d) (Document doc) = Some (Some doc)"
    by (simp add: load_file_def store_key_def acc(1) DeviceManagers_def e'(1))
  have "GetDeviceType (S7Dev (S7_IndexDevice e')) = ''s7''" "dm_DeviceModel (sd_DeviceMeta (S7_IndexDevice e')) \<noteq> ''s71500''"
    using acc(1,3) e'(2) unfolding e(1) by (simp_all add: dev_access S7_IndexDevice_def)
  from s7_unknown_model [OF this, of L] have none: "gateway_broker L (IndexDevice doc) = None" by (simp add: e'(1))
  show "Manager_Init other names (gateway_broker L) (NewManager gatewayID fs') = None"
  proof (cases "load_files other fs' names")
    case (Some ds)
    have "doc \<in> set ds" by (rule load_files_member [OF Some assms(6) _ load]) (simp add: doc(2))
    then show ?thesis
      using Some init_devices_panic [of doc ds "gateway_broker L", OF _ none] by (simp add: Manager_Init_def NewManager_def)
  qed (simp add: Manager_Init_def NewManager_def)
qed

definition other_model :: v1_S7Device where
  "other_model = (example_request [''a''])\<lparr>xsd_DeviceMeta := (xsd_DeviceMeta (example_request [''a'']))\<lparr>xd_DeviceModel := ''s7300''\<rparr>\<rparr>"

lemma other_model_simps:
  "xd_DeviceType (xsd_DeviceMeta other_model) = ''s7''" "xd_DeviceModel (xsd_DeviceMeta other_model) \<noteq> ''s71500''"
  "CHR ''.'' \<notin> set (st_ID example_stamp)"
  by (simp_all add: other_model_def example_request_def example_stamp_def)

lemma unknown_model_stops_gateway_witness:
  "valid_v1 (V1S7 other_model) \<and> (\<exists>d fs'. manager_CreateDevice ''s7'' example_stamp (V1S7 other_model) = Some (Inr d) \<and>
     Store_Create (json_document (\<lambda>_. f64_zero)) None d (\<lambda>_. None) = (Inr d, fs') \<and>
     Manager_Init (\<lambda>_ _. None) [''s7.d1''] (gateway_broker no_links) (NewManager ''gw'' fs') = None)"
proof
  show "valid_v1 (V1S7 other_model)"
    by (simp add: other_model_def example_request_def valid_v1_s7_def valid_v1_meta_def valid_name_def valid_v1_s7_variable_def
        required_access_def AccessMode_code_def)
  obtain d where d: "manager_CreateDevice ''s7'' example_stamp (V1S7 other_model) = Some (Inr d)"
    by (simp add: manager_CreateDevice_def DeviceManagers_def S7_CreateDevice_def other_model_def example_request_def Let_def)
  have zero: "fp_finite (f64_val f64_zero)"
    by (simp add: fp_finite_def f64_val_def f64_zero_def fp_decode_def fp_emin_def Let_def)
  obtain doc where doc: "json_document (\<lambda>_. f64_zero) d = Some doc"
    using d zero by (auto simp: manager_CreateDevice_def DeviceManagers_def S7_CreateDevice_def other_model_def example_request_def Let_def
        json_s7_variable_def json_rate_def s7_variable_def)
  obtain e where "d = S7Dev e" "sd_DeviceMeta e = new_meta example_stamp (xsd_DeviceMeta other_model)"
    using s7_created [OF d] by (elim exE conjE) (rule that)
  then have key: "store_key d = ''s7.d1''"
    by (simp add: store_key_def dev_access new_meta_def other_model_simps(1)) (simp add: example_stamp_def)
  have created: "Store_Create (json_document (\<lambda>_. f64_zero)) None d (\<lambda>_. None) = (Inr d, [''s7.d1'' \<mapsto> Document doc])"
    by (simp add: Store_Create_def fs_Create_def key doc)
  have "Manager_Init (\<lambda>_ _. None) [''s7.d1''] (gateway_broker no_links) (NewManager ''gw'' [''s7.d1'' \<mapsto> Document doc]) = None"
    using unknown_model_stops_gateway [OF d other_model_simps created, where names = "[''s7.d1'']" and L = no_links] key by simp
  then show "\<exists>d fs'. manager_CreateDevice ''s7'' example_stamp (V1S7 other_model) = Some (Inr d) \<and>
     Store_Create (json_document (\<lambda>_. f64_zero)) None d (\<lambda>_. None) = (Inr d, fs') \<and>
     Manager_Init (\<lambda>_ _. None) [''s7.d1''] (gateway_broker no_links) (NewManager ''gw'' fs') = None"
    using d created by (intro exI conjI)
qed

end
